(* ===== verification/Prelude.thy ===== *)
theory Prelude
  imports Main "HOL-Library.AList" "HOL-Library.Word"
begin

text \<open>
  Shared vocabulary of the development: the types the Go code's strings, byte slices and
  results are modelled by, the theorem collections the component theories fill, and generic
  lemmas on lists and association lists.

  A Go \<open>string\<close> is a sequence of bytes, so it is HOL's \<open>string\<close> (a list of 8-bit characters)
  and \<open>length\<close> is Go's \<open>len\<close>.  A Go \<open>[]byte\<close> is a list of 8-bit words; where the code
  distinguishes the nil slice from an empty one it is an option.  A Go \<open>map\<close> whose iteration
  the code performs is an association list with distinct keys.
\<close>

named_theorems wire_simps "equations of the wire formats (base64, hex, JSON objects)"
named_theorems store_simps "equations of the SQLite tables' primitive statements"
named_theorems hub_frame "which fields of the hub's state a primitive leaves unchanged"

type_synonym byte = "8 word"
type_synonym bytes = "8 word list"
type_synonym ('e, 'a) result = "'e + 'a" \<comment> \<open>Inl is the error a Go function returns\<close>
type_synonym time = int \<comment> \<open>a Go \<open>time.Time\<close> as nanoseconds since the epoch\<close>

text \<open>The keys of an association list that stands for a Go map.\<close>

abbreviation keys :: "('k \<times> 'v) list \<Rightarrow> 'k list" where
  "keys m \<equiv> map fst m"

abbreviation has_key :: "('k \<times> 'v) list \<Rightarrow> 'k \<Rightarrow> bool" where
  "has_key m k \<equiv> map_of m k \<noteq> None"

lemma map_of_alist_update [simp]:
  "map_of (AList.update k v m) k' = (if k' = k then Some v else map_of m k')"
  by (simp add: update_conv')

lemma map_of_alist_delete [simp]:
  "map_of (AList.delete k m) k' = (if k' = k then None else map_of m k')"
  by (simp add: delete_conv')

lemma keys_update_set [simp]: "fst ` set (AList.update k v m) = insert k (fst ` set m)"
  using dom_update [of k v m] by simp

lemma distinct_keys_update [simp]:
  "distinct (keys m) \<Longrightarrow> distinct (keys (AList.update k v m))"
  by (rule distinct_update)

lemma distinct_keys_delete [simp]:
  "distinct (keys m) \<Longrightarrow> distinct (keys (AList.delete k m))"
  by (rule distinct_delete)

lemma alist_delete_filter: "AList.delete k m = filter (\<lambda>(k', _). k' \<noteq> k) m"
  by (simp add: AList.delete_eq eq_commute)

lemma in_set_delete [simp]: "(a, b) \<in> set (AList.delete k m) \<longleftrightarrow> (a, b) \<in> set m \<and> a \<noteq> k"
  by (auto simp: alist_delete_filter)

lemma has_key_memI: "(k, v) \<in> set m \<Longrightarrow> has_key m k"
  by (metis map_of_eq_None_iff fst_conv imageI)

lemma in_set_updateD: "(a, b) \<in> set (AList.update k v m) \<Longrightarrow> (a, b) \<in> set m \<or> a = k \<and> b = v"
  by (induction m) (auto split: if_splits)

lemma delete_fresh: "\<not> has_key m k \<Longrightarrow> AList.delete k m = m"
  by (auto simp: alist_delete_filter map_of_eq_None_iff rev_image_eqI intro!: filter_True)

lemma update_fresh: "\<not> has_key m k \<Longrightarrow> AList.update k v m = m @ [(k, v)]"
  by (induction m) (auto split: if_splits)

lemma values_update_fresh:
  "\<not> has_key m k \<Longrightarrow> snd ` set (AList.update k v m) = insert v (snd ` set m)"
  by (auto simp: update_fresh)

lemma map_of_Some_value: "map_of m k = Some v \<Longrightarrow> v \<in> snd ` set m"
  by (force dest: map_of_SomeD)

text \<open>
  A list of labels executed by a partial function, and the run of a step relation it gives when
  every single step does.
\<close>

fun execute :: "('a \<Rightarrow> 's \<Rightarrow> 's option) \<Rightarrow> 'a list \<Rightarrow> 's \<Rightarrow> 's option" where
  "execute f [] s = Some s"
| "execute f (a # as) s = Option.bind (f a s) (execute f as)"

lemma execute_run:
  assumes "\<And>bs s a s'. run bs s \<Longrightarrow> f a s = Some s' \<Longrightarrow> run (bs @ [a]) s'"
    and "execute f as s = Some s'" and "run bs s"
  shows "run (bs @ as) s'"
  using assms(2,3)
proof (induction as arbitrary: s bs)
  case (Cons a as)
  then obtain t where "f a s = Some t" "execute f as t = Some s'" by (cases "f a s") auto
  with Cons.IH [OF _ assms(1) [OF Cons.prems(2)]] show ?case by simp
qed simp

text \<open>A fold over a list that only ever touches the heap cells its elements name.\<close>

lemma foldl_frame:
  assumes "\<And>h x. x \<in> set xs \<Longrightarrow> f (g h x) = f h"
  shows "f (foldl g h xs) = f h"
  using assms by (induction xs arbitrary: h) auto

end
