(* ===== verification/GoText.thy ===== *)
theory GoText
  imports Prelude
begin

text \<open>
  The parts of Go's \<open>strings\<close>, \<open>strconv\<close> and \<open>encoding/hex\<close> packages the server calls, on
  byte strings.  White space is Unicode's, by its UTF-8 encodings, as \<open>strings.TrimSpace\<close> has
  it.  Case folding treats the ASCII letters and the two runes outside ASCII that fold to an
  ASCII letter (the long s and the Kelvin sign); it is exact whenever one of the two compared
  strings is ASCII, which the host names, origins and field names the server compares are.
\<close>

section \<open>White space\<close>

definition space_runes :: "string list" where
  "space_runes =
     [[CHR 0x09], [CHR 0x0A], [CHR 0x0B], [CHR 0x0C], [CHR 0x0D], [CHR 0x20],
      [CHR 0xC2, CHR 0x85], [CHR 0xC2, CHR 0xA0], [CHR 0xE1, CHR 0x9A, CHR 0x80],
      [CHR 0xE2, CHR 0x80, CHR 0x80], [CHR 0xE2, CHR 0x80, CHR 0x81],
      [CHR 0xE2, CHR 0x80, CHR 0x82], [CHR 0xE2, CHR 0x80, CHR 0x83],
      [CHR 0xE2, CHR 0x80, CHR 0x84], [CHR 0xE2, CHR 0x80, CHR 0x85],
      [CHR 0xE2, CHR 0x80, CHR 0x86], [CHR 0xE2, CHR 0x80, CHR 0x87],
      [CHR 0xE2, CHR 0x80, CHR 0x88], [CHR 0xE2, CHR 0x80, CHR 0x89],
      [CHR 0xE2, CHR 0x80, CHR 0x8A], [CHR 0xE2, CHR 0x80, CHR 0xA8],
      [CHR 0xE2, CHR 0x80, CHR 0xA9], [CHR 0xE2, CHR 0x80, CHR 0xAF],
      [CHR 0xE2, CHR 0x81, CHR 0x9F], [CHR 0xE3, CHR 0x80, CHR 0x80]]"

definition starts_with :: "'a list \<Rightarrow> 'a list \<Rightarrow> bool" where
  "starts_with r s \<longleftrightarrow> take (length r) s = r"

text \<open>Drop leading elements of \<open>rs\<close> as long as one is there.\<close>

function trim_with :: "'a list list \<Rightarrow> 'a list \<Rightarrow> 'a list" where
  "trim_with rs s =
     (case find (\<lambda>r. r \<noteq> [] \<and> starts_with r s) rs of
        None \<Rightarrow> s
      | Some r \<Rightarrow> trim_with rs (drop (length r) s))"
  by pat_completeness auto
termination
proof (relation "measure (\<lambda>(rs, s). length s)", goal_cases)
  case (2 rs s r)
  then show ?case
    by (cases s) (auto simp: find_Some_iff starts_with_def)
qed simp

declare trim_with.simps [simp del]

definition trim_left :: "string \<Rightarrow> string" where
  "trim_left s = trim_with space_runes s"

definition trim_right :: "string \<Rightarrow> string" where
  "trim_right s = rev (trim_with (map rev space_runes) (rev s))"

definition trim_space :: "string \<Rightarrow> string" where
  "trim_space s = trim_right (trim_left s)"

lemma trim_with_suffix: "\<exists>p. s = p @ trim_with rs s"
proof (induction rs s rule: trim_with.induct)
  case (1 rs s)
  show ?case
  proof (cases "find (\<lambda>r. r \<noteq> [] \<and> starts_with r s) rs")
    case None
    then show ?thesis by (simp add: trim_with.simps [of rs s])
  next
    case (Some r)
    from "1.IH" [OF Some] obtain p where p: "drop (length r) s = p @ trim_with rs (drop (length r) s)"
      by blast
    have "s = take (length r) s @ drop (length r) s" by simp
    also have "\<dots> = (take (length r) s @ p) @ trim_with rs (drop (length r) s)"
      using p by simp
    finally have "s = (take (length r) s @ p) @ trim_with rs s"
      using Some by (simp add: trim_with.simps [of rs s])
    then show ?thesis by blast
  qed
qed

lemma length_trim_with: "length (trim_with rs s) \<le> length s"
proof -
  obtain p where "s = p @ trim_with rs s" using trim_with_suffix by blast
  then have "length s = length p + length (trim_with rs s)"
    by (metis length_append)
  then show ?thesis by simp
qed

lemma trim_with_no_start:
  "r \<in> set rs \<Longrightarrow> r \<noteq> [] \<Longrightarrow> \<not> starts_with r (trim_with rs s)"
proof (induction rs s rule: trim_with.induct)
  case (1 rs s)
  then show ?case
    by (auto simp: trim_with.simps [of rs s] find_None_iff split: option.splits)
qed

lemma trim_with_fix:
  "(\<And>r. r \<in> set rs \<Longrightarrow> r \<noteq> [] \<Longrightarrow> \<not> starts_with r s) \<Longrightarrow> trim_with rs s = s"
  by (auto simp: trim_with.simps [of rs s] find_Some_iff split: option.splits)

lemma length_trim_space: "length (trim_space s) \<le> length s"
  using length_trim_with [of "map rev space_runes" "rev (trim_left s)"]
    length_trim_with [of space_runes s]
  by (simp add: trim_space_def trim_right_def trim_left_def)

lemma trim_space_Nil [simp]: "trim_space [] = []"
  using length_trim_space [of "[]"] by simp

lemma space_runes_nonempty: "r \<in> set space_runes \<Longrightarrow> r \<noteq> []"
  by (auto simp: space_runes_def)

text \<open>No white-space rune is left at either end, and so trimming twice changes nothing.\<close>

lemma trim_space_start:
  assumes "r \<in> set space_runes"
  shows "\<not> starts_with r (trim_space s)"
proof
  assume r: "starts_with r (trim_space s)"
  obtain p where "rev (trim_left s) = p @ trim_with (map rev space_runes) (rev (trim_left s))"
    using trim_with_suffix by blast
  then have "trim_left s = trim_space s @ rev p"
    by (metis rev_append rev_rev_ident trim_right_def trim_space_def)
  then have "starts_with r (trim_left s)"
    using r by (metis append_assoc append_eq_conv_conj append_take_drop_id starts_with_def)
  then show False
    using assms trim_with_no_start [OF assms space_runes_nonempty]
    by (simp add: trim_left_def)
qed

lemma trim_space_end:
  assumes "r \<in> set space_runes"
  shows "\<not> starts_with (rev r) (rev (trim_space s))"
  using assms trim_with_no_start [of "rev r" "map rev space_runes" "rev (trim_left s)"]
    space_runes_nonempty
  by (simp add: trim_space_def trim_right_def)

lemma trim_space_idem [simp]: "trim_space (trim_space s) = trim_space s"
proof -
  have "trim_left (trim_space s) = trim_space s"
    unfolding trim_left_def by (rule trim_with_fix) (use trim_space_start in blast)
  moreover have "trim_right (trim_space s) = trim_space s"
  proof -
    have "trim_with (map rev space_runes) (rev (trim_space s)) = rev (trim_space s)"
      by (rule trim_with_fix) (use trim_space_end in auto)
    then show ?thesis by (simp add: trim_right_def)
  qed
  ultimately show ?thesis by (simp add: trim_space_def [of "trim_space s"])
qed

text \<open>A text of visible ASCII characters needs no trimming.\<close>

definition plain :: "string \<Rightarrow> bool" where
  "plain s \<longleftrightarrow> list_all (\<lambda>c. (32 :: nat) < of_char c \<and> (of_char c :: nat) < 128) s"

lemma space_runes_not_plain:
  assumes "r \<in> set space_runes" and "c \<in> set r"
  shows "\<not> plain [c]"
proof -
  have "list_all (list_all (\<lambda>c. (of_char c :: nat) \<le> 32 \<or> 128 \<le> (of_char c :: nat))) space_runes"
    by code_simp
  with assms show ?thesis by (fastforce simp: list_all_iff plain_def)
qed

lemma plain_in: "plain s \<Longrightarrow> c \<in> set s \<Longrightarrow> plain [c]"
  by (simp add: plain_def list_all_iff)

lemma starts_with_hd: "starts_with r t \<Longrightarrow> r \<noteq> [] \<Longrightarrow> hd r \<in> set t"
  unfolding starts_with_def by (metis hd_in_set in_set_takeD)

lemma trim_space_plain [wire_simps]:
  assumes "plain s"
  shows "trim_space s = s"
proof -
  have none: "\<not> starts_with r s" if "r \<in> set space_runes" for r
    using starts_with_hd [of r s] that space_runes_nonempty [OF that] space_runes_not_plain [OF that]
      plain_in [OF assms] hd_in_set by blast
  have none': "\<not> starts_with (rev r) (rev s)" if "r \<in> set space_runes" for r
    using starts_with_hd [of "rev r" "rev s"] that space_runes_nonempty [OF that] space_runes_not_plain [OF that]
      plain_in [OF assms] hd_in_set [of "rev r"] by auto
  have "trim_left s = s" unfolding trim_left_def by (rule trim_with_fix) (use none in blast)
  moreover have "trim_right s = s"
    unfolding trim_right_def using none' by (subst trim_with_fix) auto
  ultimately show ?thesis by (simp add: trim_space_def)
qed

section \<open>Case folding\<close>

definition to_lower_char :: "char \<Rightarrow> char" where
  "to_lower_char c =
     (let n = of_char c :: nat in if 65 \<le> n \<and> n \<le> 90 then char_of (n + 32) else c)"

definition to_lower :: "string \<Rightarrow> string" where
  "to_lower s = map to_lower_char s"

text \<open>
  The fold of \<open>strings.EqualFold\<close> and of the JSON decoder's field lookup: the long s folds to
  s, the Kelvin sign to k.
\<close>

fun fold_case :: "string \<Rightarrow> string" where
  "fold_case [] = []"
| "fold_case (a # s) =
     (if a = CHR 0xC5 \<and> starts_with [CHR 0xBF] s then CHR ''s'' # fold_case (drop 1 s)
      else if a = CHR 0xE2 \<and> starts_with [CHR 0x84, CHR 0xAA] s then CHR ''k'' # fold_case (drop 2 s)
      else to_lower_char a # fold_case s)"

definition equal_fold :: "string \<Rightarrow> string \<Rightarrow> bool" where
  "equal_fold a b \<longleftrightarrow> fold_case a = fold_case b"

lemma equal_fold_refl [simp]: "equal_fold a a"
  by (simp add: equal_fold_def)

lemma equal_fold_sym: "equal_fold a b \<Longrightarrow> equal_fold b a"
  by (simp add: equal_fold_def)

lemma equal_fold_trans: "equal_fold a b \<Longrightarrow> equal_fold b c \<Longrightarrow> equal_fold a c"
  by (simp add: equal_fold_def)

section \<open>Splitting and prefixes\<close>

text \<open>\<open>strings.Split(s, sep)\<close> for a one-byte separator: never the empty list.\<close>

fun split_char :: "char \<Rightarrow> string \<Rightarrow> string list" where
  "split_char sep [] = [[]]"
| "split_char sep (c # s) =
     (case split_char sep s of
        [] \<Rightarrow> [[c]]
      | w # ws \<Rightarrow> if c = sep then [] # w # ws else (c # w) # ws)"

lemma split_char_nonempty: "split_char sep s \<noteq> []"
  by (cases s) (simp, simp split: list.split)

lemma split_char_no_sep: "w \<in> set (split_char sep s) \<Longrightarrow> sep \<notin> set w"
  by (induction s arbitrary: w) (auto simp: split_char_nonempty split: list.splits if_splits)

definition trim_prefix :: "string \<Rightarrow> string \<Rightarrow> string" where
  "trim_prefix s p = (if starts_with p s then drop (length p) s else s)"

section \<open>Numbers and hex\<close>

fun show_nat :: "nat \<Rightarrow> string" where
  "show_nat n =
     (if n < 10 then [char_of (48 + n)] else show_nat (n div 10) @ [char_of (48 + n mod 10)])"

declare show_nat.simps [simp del]

definition show_int :: "int \<Rightarrow> string" where
  "show_int i = (if i < 0 then CHR ''-'' # show_nat (nat (- i)) else show_nat (nat i))"

definition hex_digits :: string where
  "hex_digits = ''0123456789abcdef''"

fun hex_encode :: "bytes \<Rightarrow> string" where
  "hex_encode [] = []"
| "hex_encode (b # bs) =
     hex_digits ! (unat b div 16) # hex_digits ! (unat b mod 16) # hex_encode bs"

lemma length_hex_encode [simp]: "length (hex_encode bs) = 2 * length bs"
  by (induction bs) auto

lemma hex_digits_inj:
  "i < 16 \<Longrightarrow> j < 16 \<Longrightarrow> hex_digits ! i = hex_digits ! j \<Longrightarrow> i = j"
proof -
  have "distinct hex_digits" and "length hex_digits = 16"
    by (simp_all add: hex_digits_def)
  then show "i < 16 \<Longrightarrow> j < 16 \<Longrightarrow> hex_digits ! i = hex_digits ! j \<Longrightarrow> i = j"
    by (simp add: nth_eq_iff_index_eq)
qed

lemma hex_encode_inj: "hex_encode a = hex_encode b \<Longrightarrow> a = b"
proof (induction a arbitrary: b)
  case Nil
  then show ?case by (cases b) auto
next
  case (Cons x a)
  then obtain y b' where b: "b = y # b'" by (cases b) auto
  have lt: "unat z div 16 < 16" for z :: byte
    using unsigned_less [of z, where ?'a = nat] by simp
  from Cons.prems b have "unat x div 16 = unat y div 16" "unat x mod 16 = unat y mod 16"
    using hex_digits_inj [OF lt lt] by (auto dest: hex_digits_inj [rotated 2])
  then have "x = y"
    by (metis div_mult_mod_eq unsigned_word_eqI)
  with Cons b show ?case by simp
qed

end
