(* ===== verification/Json.thy ===== *)
theory Json
  imports GoText
begin

text \<open>
  JSON values and what \<open>encoding/json\<close> does with them.  The lexical level is left out: a value
  here is a JSON text that has been parsed, with its strings decoded to valid UTF-8.  A number
  keeps its literal: \<open>JInt\<close> is an integer literal, \<open>JDec\<close> one with a fraction or an exponent.

  \<open>json.Unmarshal\<close> into a Go value is a decoder: from the JSON value and the value the Go
  variable has, the value it gets, or None for a type error.  A JSON null leaves the variable
  as it is, members are applied in order (so the last duplicate wins), a member's field is
  looked up by its exact name and then with case folding, and unknown members are skipped.
\<close>

datatype jnum = JInt int | JDec string

datatype json =
    JNull
  | JBool bool
  | JNum jnum
  | JStr string
  | JArr "json list"
  | JObj "(string \<times> json) list"

type_synonym 'a dec = "json \<Rightarrow> 'a \<Rightarrow> 'a option"

section \<open>Decoding\<close>

fun dec_string :: "string dec" where
  "dec_string JNull old = Some old"
| "dec_string (JStr s) old = Some s"
| "dec_string _ old = None"

fun dec_bool :: "bool dec" where
  "dec_bool JNull old = Some old"
| "dec_bool (JBool b) old = Some b"
| "dec_bool _ old = None"

text \<open>An \<open>int\<close>, \<open>int64\<close> or \<open>time.Duration\<close> field takes an integer literal in 64-bit range.\<close>

definition in_int64 :: "int \<Rightarrow> bool" where
  "in_int64 i \<longleftrightarrow> - (2 ^ 63) \<le> i \<and> i < 2 ^ 63"

fun dec_int64 :: "int dec" where
  "dec_int64 JNull old = Some old"
| "dec_int64 (JNum (JInt i)) old = (if in_int64 i then Some i else None)"
| "dec_int64 _ old = None"

fun dec_float :: "jnum dec" where
  "dec_float JNull old = Some old"
| "dec_float (JNum n) old = Some n"
| "dec_float _ old = None"

text \<open>A \<open>json.RawMessage\<close> field takes any value, null included.\<close>

definition dec_raw :: "json option dec" where
  "dec_raw v old = Some (Some v)"

fun dec_elems :: "'a dec \<Rightarrow> 'a \<Rightarrow> json list \<Rightarrow> 'a list option" where
  "dec_elems d zero [] = Some []"
| "dec_elems d zero (v # vs) =
     (case (d v zero, dec_elems d zero vs) of (Some x, Some xs) \<Rightarrow> Some (x # xs) | _ \<Rightarrow> None)"

fun dec_list :: "'a dec \<Rightarrow> 'a \<Rightarrow> 'a list dec" where
  "dec_list d zero JNull old = Some []"
| "dec_list d zero (JArr vs) old = dec_elems d zero vs"
| "dec_list d zero _ old = None"

text \<open>A pointer: null makes it nil, anything else is decoded into what it points to.\<close>

fun dec_ptr :: "'a dec \<Rightarrow> 'a \<Rightarrow> 'a option dec" where
  "dec_ptr d zero JNull old = Some None"
| "dec_ptr d zero v old = map_option Some (d v (case old of None \<Rightarrow> zero | Some x \<Rightarrow> x))"

text \<open>A decoder for one field of a struct, from the field's selector and update function.\<close>

definition field :: "('r \<Rightarrow> 'a) \<Rightarrow> (('a \<Rightarrow> 'a) \<Rightarrow> 'r \<Rightarrow> 'r) \<Rightarrow> 'a dec \<Rightarrow> 'r dec" where
  "field sel upd d v r = map_option (\<lambda>x. upd (\<lambda>_. x) r) (d v (sel r))"

definition find_field :: "(string \<times> 'r dec) list \<Rightarrow> string \<Rightarrow> 'r dec option" where
  "find_field fs k =
     (case map_of fs k of
        Some d \<Rightarrow> Some d
      | None \<Rightarrow> map_option snd (find (\<lambda>(n, _). equal_fold n k) fs))"

fun dec_members :: "(string \<times> 'r dec) list \<Rightarrow> (string \<times> json) list \<Rightarrow> 'r \<Rightarrow> 'r option" where
  "dec_members fs [] r = Some r"
| "dec_members fs ((k, v) # kvs) r =
     (case find_field fs k of
        None \<Rightarrow> dec_members fs kvs r
      | Some d \<Rightarrow> (case d v r of None \<Rightarrow> None | Some r' \<Rightarrow> dec_members fs kvs r'))"

fun dec_struct :: "(string \<times> 'r dec) list \<Rightarrow> 'r dec" where
  "dec_struct fs JNull r = Some r"
| "dec_struct fs (JObj kvs) r = dec_members fs kvs r"
| "dec_struct fs _ r = None"

lemma dec_members_append:
  "dec_members fs (a @ b) r = Option.bind (dec_members fs a r) (dec_members fs b)"
  by (induction fs a r rule: dec_members.induct) (auto split: option.splits)

lemma find_field_exact [wire_simps]: "map_of fs k = Some d \<Longrightarrow> find_field fs k = Some d"
  by (simp add: find_field_def)

text \<open>A member of the wrong type makes the whole object fail, whatever comes before it.\<close>

lemma dec_members_type_error:
  assumes "(k, v) \<in> set kvs" and "find_field fs k = Some d" and "\<And>r. d v r = None"
  shows "dec_members fs kvs r = None"
  using assms(1)
proof (induction kvs arbitrary: r)
  case (Cons kv kvs)
  then show ?case
    using assms(2,3) by (cases kv) (auto split: option.splits)
qed simp

section \<open>Encoding\<close>

text \<open>
  \<open>json.Marshal\<close> writes valid UTF-8: each byte of a string that does not belong to a valid
  rune is replaced by U+FFFD.  \<open>rune_len\<close> is the size of the valid rune a string starts with,
  0 when it starts with none.
\<close>

definition cont :: "nat \<Rightarrow> nat \<Rightarrow> char \<Rightarrow> bool" where
  "cont lo hi c \<longleftrightarrow> lo \<le> of_char c \<and> (of_char c :: nat) \<le> hi"

fun rune_len :: "string \<Rightarrow> nat" where
  "rune_len [] = 0"
| "rune_len (a # s) =
     (let n = of_char a :: nat;
          tails = (\<lambda>k lo hi. (case s of [] \<Rightarrow> False
            | b # t \<Rightarrow> cont lo hi b \<and> k \<le> length t \<and> list_all (cont 0x80 0xBF) (take k t)))
      in if n < 0x80 then 1
         else if 0xC2 \<le> n \<and> n \<le> 0xDF then (if tails 0 0x80 0xBF then 2 else 0)
         else if n = 0xE0 then (if tails 1 0xA0 0xBF then 3 else 0)
         else if 0xE1 \<le> n \<and> n \<le> 0xEC \<or> n = 0xEE \<or> n = 0xEF then (if tails 1 0x80 0xBF then 3 else 0)
         else if n = 0xED then (if tails 1 0x80 0x9F then 3 else 0)
         else if n = 0xF0 then (if tails 2 0x90 0xBF then 4 else 0)
         else if 0xF1 \<le> n \<and> n \<le> 0xF3 then (if tails 2 0x80 0xBF then 4 else 0)
         else if n = 0xF4 then (if tails 2 0x80 0x8F then 4 else 0)
         else 0)"

declare rune_len.simps(2) [simp del]

lemma rune_len_measure: "s \<noteq> [] \<Longrightarrow> 0 < rune_len s \<Longrightarrow> length s - rune_len s < length s"
  by simp

function coerce_utf8 :: "string \<Rightarrow> string" where
  "coerce_utf8 s =
     (if s = [] then []
      else if rune_len s = 0 then [CHR 0xEF, CHR 0xBF, CHR 0xBD] @ coerce_utf8 (tl s)
      else take (rune_len s) s @ coerce_utf8 (drop (rune_len s) s))"
  by pat_completeness auto
termination
  by (relation "measure length") (auto simp: rune_len_measure)

declare coerce_utf8.simps [simp del]

function valid_utf8 :: "string \<Rightarrow> bool" where
  "valid_utf8 s =
     (if s = [] then True
      else if rune_len s = 0 then False
      else valid_utf8 (drop (rune_len s) s))"
  by pat_completeness auto
termination
  by (relation "measure length") (auto simp: rune_len_measure)

declare valid_utf8.simps [simp del]

lemma coerce_utf8_Nil [simp]: "coerce_utf8 [] = []"
  by (simp add: coerce_utf8.simps)

lemma coerce_utf8_bad:
  "s \<noteq> [] \<Longrightarrow> rune_len s = 0 \<Longrightarrow> coerce_utf8 s = [CHR 0xEF, CHR 0xBF, CHR 0xBD] @ coerce_utf8 (tl s)"
  by (subst coerce_utf8.simps) simp

lemma coerce_utf8_good:
  "0 < rune_len s \<Longrightarrow> coerce_utf8 s = take (rune_len s) s @ coerce_utf8 (drop (rune_len s) s)"
  by (cases "s = []") (simp, subst coerce_utf8.simps, simp)

lemma valid_utf8_Nil [simp]: "valid_utf8 []"
  by (simp add: valid_utf8.simps)

lemma valid_utf8_step:
  "s \<noteq> [] \<Longrightarrow> valid_utf8 s \<longleftrightarrow> 0 < rune_len s \<and> valid_utf8 (drop (rune_len s) s)"
  by (subst valid_utf8.simps) simp

lemma coerce_utf8_cases [case_names Nil Bad Good]:
  obtains "s = []" | "s \<noteq> []" "rune_len s = 0" | "s \<noteq> []" "0 < rune_len s"
  by blast

lemma coerce_utf8_valid [wire_simps]: "valid_utf8 s \<Longrightarrow> coerce_utf8 s = s"
proof (induction s rule: coerce_utf8.induct)
  case (1 s)
  show ?case
  proof (cases s rule: coerce_utf8_cases)
    case Bad
    with 1(3) show ?thesis by (simp only: valid_utf8_step [OF Bad(1)]) simp
  next
    case Good
    with 1 show ?thesis
      by (simp only: valid_utf8_step [OF Good(1)] coerce_utf8_good [OF Good(2)]) simp
  qed simp
qed

lemma coerce_utf8_length: "length (coerce_utf8 s) \<le> 3 * length s"
proof (induction s rule: coerce_utf8.induct)
  case (1 s)
  show ?case
  proof (cases s rule: coerce_utf8_cases)
    case Bad
    obtain a t where s: "s = a # t" using Bad(1) by (cases s) auto
    with 1(1) [OF Bad] have "length (coerce_utf8 t) \<le> 3 * length t" by simp
    then show ?thesis by (simp only: coerce_utf8_bad [OF Bad]) (simp add: s)
  next
    case Good
    have "length (coerce_utf8 (drop (rune_len s) s)) \<le> 3 * (length s - rune_len s)"
      using 1(2) Good by simp
    then show ?thesis by (simp only: coerce_utf8_good [OF Good(2)]) simp
  qed simp
qed

lemma coerce_utf8_empty_iff [simp]: "coerce_utf8 s = [] \<longleftrightarrow> s = []"
proof (cases s rule: coerce_utf8_cases)
  case Bad
  then show ?thesis by (simp only: coerce_utf8_bad [OF Bad]) simp
next
  case Good
  then show ?thesis by (simp only: coerce_utf8_good [OF Good(2)]) simp
qed simp

definition enc_string :: "string \<Rightarrow> json" where
  "enc_string s = JStr (coerce_utf8 s)"

text \<open>The \<open>omitempty\<close> option of a struct tag.\<close>

definition omit_string :: "string \<Rightarrow> string \<Rightarrow> (string \<times> json) list" where
  "omit_string k s = (if s = [] then [] else [(k, enc_string s)])"

definition omit_bool :: "string \<Rightarrow> bool \<Rightarrow> (string \<times> json) list" where
  "omit_bool k b = (if b then [(k, JBool b)] else [])"

definition omit_list :: "string \<Rightarrow> ('a \<Rightarrow> json) \<Rightarrow> 'a list \<Rightarrow> (string \<times> json) list" where
  "omit_list k f xs = (if xs = [] then [] else [(k, JArr (map f xs))])"

end
