(* ===== verification/Base64.thy ===== *)
theory Base64
  imports GoText
begin

text \<open>
  Base64 as \<open>encoding/base64\<close> computes it, and the four functions of the protocol package that
  use it: \<open>EncodeBytes\<close>, \<open>DecodeBytes\<close> (\<open>internal/protocol/protocol.go\<close>, standard alphabet
  with padding) and \<open>NewSecret\<close> (\<open>internal/protocol/ids.go\<close>, URL alphabet without padding).
  The decoder is Go's: line breaks are skipped anywhere, padding is required, and the unused
  bits of the last character are not looked at.
\<close>

section \<open>Alphabets\<close>

definition std_alphabet :: string where
  "std_alphabet = ''ABCDEFGHIJKLMNOPQRSTUVWXYZabcdefghijklmnopqrstuvwxyz0123456789+/''"

definition url_alphabet :: string where
  "url_alphabet = ''ABCDEFGHIJKLMNOPQRSTUVWXYZabcdefghijklmnopqrstuvwxyz0123456789-_''"

definition dec6 :: "char \<Rightarrow> nat option" where
  "dec6 c = map_of (zip std_alphabet [0..<64]) c"

definition enc6 :: "nat \<Rightarrow> char" where
  "enc6 n = std_alphabet ! n"

lemma std_alphabet_facts: "distinct std_alphabet" "length std_alphabet = 64"
  by (simp_all add: std_alphabet_def)

lemma url_alphabet_facts: "distinct url_alphabet" "length url_alphabet = 64"
  by (simp_all add: url_alphabet_def)

lemma dec6_enc6 [wire_simps]: "n < 64 \<Longrightarrow> dec6 (enc6 n) = Some n"
  using std_alphabet_facts
  by (simp add: dec6_def enc6_def map_of_zip_nth)

lemma enc6_in_alphabet: "n < 64 \<Longrightarrow> enc6 n \<in> set std_alphabet"
  using std_alphabet_facts by (simp add: enc6_def)

lemma enc6_special [wire_simps]:
  "n < 64 \<Longrightarrow> enc6 n \<noteq> CHR ''=''" "n < 64 \<Longrightarrow> enc6 n \<noteq> CHR 0x0A" "n < 64 \<Longrightarrow> enc6 n \<noteq> CHR 0x0D"
  using enc6_in_alphabet [of n] by (auto simp: std_alphabet_def)

lemma dec6_bound: "dec6 c = Some n \<Longrightarrow> n < 64"
  by (auto simp: dec6_def dest!: map_of_SomeD set_zip_rightD)

section \<open>Encoding and decoding\<close>

fun b64_encode :: "bytes \<Rightarrow> string" where
  "b64_encode [] = []"
| "b64_encode [a] =
     [enc6 (unat a div 4), enc6 (unat a mod 4 * 16), CHR ''='', CHR ''='']"
| "b64_encode [a, b] =
     [enc6 (unat a div 4), enc6 (unat a mod 4 * 16 + unat b div 16),
      enc6 (unat b mod 16 * 4), CHR ''='']"
| "b64_encode (a # b # c # r) =
     enc6 (unat a div 4) # enc6 (unat a mod 4 * 16 + unat b div 16) #
     enc6 (unat b mod 16 * 4 + unat c div 64) # enc6 (unat c mod 64) # b64_encode r"

text \<open>One quantum of four characters, or the padded last one.\<close>

fun b64_quanta :: "string \<Rightarrow> bytes option" where
  "b64_quanta [] = Some []"
| "b64_quanta (a # b # c # d # r) =
     (case (dec6 a, dec6 b) of
        (Some x, Some y) \<Rightarrow>
          (if c = CHR ''='' then
             (if d = CHR ''='' \<and> r = [] then Some [of_nat (x * 4 + y div 16)] else None)
           else (case dec6 c of
               None \<Rightarrow> None
             | Some z \<Rightarrow>
                 (if d = CHR ''='' then
                    (if r = [] then
                       Some [of_nat (x * 4 + y div 16), of_nat (y mod 16 * 16 + z div 4)]
                     else None)
                  else (case (dec6 d, b64_quanta r) of
                      (Some w, Some bs) \<Rightarrow>
                        Some (of_nat (x * 4 + y div 16) # of_nat (y mod 16 * 16 + z div 4) #
                              of_nat (z mod 4 * 64 + w) # bs)
                    | _ \<Rightarrow> None))))
      | _ \<Rightarrow> None)"
| "b64_quanta _ = None"

definition b64_decode :: "string \<Rightarrow> bytes option" where
  "b64_decode s = b64_quanta (filter (\<lambda>c. c \<noteq> CHR 0x0A \<and> c \<noteq> CHR 0x0D) s)"

definition EncodeBytes :: "bytes \<Rightarrow> string" where
  "EncodeBytes data = (if data = [] then [] else b64_encode data)"

text \<open>
  \<open>DecodeBytes\<close> distinguishes three results: a decoding error (\<open>Inl\<close>), the nil slice for
  the empty string, and a slice.
\<close>

definition DecodeBytes :: "string \<Rightarrow> (unit, bytes option) result" where
  "DecodeBytes value =
     (if value = [] then Inr None
      else case b64_decode value of None \<Rightarrow> Inl () | Some bs \<Rightarrow> Inr (Some bs))"

fun raw_url_encode :: "bytes \<Rightarrow> string" where
  "raw_url_encode [] = []"
| "raw_url_encode [a] = [url_alphabet ! (unat a div 4), url_alphabet ! (unat a mod 4 * 16)]"
| "raw_url_encode [a, b] =
     [url_alphabet ! (unat a div 4), url_alphabet ! (unat a mod 4 * 16 + unat b div 16),
      url_alphabet ! (unat b mod 16 * 4)]"
| "raw_url_encode (a # b # c # r) =
     url_alphabet ! (unat a div 4) # url_alphabet ! (unat a mod 4 * 16 + unat b div 16) #
     url_alphabet ! (unat b mod 16 * 4 + unat c div 64) # url_alphabet ! (unat c mod 64) #
     raw_url_encode r"

definition NewSecret :: "string \<Rightarrow> bytes option \<Rightarrow> string" where
  "NewSecret pre rnd =
     (case rnd of
        None \<Rightarrow> pre @ ''-fallback''
      | Some buf \<Rightarrow> pre @ ''-'' @ raw_url_encode buf)"

section \<open>Round trip\<close>

lemma byte_bound: "unat (a :: byte) < 256"
  using unsigned_less [of a, where ?'a = nat] by simp

lemma sextets:
  fixes a b c :: byte
  shows "unat a div 4 < 64" "unat a mod 4 * 16 < 64" "unat a mod 4 * 16 + unat b div 16 < 64"
    "unat b mod 16 * 4 < 64" "unat b mod 16 * 4 + unat c div 64 < 64" "unat c mod 64 < 64"
proof -
  have q: "x div 4 < 64" "x div 16 < 16" "x div 64 < 4" if "x < 256" for x :: nat
    using that by (simp_all add: less_mult_imp_div_less)
  have r: "x mod 4 < 4" "x mod 16 < 16" "x mod 64 < 64" for x :: nat
    by simp_all
  note q = q [OF byte_bound]
  show "unat a div 4 < 64" "unat c mod 64 < 64"
    using q(1) by simp_all
  show "unat a mod 4 * 16 < 64" "unat a mod 4 * 16 + unat b div 16 < 64"
    using r(1) [of "unat a"] q(2) [of b] by linarith+
  show "unat b mod 16 * 4 < 64" "unat b mod 16 * 4 + unat c div 64 < 64"
    using r(2) [of "unat b"] q(3) [of c] by linarith+
qed

text \<open>The high part of a byte fits the sextet it is moved to.\<close>

lemma high_bits:
  fixes b c :: byte
  shows "unat b div 16 div 16 = 0" "unat b div 16 mod 16 = unat b div 16"
    "unat c div 64 div 4 = 0" "unat c div 64 mod 4 = unat c div 64"
  using byte_bound [of b] byte_bound [of c] by (simp_all add: less_mult_imp_div_less)

lemma b64_quanta_encode: "b64_quanta (b64_encode bs) = Some bs"
  by (induction bs rule: b64_encode.induct)
     (simp_all add: dec6_enc6 enc6_special sextets high_bits del: of_nat_add of_nat_mult)

lemma b64_encode_chars:
  "c \<in> set (b64_encode bs) \<Longrightarrow> c \<noteq> CHR 0x0A \<and> c \<noteq> CHR 0x0D"
  by (induction bs rule: b64_encode.induct) (auto simp: wire_simps sextets)

lemma b64_decode_encode [wire_simps]: "b64_decode (b64_encode bs) = Some bs"
proof -
  have "filter (\<lambda>c. c \<noteq> CHR 0x0A \<and> c \<noteq> CHR 0x0D) (b64_encode bs) = b64_encode bs"
    by (rule filter_True) (use b64_encode_chars in blast)
  then show ?thesis by (simp add: b64_decode_def b64_quanta_encode)
qed

lemma b64_encode_Nil_iff [simp]: "b64_encode bs = [] \<longleftrightarrow> bs = []"
  by (cases bs rule: b64_encode.cases) auto

lemma length_b64_encode: "length (b64_encode bs) = 4 * ((length bs + 2) div 3)"
proof (induction bs rule: b64_encode.induct)
  case (4 a b c r)
  have "length (a # b # c # r) + 2 = (length r + 2) + 1 * 3" by simp
  then have "(length (a # b # c # r) + 2) div 3 = (length r + 2) div 3 + 1"
    by (simp only: div_mult_self1)
  with 4 show ?case by simp
qed auto

lemma length_raw_url_encode: "length (raw_url_encode bs) = (4 * length bs + 2) div 3"
  by (induction bs rule: raw_url_encode.induct) auto

lemma raw_url_encode_alphabet: "set (raw_url_encode bs) \<subseteq> set url_alphabet"
  using url_alphabet_facts sextets
  by (induction bs rule: raw_url_encode.induct) auto

lemma b64_quanta_length: "b64_quanta s = Some bs \<Longrightarrow> 4 * length bs \<le> 3 * length s"
  by (induction s arbitrary: bs rule: b64_quanta.induct)
     (auto split: option.splits if_splits prod.splits)

lemma b64_decode_length: "b64_decode s = Some bs \<Longrightarrow> 4 * length bs \<le> 3 * length s"
proof -
  assume "b64_decode s = Some bs"
  then have "4 * length bs \<le> 3 * length (filter (\<lambda>c. c \<noteq> CHR 0x0A \<and> c \<noteq> CHR 0x0D) s)"
    unfolding b64_decode_def by (rule b64_quanta_length)
  then show ?thesis
    using length_filter_le [of "\<lambda>c. c \<noteq> CHR 0x0A \<and> c \<noteq> CHR 0x0D" s] by linarith
qed

end
