(* ===== verification/Ids.thy ===== *)
theory Ids
  imports GoText
begin

text \<open>
  \<open>internal/protocol/ids.go\<close>: generated identifiers and the cleaning of what clients send.
  The random source is an argument: the bytes \<open>crypto/rand.Read\<close> filled the buffer with, or
  None when it returned an error.
\<close>

definition NewID :: "string \<Rightarrow> bytes option \<Rightarrow> string" where
  "NewID pre rnd =
     (case rnd of
        None \<Rightarrow> pre @ ''-fallback''
      | Some buf \<Rightarrow> pre @ ''-'' @ hex_encode buf)"

text \<open>A read of \<open>crypto/rand\<close> into a buffer of \<open>n\<close> bytes fills it or fails.\<close>

definition rand_read :: "nat \<Rightarrow> bytes option \<Rightarrow> bool" where
  "rand_read n rnd = (case rnd of None \<Rightarrow> True | Some buf \<Rightarrow> length buf = n)"

definition CleanID :: "string \<Rightarrow> string \<Rightarrow> bytes option \<Rightarrow> string" where
  "CleanID value fallbackPrefix rnd =
     (let value = trim_space value
      in if value = [] \<or> length value > 128 then NewID fallbackPrefix rnd else value)"

definition CleanText :: "string \<Rightarrow> string \<Rightarrow> nat \<Rightarrow> string" where
  "CleanText value fallback maxlen =
     (let value = trim_space value
      in if value = [] then fallback
         else if length value > maxlen then take maxlen value
         else value)"

lemma length_NewID:
  "rand_read n rnd \<Longrightarrow> length (NewID pre rnd) \<le> length pre + max 9 (1 + 2 * n)"
  by (auto simp: NewID_def rand_read_def split: option.splits)

lemma NewID_nonempty [simp]: "NewID pre rnd \<noteq> []"
  by (simp add: NewID_def split: option.split)

lemma NewID_inj:
  "NewID pre (Some a) = NewID pre (Some b) \<longleftrightarrow> a = b"
  by (auto simp: NewID_def dest: hex_encode_inj)

lemma CleanID_nonempty [simp]: "CleanID v p rnd \<noteq> []"
  by (simp add: CleanID_def Let_def)

lemma CleanID_length:
  assumes "rand_read 16 rnd" and "length p \<le> 95"
  shows "length (CleanID v p rnd) \<le> 128"
  using length_NewID [OF assms(1), of p] assms(2) by (auto simp: CleanID_def Let_def)

lemma CleanText_length: "length (CleanText v d m) \<le> max m (length d)"
  by (auto simp: CleanText_def Let_def)

lemma CleanText_nonempty: "d \<noteq> [] \<Longrightarrow> 0 < m \<Longrightarrow> CleanText v d m \<noteq> []"
  by (auto simp: CleanText_def Let_def)

lemma CleanText_id: "trim_space v = v \<Longrightarrow> v \<noteq> [] \<Longrightarrow> length v \<le> m \<Longrightarrow> CleanText v d m = v"
  by (simp add: CleanText_def Let_def)

end
