(* ===== verification/Protocol.thy ===== *)
theory Protocol
  imports Json Base64 Ids
begin

text \<open>
  \<open>internal/protocol/protocol.go\<close>: the message types, the payload structs with their JSON
  decoders and encoders, and the envelope that carries them.  An envelope a client sent holds
  the parsed JSON of its payload (\<open>Raw\<close>, None for an absent one); an envelope the server makes
  holds the struct it is marshalled from, and \<open>marshal\<close> gives the JSON that goes out.
\<close>

section \<open>Message types\<close>

definition Version :: int where "Version = 1"

definition TypeAuth :: string where "TypeAuth = ''auth''"
definition TypeAuthOK :: string where "TypeAuthOK = ''auth_ok''"
definition TypeSyncRequest :: string where "TypeSyncRequest = ''sync_request''"
definition TypeDocUpdate :: string where "TypeDocUpdate = ''doc_update''"
definition TypeDocSnapshot :: string where "TypeDocSnapshot = ''doc_snapshot''"
definition TypePresence :: string where "TypePresence = ''presence''"
definition TypeSignal :: string where "TypeSignal = ''signal''"
definition TypeRelay :: string where "TypeRelay = ''relay''"
definition TypeChat :: string where "TypeChat = ''chat''"
definition TypePing :: string where "TypePing = ''ping''"
definition TypePong :: string where "TypePong = ''pong''"
definition TypePeerJoined :: string where "TypePeerJoined = ''peer_joined''"
definition TypePeerLeft :: string where "TypePeerLeft = ''peer_left''"
definition TypeJoinPending :: string where "TypeJoinPending = ''join_pending''"
definition TypeJoinRequest :: string where "TypeJoinRequest = ''join_request''"
definition TypeJoinDecision :: string where "TypeJoinDecision = ''join_decision''"
definition TypeJoinRejected :: string where "TypeJoinRejected = ''join_rejected''"
definition TypePeerKick :: string where "TypePeerKick = ''peer_kick''"
definition TypePeerKicked :: string where "TypePeerKicked = ''peer_kicked''"
definition TypeRoomClosed :: string where "TypeRoomClosed = ''room_closed''"
definition TypeError :: string where "TypeError = ''error''"
definition TypeDocUpdateRejected :: string where "TypeDocUpdateRejected = ''doc_update_rejected''"
definition TypeCompactionRequest :: string where "TypeCompactionRequest = ''compaction_request''"
definition TypeHostChanged :: string where "TypeHostChanged = ''host_changed''"
definition TypeVoiceSignal :: string where "TypeVoiceSignal = ''voice_signal''"
definition TypeVoiceData :: string where "TypeVoiceData = ''voice_data''"
definition TypeVoiceCtrl :: string where "TypeVoiceCtrl = ''voice_ctrl''"

lemmas type_defs =
  TypeAuth_def TypeAuthOK_def TypeSyncRequest_def TypeDocUpdate_def TypeDocSnapshot_def
  TypePresence_def TypeSignal_def TypeRelay_def TypeChat_def TypePing_def TypePong_def
  TypePeerJoined_def TypePeerLeft_def TypeJoinPending_def TypeJoinRequest_def
  TypeJoinDecision_def TypeJoinRejected_def TypePeerKick_def TypePeerKicked_def
  TypeRoomClosed_def TypeError_def TypeDocUpdateRejected_def TypeCompactionRequest_def
  TypeHostChanged_def TypeVoiceSignal_def TypeVoiceData_def TypeVoiceCtrl_def

section \<open>Users\<close>

record cursor =
  cursorPageID :: string
  cursorX :: jnum
  cursorY :: jnum

record user =
  userID :: string
  userName :: string
  userColor :: string
  userPageID :: string
  userSelectedElementID :: string
  userEditingElementID :: string
  userCursor :: "cursor option"
  userTransport :: string
  userLastSeen :: string
  userRole :: string

definition zero_cursor :: cursor where
  "zero_cursor = \<lparr>cursorPageID = [], cursorX = JInt 0, cursorY = JInt 0\<rparr>"

definition zero_user :: user where
  "zero_user =
     \<lparr>userID = [], userName = [], userColor = [], userPageID = [], userSelectedElementID = [],
      userEditingElementID = [], userCursor = None, userTransport = [], userLastSeen = [],
      userRole = []\<rparr>"

definition cursor_fields :: "(string \<times> cursor dec) list" where
  "cursor_fields =
     [(''pageId'', field cursorPageID cursorPageID_update dec_string),
      (''x'', field cursorX cursorX_update dec_float),
      (''y'', field cursorY cursorY_update dec_float)]"

definition user_fields :: "(string \<times> user dec) list" where
  "user_fields =
     [(''id'', field userID userID_update dec_string),
      (''name'', field userName userName_update dec_string),
      (''color'', field userColor userColor_update dec_string),
      (''pageId'', field userPageID userPageID_update dec_string),
      (''selectedElementId'', field userSelectedElementID userSelectedElementID_update dec_string),
      (''editingElementId'', field userEditingElementID userEditingElementID_update dec_string),
      (''cursor'', field userCursor userCursor_update (dec_ptr (dec_struct cursor_fields) zero_cursor)),
      (''transport'', field userTransport userTransport_update dec_string),
      (''lastSeen'', field userLastSeen userLastSeen_update dec_string),
      (''role'', field userRole userRole_update dec_string)]"

definition enc_cursor :: "cursor \<Rightarrow> json" where
  "enc_cursor c =
     JObj [(''pageId'', enc_string (cursorPageID c)), (''x'', JNum (cursorX c)),
           (''y'', JNum (cursorY c))]"

definition enc_user :: "user \<Rightarrow> json" where
  "enc_user u =
     JObj ([(''id'', enc_string (userID u)), (''name'', enc_string (userName u)),
            (''color'', enc_string (userColor u))]
           @ omit_string ''pageId'' (userPageID u)
           @ omit_string ''selectedElementId'' (userSelectedElementID u)
           @ omit_string ''editingElementId'' (userEditingElementID u)
           @ [(''cursor'', case userCursor u of None \<Rightarrow> JNull | Some c \<Rightarrow> enc_cursor c)]
           @ omit_string ''transport'' (userTransport u)
           @ omit_string ''lastSeen'' (userLastSeen u)
           @ omit_string ''role'' (userRole u))"

section \<open>Payloads a client sends\<close>

record auth_payload =
  auRoomID :: string
  auRoomKey :: string
  auUser :: user

record doc_update =
  duUpdateID :: string
  duUpdateBase64 :: string
  duRelay :: bool

record doc_snapshot =
  dsStateBase64 :: string
  dsBaseSeq :: int

record presence =
  prUser :: user
  prRelay :: bool

record signal =
  sgKind :: string
  sgCandidate :: "json option"
  sgSDP :: string

record relay =
  rlType :: string
  rlPayload :: "json option"

record chat =
  chMessageID :: string
  chText :: string
  chUser :: user
  chRelay :: bool

record join_decision_payload =
  jdRequestID :: string
  jdClientID :: string
  jdApproved :: bool
  jdReason :: string

record peer_kick =
  pkClientID :: string
  pkReason :: string

definition dec_user :: "user dec" where
  "dec_user = dec_struct user_fields"

definition dec_auth :: "auth_payload dec" where
  "dec_auth = dec_struct
     [(''roomId'', field auRoomID auRoomID_update dec_string),
      (''roomKey'', field auRoomKey auRoomKey_update dec_string),
      (''user'', field auUser auUser_update dec_user)]"

definition dec_doc_update :: "doc_update dec" where
  "dec_doc_update = dec_struct
     [(''updateId'', field duUpdateID duUpdateID_update dec_string),
      (''updateBase64'', field duUpdateBase64 duUpdateBase64_update dec_string),
      (''relay'', field duRelay duRelay_update dec_bool)]"

definition dec_doc_snapshot :: "doc_snapshot dec" where
  "dec_doc_snapshot = dec_struct
     [(''stateBase64'', field dsStateBase64 dsStateBase64_update dec_string),
      (''baseSeq'', field dsBaseSeq dsBaseSeq_update dec_int64)]"

definition presence_fields :: "(string \<times> presence dec) list" where
  "presence_fields =
     [(''user'', field prUser prUser_update dec_user),
      (''relay'', field prRelay prRelay_update dec_bool)]"

definition dec_presence :: "presence dec" where
  "dec_presence = dec_struct presence_fields"

definition dec_signal :: "signal dec" where
  "dec_signal = dec_struct
     [(''kind'', field sgKind sgKind_update dec_string),
      (''candidate'', field sgCandidate sgCandidate_update dec_raw),
      (''sdp'', field sgSDP sgSDP_update dec_string)]"

definition dec_relay :: "relay dec" where
  "dec_relay = dec_struct
     [(''type'', field rlType rlType_update dec_string),
      (''payload'', field rlPayload rlPayload_update dec_raw)]"

definition chat_fields :: "(string \<times> chat dec) list" where
  "chat_fields =
     [(''messageId'', field chMessageID chMessageID_update dec_string),
      (''text'', field chText chText_update dec_string),
      (''user'', field chUser chUser_update dec_user),
      (''relay'', field chRelay chRelay_update dec_bool)]"

definition dec_chat :: "chat dec" where
  "dec_chat = dec_struct chat_fields"

definition dec_join_decision :: "join_decision_payload dec" where
  "dec_join_decision = dec_struct
     [(''requestId'', field jdRequestID jdRequestID_update dec_string),
      (''clientId'', field jdClientID jdClientID_update dec_string),
      (''approved'', field jdApproved jdApproved_update dec_bool),
      (''reason'', field jdReason jdReason_update dec_string)]"

definition dec_peer_kick :: "peer_kick dec" where
  "dec_peer_kick = dec_struct
     [(''clientId'', field pkClientID pkClientID_update dec_string),
      (''reason'', field pkReason pkReason_update dec_string)]"

text \<open>
  \<open>DecodePayload[T]\<close>: an absent payload is the zero value of the type, anything else is
  unmarshalled into it.
\<close>

definition DecodePayload :: "'a dec \<Rightarrow> 'a \<Rightarrow> json option \<Rightarrow> (unit, 'a) result" where
  "DecodePayload d zero payload =
     (case payload of
        None \<Rightarrow> Inr zero
      | Some v \<Rightarrow> (case d v zero of None \<Rightarrow> Inl () | Some x \<Rightarrow> Inr x))"

definition zero_auth :: auth_payload where
  "zero_auth = \<lparr>auRoomID = [], auRoomKey = [], auUser = zero_user\<rparr>"

definition zero_doc_update :: doc_update where
  "zero_doc_update = \<lparr>duUpdateID = [], duUpdateBase64 = [], duRelay = False\<rparr>"

definition zero_doc_snapshot :: doc_snapshot where
  "zero_doc_snapshot = \<lparr>dsStateBase64 = [], dsBaseSeq = 0\<rparr>"

definition zero_presence :: presence where
  "zero_presence = \<lparr>prUser = zero_user, prRelay = False\<rparr>"

definition zero_signal :: signal where
  "zero_signal = \<lparr>sgKind = [], sgCandidate = None, sgSDP = []\<rparr>"

definition zero_relay :: relay where
  "zero_relay = \<lparr>rlType = [], rlPayload = None\<rparr>"

definition zero_chat :: chat where
  "zero_chat = \<lparr>chMessageID = [], chText = [], chUser = zero_user, chRelay = False\<rparr>"

definition zero_join_decision :: join_decision_payload where
  "zero_join_decision = \<lparr>jdRequestID = [], jdClientID = [], jdApproved = False, jdReason = []\<rparr>"

definition zero_peer_kick :: peer_kick where
  "zero_peer_kick = \<lparr>pkClientID = [], pkReason = []\<rparr>"

section \<open>Payloads the server sends\<close>

record stored_update =
  suSeq :: int
  suUpdateBase64 :: string

record auth_ok =
  aoClientID :: string
  aoPeers :: "user list"
  aoCompactStateBase64 :: string
  aoUpdates :: "stored_update list"
  aoIsHost :: bool
  aoHostID :: string

datatype payload =
    Raw "json option"
  | PError string string \<comment> \<open>code, message\<close>
  | PAuthOK auth_ok
  | PJoinPending string \<comment> \<open>host id\<close>
  | PJoinRequest string user \<comment> \<open>request id, user\<close>
  | PJoinRejected string \<comment> \<open>reason\<close>
  | PPeerKicked string string \<comment> \<open>reason, by\<close>
  | PRoomClosed string string \<comment> \<open>reason, host id\<close>
  | PUser user
  | PClientID string \<comment> \<open>the map with the one member clientId\<close>
  | PRoomID string \<comment> \<open>the map with the one member roomId\<close>
  | PDocUpdateRejected string string \<comment> \<open>update id, reason\<close>
  | PCompactionRequest string int \<comment> \<open>room id, update count\<close>
  | PHostChanged string string \<comment> \<open>new host id, old host id\<close>
  | PPresence presence
  | PChat chat

definition enc_stored_update :: "stored_update \<Rightarrow> json" where
  "enc_stored_update u =
     JObj [(''seq'', JNum (JInt (suSeq u))), (''updateBase64'', enc_string (suUpdateBase64 u))]"

definition enc_auth_ok :: "auth_ok \<Rightarrow> json" where
  "enc_auth_ok p =
     JObj ([(''clientId'', enc_string (aoClientID p)), (''peers'', JArr (map enc_user (aoPeers p)))]
           @ omit_string ''compactStateBase64'' (aoCompactStateBase64 p)
           @ omit_list ''updates'' enc_stored_update (aoUpdates p)
           @ [(''isHost'', JBool (aoIsHost p))]
           @ omit_string ''hostId'' (aoHostID p))"

definition enc_presence :: "presence \<Rightarrow> json" where
  "enc_presence p = JObj ([(''user'', enc_user (prUser p))] @ omit_bool ''relay'' (prRelay p))"

definition enc_chat :: "chat \<Rightarrow> json" where
  "enc_chat p =
     JObj ([(''messageId'', enc_string (chMessageID p)), (''text'', enc_string (chText p)),
            (''user'', enc_user (chUser p))] @ omit_bool ''relay'' (chRelay p))"

fun marshal :: "payload \<Rightarrow> json option" where
  "marshal (Raw v) = v"
| "marshal (PError c m) = Some (JObj [(''code'', enc_string c), (''message'', enc_string m)])"
| "marshal (PAuthOK p) = Some (enc_auth_ok p)"
| "marshal (PJoinPending h) = Some (JObj (omit_string ''hostId'' h))"
| "marshal (PJoinRequest r u) = Some (JObj [(''requestId'', enc_string r), (''user'', enc_user u)])"
| "marshal (PJoinRejected r) = Some (JObj [(''reason'', enc_string r)])"
| "marshal (PPeerKicked r b) = Some (JObj (omit_string ''reason'' r @ omit_string ''by'' b))"
| "marshal (PRoomClosed r h) = Some (JObj ([(''reason'', enc_string r)] @ omit_string ''hostId'' h))"
| "marshal (PUser u) = Some (enc_user u)"
| "marshal (PClientID i) = Some (JObj [(''clientId'', enc_string i)])"
| "marshal (PRoomID i) = Some (JObj [(''roomId'', enc_string i)])"
| "marshal (PDocUpdateRejected i r) =
     Some (JObj [(''updateId'', enc_string i), (''reason'', enc_string r)])"
| "marshal (PCompactionRequest r n) =
     Some (JObj (omit_string ''roomId'' r @ [(''updateCount'', JNum (JInt n))]))"
| "marshal (PHostChanged n old) =
     Some (JObj ([(''newHostId'', enc_string n)] @ omit_string ''oldHostId'' old))"
| "marshal (PPresence p) = Some (enc_presence p)"
| "marshal (PChat p) = Some (enc_chat p)"

section \<open>Envelopes\<close>

record envelope =
  eVersion :: int
  eType :: string
  eID :: string
  eFrom :: string
  eTo :: string
  eSentAt :: string
  ePayload :: payload

text \<open>
  What \<open>NewEnvelope\<close> stamps a message with: the 16 random bytes of its ID and the formatted
  clock.
\<close>

type_synonym stamp = "bytes option \<times> string"

definition NewEnvelope :: "stamp \<Rightarrow> string \<Rightarrow> string \<Rightarrow> string \<Rightarrow> payload \<Rightarrow> envelope" where
  "NewEnvelope st messageType sender receiver p =
     \<lparr>eVersion = Version, eType = messageType, eID = NewID ''msg'' (fst st), eFrom = sender,
      eTo = receiver, eSentAt = snd st, ePayload = p\<rparr>"

lemma NewEnvelope_sel [simp]:
  "eType (NewEnvelope st t f r p) = t" "eFrom (NewEnvelope st t f r p) = f"
  "eTo (NewEnvelope st t f r p) = r" "ePayload (NewEnvelope st t f r p) = p"
  "eVersion (NewEnvelope st t f r p) = Version"
  by (simp_all add: NewEnvelope_def)

text \<open>The envelope \<open>ReadJSON\<close> unmarshals a frame into.\<close>

record raw_envelope =
  rvVersion :: int
  rvType :: string
  rvID :: string
  rvFrom :: string
  rvTo :: string
  rvSentAt :: string
  rvPayload :: "json option"

definition dec_envelope :: "raw_envelope dec" where
  "dec_envelope = dec_struct
     [(''v'', field rvVersion rvVersion_update dec_int64),
      (''type'', field rvType rvType_update dec_string),
      (''id'', field rvID rvID_update dec_string),
      (''from'', field rvFrom rvFrom_update dec_string),
      (''to'', field rvTo rvTo_update dec_string),
      (''sentAt'', field rvSentAt rvSentAt_update dec_string),
      (''payload'', field rvPayload rvPayload_update dec_raw)]"

definition zero_envelope :: raw_envelope where
  "zero_envelope = \<lparr>rvVersion = 0, rvType = [], rvID = [], rvFrom = [], rvTo = [], rvSentAt = [],
     rvPayload = None\<rparr>"

definition read_envelope :: "json \<Rightarrow> envelope option" where
  "read_envelope v =
     map_option (\<lambda>r. \<lparr>eVersion = rvVersion r, eType = rvType r, eID = rvID r, eFrom = rvFrom r,
         eTo = rvTo r, eSentAt = rvSentAt r, ePayload = Raw (rvPayload r)\<rparr>)
       (dec_envelope v zero_envelope)"

definition enc_envelope :: "envelope \<Rightarrow> json" where
  "enc_envelope e =
     JObj ([(''v'', JNum (JInt (eVersion e))), (''type'', enc_string (eType e))]
           @ omit_string ''id'' (eID e) @ omit_string ''from'' (eFrom e)
           @ omit_string ''to'' (eTo e) @ omit_string ''sentAt'' (eSentAt e)
           @ (case marshal (ePayload e) of None \<Rightarrow> [] | Some v \<Rightarrow> [(''payload'', v)]))"

end
