(* ===== verification/Client.thy ===== *)
theory Client
  imports Protocol
begin

text \<open>
  A connection of \<open>internal/server/hub.go\<close>: the \<open>Client\<close> struct and its send queue.  The Go
  channel \<open>send\<close> is the list of buffered envelopes with its capacity; what \<open>writeLoop\<close> has put
  on the socket is kept as well, so that the messages a client was ever given are the list
  \<open>stream\<close>.  Waiting is an argument: \<open>slot\<close> says whether the writer, as long as it runs, frees a
  place in a full queue before \<open>reliableQueueTimeout\<close> runs out.
\<close>

definition clientSendQueueSize :: nat where "clientSendQueueSize = 2048"

record client =
  cID :: string
  cRoomID :: string
  cUser :: user
  cSend :: "envelope list"
  cCap :: nat
  cClosed :: bool
  cViolations :: int
  cJoinedAt :: time
  cWritten :: "envelope list"
  cConnOpen :: bool

definition isTransientEnvelope :: "envelope \<Rightarrow> bool" where
  "isTransientEnvelope env \<longleftrightarrow> eType env = TypePresence"

text \<open>One turn of \<open>writeLoop\<close>: the first buffered envelope goes to the socket.\<close>

definition write_one :: "client \<Rightarrow> client" where
  "write_one c = c\<lparr>cSend := tl (cSend c), cWritten := cWritten c @ take 1 (cSend c)\<rparr>"

text \<open>
  \<open>writeLoop\<close> as a step: a successful write, a failed one (the loop ends and closes the
  connection), and the end of a drained, closed channel.
\<close>

definition writeLoop_step :: "bool \<Rightarrow> client \<Rightarrow> client" where
  "writeLoop_step ok c =
     (if \<not> cConnOpen c then c
      else if cSend c = [] then (if cClosed c then c\<lparr>cConnOpen := False\<rparr> else c)
      else if ok then write_one c
      else c\<lparr>cSend := tl (cSend c), cConnOpen := False\<rparr>)"

definition queue :: "bool \<Rightarrow> envelope \<Rightarrow> client \<Rightarrow> bool \<times> client" where
  "queue slot env c =
     (if cClosed c then (False, c)
      else if length (cSend c) < cCap c then (True, c\<lparr>cSend := cSend c @ [env]\<rparr>)
      else if isTransientEnvelope env then (False, c)
      else if slot \<and> cConnOpen c then (let c' = write_one c in (True, c'\<lparr>cSend := cSend c' @ [env]\<rparr>))
      else (False, c))"

definition shutdown :: "client \<Rightarrow> client" where
  "shutdown c = c\<lparr>cClosed := True\<rparr>"

definition setUser :: "user \<Rightarrow> client \<Rightarrow> client" where
  "setUser u c = c\<lparr>cUser := u\<rparr>"

definition getUser :: "client \<Rightarrow> user" where
  "getUser c = cUser c"

definition error_envelope :: "stamp \<Rightarrow> string \<Rightarrow> string \<Rightarrow> string \<Rightarrow> envelope" where
  "error_envelope st i code message = NewEnvelope st TypeError ''server'' i (PError code message)"

definition sendError :: "bool \<Rightarrow> stamp \<Rightarrow> string \<Rightarrow> string \<Rightarrow> client \<Rightarrow> client" where
  "sendError slot st code message c = snd (queue slot (error_envelope st (cID c) code message) c)"

section \<open>The queue's contract\<close>

text \<open>
  What a client of a message queue may rely on: a message is accepted at the end or not at
  all, a closed queue accepts nothing, and nothing that was accepted is lost, duplicated or
  reordered.
\<close>

locale message_queue =
  fixes offer :: "bool \<Rightarrow> 'e \<Rightarrow> 'q \<Rightarrow> bool \<times> 'q"
    and content :: "'q \<Rightarrow> 'e list"
    and closed :: "'q \<Rightarrow> bool"
    and full :: "'q \<Rightarrow> bool"
  assumes offer_accepted: "fst (offer b e q) \<Longrightarrow> content (snd (offer b e q)) = content q @ [e]"
    and offer_refused: "\<not> fst (offer b e q) \<Longrightarrow> snd (offer b e q) = q"
    and offer_closed: "closed q \<Longrightarrow> \<not> fst (offer b e q)"
    and offer_open: "\<not> closed q \<Longrightarrow> \<not> full q \<Longrightarrow> fst (offer b e q)"
    and closed_offer: "closed (snd (offer b e q)) = closed q"
begin

lemma content_offer: "content (snd (offer b e q)) = content q @ (if fst (offer b e q) then [e] else [])"
  by (cases "fst (offer b e q)") (simp_all add: offer_accepted offer_refused)

text \<open>Delivery of one message to each of a list of queues kept in a heap.\<close>

fun send_all :: "(nat \<Rightarrow> bool) \<Rightarrow> (nat \<Rightarrow> 'e) \<Rightarrow> nat list \<Rightarrow> (nat \<Rightarrow> 'q) \<Rightarrow> nat \<times> (nat \<Rightarrow> 'q)" where
  "send_all slot env [] h = (0, h)"
| "send_all slot env (c # cs) h =
     (let (ok, q) = offer (slot c) (env c) (h c); (n, h') = send_all slot env cs (h(c := q))
      in ((if ok then 1 else 0) + n, h'))"

lemma send_all_other: "c \<notin> set cs \<Longrightarrow> snd (send_all slot env cs h) c = h c"
  by (induction cs arbitrary: h) (auto simp: split_beta)

lemma send_all_at:
  "distinct cs \<Longrightarrow> c \<in> set cs \<Longrightarrow> snd (send_all slot env cs h) c = snd (offer (slot c) (env c) (h c))"
  by (induction cs arbitrary: h) (auto simp: split_beta send_all_other)

lemma send_all_cases:
  "distinct cs \<Longrightarrow>
   snd (send_all slot env cs h) c = (if c \<in> set cs then snd (offer (slot c) (env c) (h c)) else h c)"
  by (simp add: send_all_other send_all_at)

lemma send_all_count:
  "distinct cs \<Longrightarrow>
   fst (send_all slot env cs h) = length (filter (\<lambda>c. fst (offer (slot c) (env c) (h c))) cs)"
proof (induction cs arbitrary: h)
  case (Cons a cs)
  have "filter (\<lambda>c. fst (offer (slot c) (env c) ((h(a := q)) c))) cs
      = filter (\<lambda>c. fst (offer (slot c) (env c) (h c))) cs" for q
    using Cons.prems by (intro filter_cong) auto
  with Cons show ?case by (auto simp: split_beta)
qed simp

end

text \<open>All envelopes a client was given, in order: those on the socket and those in the queue.\<close>

definition stream :: "client \<Rightarrow> envelope list" where
  "stream c = cWritten c @ cSend c"

definition queue_full :: "client \<Rightarrow> bool" where
  "queue_full c \<longleftrightarrow> cCap c \<le> length (cSend c)"

lemma stream_write_one [simp]: "stream (write_one c) = stream c"
  by (cases "cSend c") (simp_all add: stream_def write_one_def)

interpretation send: message_queue queue stream cClosed queue_full
proof (unfold_locales, goal_cases)
  case (1 b e q)
  then show ?case
    using stream_write_one [of q]
    by (auto simp: queue_def stream_def Let_def split: if_splits)
qed (auto simp: queue_def queue_full_def write_one_def Let_def split: if_splits)

section \<open>What the queue's primitives leave alone\<close>

lemma queue_frame [hub_frame, simp]:
  "cID (snd (queue b e c)) = cID c" "cRoomID (snd (queue b e c)) = cRoomID c"
  "cUser (snd (queue b e c)) = cUser c" "cClosed (snd (queue b e c)) = cClosed c"
  "cJoinedAt (snd (queue b e c)) = cJoinedAt c" "cCap (snd (queue b e c)) = cCap c"
  "cViolations (snd (queue b e c)) = cViolations c"
  by (simp_all add: queue_def write_one_def Let_def)

lemma shutdown_frame [hub_frame, simp]:
  "cID (shutdown c) = cID c" "cRoomID (shutdown c) = cRoomID c" "cUser (shutdown c) = cUser c"
  "cClosed (shutdown c)" "cJoinedAt (shutdown c) = cJoinedAt c" "stream (shutdown c) = stream c"
  by (simp_all add: shutdown_def stream_def)

lemma setUser_frame [hub_frame, simp]:
  "cID (setUser u c) = cID c" "cRoomID (setUser u c) = cRoomID c" "cUser (setUser u c) = u"
  "cClosed (setUser u c) = cClosed c" "cJoinedAt (setUser u c) = cJoinedAt c"
  "stream (setUser u c) = stream c"
  by (simp_all add: setUser_def stream_def)

lemma sendError_frame [hub_frame, simp]:
  "cID (sendError b st i m c) = cID c" "cRoomID (sendError b st i m c) = cRoomID c"
  "cUser (sendError b st i m c) = cUser c" "cClosed (sendError b st i m c) = cClosed c"
  "cJoinedAt (sendError b st i m c) = cJoinedAt c"
  by (simp_all add: sendError_def)

lemma shutdown_idem [simp]: "shutdown (shutdown c) = shutdown c"
  by (simp add: shutdown_def)

lemma writeLoop_frame [hub_frame, simp]:
  "cID (writeLoop_step ok c) = cID c" "cRoomID (writeLoop_step ok c) = cRoomID c"
  "cUser (writeLoop_step ok c) = cUser c" "cClosed (writeLoop_step ok c) = cClosed c"
  "cJoinedAt (writeLoop_step ok c) = cJoinedAt c"
  by (simp_all add: writeLoop_step_def write_one_def)

text \<open>The queue never grows past its capacity.\<close>

lemma queue_bounded:
  "length (cSend c) \<le> cCap c \<Longrightarrow> 0 < cCap c \<Longrightarrow> length (cSend (snd (queue b e c))) \<le> cCap c"
  by (auto simp: queue_def write_one_def Let_def)

end
