(* ===== verification/Store.thy ===== *)
theory Store
  imports Prelude
begin

text \<open>
  \<open>internal/storage/storage.go\<close> and \<open>internal/storage/sqlite/sqlite.go\<close>: the persistence
  interface and its SQLite implementation.  The database is its two tables as lists of rows; a
  statement is a function on them.  Every call into the driver may fail: an operation takes a
  predicate that says which of its numbered driver calls do, and a failed call makes the Go
  function return, its deferred \<open>Rollback\<close> undoing what the transaction did (a failed
  \<open>Commit\<close> is taken to leave nothing behind either).  Clock readings are arguments, already
  formatted.  SQLite's 64-bit counters are unbounded integers here: they count updates and
  bytes that have been stored.
\<close>

section \<open>Tables\<close>

record room_row =
  rwID :: string
  rwKeyHash :: string
  rwCompact :: "bytes option"
  rwUpdateSeq :: int
  rwCreatedAt :: string
  rwUpdatedAt :: string
  rwClosedAt :: "string option"
  rwStorageBytes :: int
  rwUpdateCount :: int

record update_row =
  urRoomID :: string
  urSeq :: int
  urBlob :: bytes
  urCreatedAt :: string

record db =
  dbRooms :: "room_row list"
  dbUpdates :: "update_row list"

datatype store_error =
    ErrRoomKeyMismatch
  | ErrRoomClosed
  | ErrNoRows
  | ErrConstraint
  | ErrDriver

type_synonym fails = "nat \<Rightarrow> bool"

section \<open>Statements\<close>

definition select_room :: "db \<Rightarrow> string \<Rightarrow> room_row option" where
  "select_room db roomID = find (\<lambda>r. rwID r = roomID) (dbRooms db)"

definition room_updates :: "db \<Rightarrow> string \<Rightarrow> update_row list" where
  "room_updates db roomID = filter (\<lambda>u. urRoomID u = roomID) (dbUpdates db)"

definition update_rooms :: "(room_row \<Rightarrow> bool) \<Rightarrow> (room_row \<Rightarrow> room_row) \<Rightarrow> db \<Rightarrow> db" where
  "update_rooms p f db = db\<lparr>dbRooms := map (\<lambda>r. if p r then f r else r) (dbRooms db)\<rparr>"

definition delete_updates :: "(update_row \<Rightarrow> bool) \<Rightarrow> db \<Rightarrow> db" where
  "delete_updates p db = db\<lparr>dbUpdates := filter (\<lambda>u. \<not> p u) (dbUpdates db)\<rparr>"

text \<open>With foreign keys enforced, deleting a room deletes its updates (\<open>ON DELETE CASCADE\<close>).\<close>

definition delete_rooms :: "bool \<Rightarrow> (room_row \<Rightarrow> bool) \<Rightarrow> db \<Rightarrow> db" where
  "delete_rooms fk p db =
     (let db' = db\<lparr>dbRooms := filter (\<lambda>r. \<not> p r) (dbRooms db)\<rparr>
      in if fk then delete_updates (\<lambda>u. \<exists>r \<in> set (dbRooms db). p r \<and> rwID r = urRoomID u) db'
         else db')"

definition insert_room :: "room_row \<Rightarrow> db \<Rightarrow> db option" where
  "insert_room r db =
     (if select_room db (rwID r) \<noteq> None then None
      else Some (db\<lparr>dbRooms := dbRooms db @ [r]\<rparr>))"

definition insert_update :: "update_row \<Rightarrow> db \<Rightarrow> db option" where
  "insert_update u db =
     (if \<exists>v \<in> set (room_updates db (urRoomID u)). urSeq v = urSeq u then None
      else Some (db\<lparr>dbUpdates := dbUpdates db @ [u]\<rparr>))"

section \<open>Operations\<close>

definition is_closed :: "room_row \<Rightarrow> bool" where
  "is_closed r = (case rwClosedAt r of None \<Rightarrow> False | Some s \<Rightarrow> s \<noteq> [])"

definition new_room_row :: "string \<Rightarrow> string \<Rightarrow> string \<Rightarrow> room_row" where
  "new_room_row now roomID keyHash =
     \<lparr>rwID = roomID, rwKeyHash = keyHash, rwCompact = None, rwUpdateSeq = 0, rwCreatedAt = now,
      rwUpdatedAt = now, rwClosedAt = None, rwStorageBytes = 0, rwUpdateCount = 0\<rparr>"

definition EnsureRoom ::
  "fails \<Rightarrow> string \<Rightarrow> string \<Rightarrow> string \<Rightarrow> db \<Rightarrow> (store_error, unit) result \<times> db" where
  "EnsureRoom fail now roomID keyHash db =
     (if fail 0 \<or> fail 1 then (Inl ErrDriver, db)
      else case select_room db roomID of
        Some r \<Rightarrow>
          (if is_closed r then (Inl ErrRoomClosed, db)
           else if rwKeyHash r \<noteq> keyHash then (Inl ErrRoomKeyMismatch, db)
           else if fail 2 \<or> fail 3 then (Inl ErrDriver, db)
           else (Inr (), update_rooms (\<lambda>r. rwID r = roomID) (\<lambda>r. r\<lparr>rwUpdatedAt := now\<rparr>) db))
      | None \<Rightarrow>
          (if fail 2 then (Inl ErrDriver, db)
           else case insert_room (new_room_row now roomID keyHash) db of
               None \<Rightarrow> (Inl ErrConstraint, db)
             | Some db' \<Rightarrow> (if fail 3 then (Inl ErrDriver, db) else (Inr (), db'))))"

record room_state =
  CompactState :: "bytes option"
  Updates :: "(int \<times> bytes) list"

text \<open>
  \<open>LoadRoomState\<close> reads the two tables in two queries and no transaction, so it takes the
  database at the first query and at the second.
\<close>

definition LoadRoomState ::
  "fails \<Rightarrow> db \<Rightarrow> db \<Rightarrow> string \<Rightarrow> (store_error, room_state) result" where
  "LoadRoomState fail db1 db2 roomID =
     (if fail 0 \<or> fail 1 \<or> fail 2 then Inl ErrDriver
      else Inr \<lparr>CompactState = (case select_room db1 roomID of None \<Rightarrow> None | Some r \<Rightarrow> rwCompact r),
                Updates = map (\<lambda>u. (urSeq u, urBlob u)) (sort_key urSeq (room_updates db2 roomID))\<rparr>)"

definition AppendUpdate ::
  "fails \<Rightarrow> string \<Rightarrow> string \<Rightarrow> bytes \<Rightarrow> db \<Rightarrow> (store_error, int) result \<times> db" where
  "AppendUpdate fail now roomID update db =
     (if fail 0 \<or> fail 1 then (Inl ErrDriver, db)
      else case select_room db roomID of
        None \<Rightarrow> (Inl ErrNoRows, db)
      | Some r \<Rightarrow>
          (if is_closed r then (Inl ErrRoomClosed, db)
           else let seq = rwUpdateSeq r + 1 in
             if fail 2 then (Inl ErrDriver, db)
             else case insert_update \<lparr>urRoomID = roomID, urSeq = seq, urBlob = update, urCreatedAt = now\<rparr> db of
                 None \<Rightarrow> (Inl ErrConstraint, db)
               | Some db' \<Rightarrow>
                   (if fail 3 \<or> fail 4 then (Inl ErrDriver, db)
                    else (Inr seq,
                      update_rooms (\<lambda>r. rwID r = roomID)
                        (\<lambda>r. r\<lparr>rwUpdateSeq := seq,
                               rwStorageBytes := rwStorageBytes r + int (length update),
                               rwUpdateCount := rwUpdateCount r + 1, rwUpdatedAt := now\<rparr>) db'))))"

text \<open>
  \<open>SaveSnapshot\<close> binds a byte slice that may be nil.  How the driver binds it is a parameter:
  the SQL value, None for NULL.  \<open>LENGTH(NULL)\<close> is NULL, which the column
  \<open>storage_bytes NOT NULL\<close> refuses.
\<close>

definition SaveSnapshot ::
  "(bytes option \<Rightarrow> bytes option) \<Rightarrow> fails \<Rightarrow> string \<Rightarrow> string \<Rightarrow> bytes option \<Rightarrow> int \<Rightarrow> db
     \<Rightarrow> (store_error, unit) result \<times> db" where
  "SaveSnapshot bind fail now roomID state baseSeq db =
     (if fail 0 \<or> fail 1 then (Inl ErrDriver, db)
      else
        let target = (\<lambda>r. rwID r = roomID \<and> rwClosedAt r = None) in
        if \<not> (\<exists>r \<in> set (dbRooms db). target r) then (Inl ErrRoomClosed, db)
        else case bind state of
          None \<Rightarrow> (Inl ErrConstraint, db)
        | Some blob \<Rightarrow>
            (let db' = update_rooms target
                   (\<lambda>r. r\<lparr>rwCompact := Some blob, rwStorageBytes := int (length blob),
                          rwUpdateCount := 0, rwUpdatedAt := now\<rparr>) db;
                 db'' = (if baseSeq > 0
                         then delete_updates (\<lambda>u. urRoomID u = roomID \<and> urSeq u \<le> baseSeq) db'
                         else delete_updates (\<lambda>u. urRoomID u = roomID) db')
             in if fail 2 \<or> fail 3 then (Inl ErrDriver, db) else (Inr (), db'')))"

definition CloseRoom :: "fails \<Rightarrow> string \<Rightarrow> string \<Rightarrow> db \<Rightarrow> (store_error, unit) result \<times> db" where
  "CloseRoom fail now roomID db =
     (if fail 0 then (Inl ErrDriver, db)
      else (Inr (), update_rooms (\<lambda>r. rwID r = roomID \<and> rwClosedAt r = None)
                      (\<lambda>r. r\<lparr>rwClosedAt := Some now, rwUpdatedAt := now\<rparr>) db))"

definition UpdateCount :: "fails \<Rightarrow> string \<Rightarrow> db \<Rightarrow> (store_error, int) result" where
  "UpdateCount fail roomID db =
     (if fail 0 then Inl ErrDriver
      else Inr (case select_room db roomID of None \<Rightarrow> 0 | Some r \<Rightarrow> rwUpdateCount r))"

definition RoomStorageBytes :: "fails \<Rightarrow> string \<Rightarrow> db \<Rightarrow> (store_error, int) result" where
  "RoomStorageBytes fail roomID db =
     (if fail 0 then Inl ErrDriver
      else Inr (case select_room db roomID of None \<Rightarrow> 0 | Some r \<Rightarrow> rwStorageBytes r))"

text \<open>SQLite compares TEXT byte by byte.\<close>

fun text_less :: "string \<Rightarrow> string \<Rightarrow> bool" where
  "text_less _ [] = False"
| "text_less [] (_ # _) = True"
| "text_less (a # s) (b # t) =
     ((of_char a :: nat) < of_char b \<or> a = b \<and> text_less s t)"

definition DeleteInactiveRooms ::
  "bool \<Rightarrow> fails \<Rightarrow> string \<Rightarrow> db \<Rightarrow> (store_error, nat) result \<times> db" where
  "DeleteInactiveRooms fk fail cutoff db =
     (if fail 0 \<or> fail 1 then (Inl ErrDriver, db)
      else
        let old = (\<lambda>r. text_less (rwUpdatedAt r) cutoff);
            db' = delete_updates (\<lambda>u. \<exists>r \<in> set (dbRooms db). old r \<and> rwID r = urRoomID u) db;
            db'' = delete_rooms fk old db'
        in if fail 2 \<or> fail 3 then (Inl ErrDriver, db)
           else (Inr (length (filter old (dbRooms db'))), db''))"

definition empty_db :: db where
  "empty_db = \<lparr>dbRooms = [], dbUpdates = []\<rparr>"

definition no_fails :: fails where
  "no_fails n = False"

end
