(* ===== verification/Texts.thy ===== *)
theory Texts
  imports GoText
begin

text \<open>
  The user-visible texts of \<open>internal/server/hub.go\<close>, as the UTF-8 bytes of the Go string
  literals.  A text that ends in \<open>_prefix\<close> is the part of a \<open>fmt.Sprintf\<close> format before \<open>%d\<close>.
\<close>

definition utf8 :: "nat list \<Rightarrow> string" where
  "utf8 ns = map char_of ns"

definition txt_rate_limited :: string where
  "txt_rate_limited =
     utf8 [0xE5, 0x88, 0x9B, 0xE5, 0xBB, 0xBA, 0xE6, 0x88, 0xBF, 0xE9, 0x97, 0xB4, 0xE8, 0xBF,
      0x87, 0xE4, 0xBA, 0x8E, 0xE9, 0xA2, 0x91, 0xE7, 0xB9, 0x81, 0xEF, 0xBC, 0x8C, 0xE8,
      0xAF, 0xB7, 0xE7, 0xA8, 0x8D, 0xE5, 0x90, 0x8E, 0xE5, 0x86, 0x8D, 0xE8, 0xAF, 0x95]"

definition txt_bad_request :: string where
  "txt_bad_request =
     utf8 [0xE5, 0x88, 0x9B, 0xE5, 0xBB, 0xBA, 0xE6, 0x88, 0xBF, 0xE9, 0x97, 0xB4, 0xE8, 0xAF,
      0xB7, 0xE6, 0xB1, 0x82, 0xE6, 0xA0, 0xBC, 0xE5, 0xBC, 0x8F, 0xE6, 0x97, 0xA0, 0xE6,
      0x95, 0x88]"

definition txt_bad_server_url :: string where
  "txt_bad_server_url =
     utf8 [0xE6, 0x9C, 0x8D, 0xE5, 0x8A, 0xA1, 0xE5, 0x99, 0xA8, 0xE5, 0x9C, 0xB0, 0xE5, 0x9D,
      0x80, 0xE6, 0xA0, 0xBC, 0xE5, 0xBC, 0x8F, 0xE6, 0x97, 0xA0, 0xE6, 0x95, 0x88]"

definition txt_bad_server_scheme :: string where
  "txt_bad_server_scheme =
     utf8 [0xE6, 0x9C, 0x8D, 0xE5, 0x8A, 0xA1, 0xE5, 0x99, 0xA8, 0xE5, 0x9C, 0xB0, 0xE5, 0x9D, 0x80]
      @ '' scheme ''
      @ utf8 [0xE5, 0xBF, 0x85, 0xE9, 0xA1, 0xBB, 0xE6, 0x98, 0xAF]
      @ '' http ''
      @ utf8 [0xE6, 0x88, 0x96]
      @ '' https''"

definition txt_host_not_allowed :: string where
  "txt_host_not_allowed =
     utf8 [0xE6, 0x9C, 0x8D, 0xE5, 0x8A, 0xA1, 0xE5, 0x99, 0xA8, 0xE5, 0x9C, 0xB0, 0xE5, 0x9D,
      0x80, 0xE4, 0xB8, 0x8D, 0xE5, 0x9C, 0xA8, 0xE7, 0x99, 0xBD, 0xE5, 0x90, 0x8D, 0xE5,
      0x8D, 0x95, 0xE4, 0xB8, 0xAD]"

definition txt_bad_app_url :: string where
  "txt_bad_app_url =
     utf8 [0xE5, 0xBA, 0x94, 0xE7, 0x94, 0xA8, 0xE5, 0x9C, 0xB0, 0xE5, 0x9D, 0x80, 0xE6, 0xA0,
      0xBC, 0xE5, 0xBC, 0x8F, 0xE6, 0x97, 0xA0, 0xE6, 0x95, 0x88]"

definition txt_bad_app_scheme :: string where
  "txt_bad_app_scheme =
     utf8 [0xE5, 0xBA, 0x94, 0xE7, 0x94, 0xA8, 0xE5, 0x9C, 0xB0, 0xE5, 0x9D, 0x80]
      @ '' scheme ''
      @ utf8 [0xE4, 0xB8, 0x8D, 0xE5, 0x8F, 0x97, 0xE6, 0x94, 0xAF, 0xE6, 0x8C, 0x81]"

definition txt_create_room_failed :: string where
  "txt_create_room_failed =
     utf8 [0xE5, 0x88, 0x9B, 0xE5, 0xBB, 0xBA, 0xE5, 0x8D, 0x8F, 0xE4, 0xBD, 0x9C, 0xE6, 0x88,
      0xBF, 0xE9, 0x97, 0xB4, 0xE5, 0xA4, 0xB1, 0xE8, 0xB4, 0xA5]"

definition txt_auth_required :: string where
  "txt_auth_required =
     utf8 [0xE9, 0xA6, 0x96, 0xE6, 0x9D, 0xA1, 0xE6, 0xB6, 0x88, 0xE6, 0x81, 0xAF, 0xE5, 0xBF,
      0x85, 0xE9, 0xA1, 0xBB, 0xE6, 0x98, 0xAF]
      @ '' auth''"

definition txt_bad_auth :: string where
  "txt_bad_auth =
     utf8 [0xE8, 0xAE, 0xA4, 0xE8, 0xAF, 0x81, 0xE5, 0x8F, 0x82, 0xE6, 0x95, 0xB0, 0xE6, 0x97,
      0xA0, 0xE6, 0x95, 0x88]"

definition txt_empty_auth :: string where
  "txt_empty_auth =
     utf8 [0xE6, 0x88, 0xBF, 0xE9, 0x97, 0xB4]
      @ '' ID ''
      @ utf8 [0xE5, 0x92, 0x8C, 0xE5, 0xAF, 0x86, 0xE9, 0x92, 0xA5, 0xE4, 0xB8, 0x8D, 0xE8,
      0x83, 0xBD, 0xE4, 0xB8, 0xBA, 0xE7, 0xA9, 0xBA]"

definition txt_anonymous :: string where
  "txt_anonymous =
     utf8 [0xE5, 0x8C, 0xBF, 0xE5, 0x90, 0x8D]"

definition txt_room_unavailable :: string where
  "txt_room_unavailable =
     utf8 [0xE6, 0x88, 0xBF, 0xE9, 0x97, 0xB4, 0xE4, 0xB8, 0x8D, 0xE5, 0x8F, 0xAF, 0xE7, 0x94,
      0xA8]"

definition txt_load_failed :: string where
  "txt_load_failed =
     utf8 [0xE5, 0x8A, 0xA0, 0xE8, 0xBD, 0xBD, 0xE6, 0x88, 0xBF, 0xE9, 0x97, 0xB4, 0xE7, 0x8A,
      0xB6, 0xE6, 0x80, 0x81, 0xE5, 0xA4, 0xB1, 0xE8, 0xB4, 0xA5]"

definition txt_server_full :: string where
  "txt_server_full =
     utf8 [0xE6, 0x9C, 0x8D, 0xE5, 0x8A, 0xA1, 0xE7, 0xAB, 0xAF, 0xE6, 0x88, 0xBF, 0xE9, 0x97,
      0xB4, 0xE6, 0x95, 0xB0, 0xE5, 0xB7, 0xB2, 0xE8, 0xBE, 0xBE, 0xE4, 0xB8, 0x8A, 0xE9,
      0x99, 0x90, 0xEF, 0xBC, 0x8C, 0xE8, 0xAF, 0xB7, 0xE7, 0xA8, 0x8D, 0xE5, 0x90, 0x8E,
      0xE9, 0x87, 0x8D, 0xE8, 0xAF, 0x95]"

definition txt_room_closed :: string where
  "txt_room_closed =
     utf8 [0xE6, 0x88, 0xBF, 0xE9, 0x97, 0xB4, 0xE5, 0xB7, 0xB2, 0xE5, 0x85, 0xB3, 0xE9, 0x97,
      0xAD, 0xE6, 0x88, 0x96, 0xE6, 0x88, 0xBF, 0xE4, 0xB8, 0xBB, 0xE5, 0xB7, 0xB2, 0xE7,
      0xA6, 0xBB, 0xE7, 0xBA, 0xBF]"

definition txt_room_full_prefix :: string where
  "txt_room_full_prefix =
     utf8 [0xE6, 0x88, 0xBF, 0xE9, 0x97, 0xB4, 0xE6, 0x88, 0x90, 0xE5, 0x91, 0x98, 0xE6, 0x95,
      0xB0, 0xE5, 0xB7, 0xB2, 0xE8, 0xBE, 0xBE, 0xE4, 0xB8, 0x8A, 0xE9, 0x99, 0x90]
      @ '' (''"

definition txt_approval_timeout :: string where
  "txt_approval_timeout =
     utf8 [0xE5, 0xAE, 0xA1, 0xE6, 0x89, 0xB9, 0xE8, 0xB6, 0x85, 0xE6, 0x97, 0xB6]"

definition txt_host_left :: string where
  "txt_host_left =
     utf8 [0xE6, 0x88, 0xBF, 0xE4, 0xB8, 0xBB, 0xE5, 0xB7, 0xB2, 0xE9, 0x80, 0x80, 0xE5, 0x87,
      0xBA, 0xE5, 0x8D, 0x8F, 0xE4, 0xBD, 0x9C, 0xEF, 0xBC, 0x8C, 0xE6, 0x88, 0xBF, 0xE9,
      0x97, 0xB4, 0xE5, 0xB7, 0xB2, 0xE5, 0x85, 0xB3, 0xE9, 0x97, 0xAD]"

definition txt_bad_doc_update :: string where
  "txt_bad_doc_update =
     utf8 [0xE6, 0x96, 0x87, 0xE6, 0xA1, 0xA3, 0xE6, 0x9B, 0xB4, 0xE6, 0x96, 0xB0, 0xE6, 0xA0,
      0xBC, 0xE5, 0xBC, 0x8F, 0xE6, 0x97, 0xA0, 0xE6, 0x95, 0x88]"

definition txt_doc_update_base64 :: string where
  "txt_doc_update_base64 =
     utf8 [0xE6, 0x96, 0x87, 0xE6, 0xA1, 0xA3, 0xE6, 0x9B, 0xB4, 0xE6, 0x96, 0xB0, 0xE4, 0xB8,
      0x8D, 0xE6, 0x98, 0xAF, 0xE6, 0x9C, 0x89, 0xE6, 0x95, 0x88]
      @ '' base64''"

definition txt_update_too_large_prefix :: string where
  "txt_update_too_large_prefix =
     utf8 [0xE6, 0x96, 0x87, 0xE6, 0xA1, 0xA3, 0xE6, 0x9B, 0xB4, 0xE6, 0x96, 0xB0, 0xE8, 0xB6,
      0x85, 0xE5, 0x87, 0xBA, 0xE5, 0xA4, 0xA7, 0xE5, 0xB0, 0x8F, 0xE9, 0x99, 0x90, 0xE5,
      0x88, 0xB6]
      @ '' (''"

definition txt_busy_retry :: string where
  "txt_busy_retry =
     utf8 [0xE6, 0x9C, 0x8D, 0xE5, 0x8A, 0xA1, 0xE7, 0xAB, 0xAF, 0xE7, 0xB9, 0x81, 0xE5, 0xBF,
      0x99, 0xEF, 0xBC, 0x8C, 0xE8, 0xAF, 0xB7, 0xE7, 0xA8, 0x8D, 0xE5, 0x90, 0x8E, 0xE9,
      0x87, 0x8D, 0xE8, 0xAF, 0x95]"

definition txt_storage_full :: string where
  "txt_storage_full =
     utf8 [0xE6, 0x88, 0xBF, 0xE9, 0x97, 0xB4, 0xE5, 0xAD, 0x98, 0xE5, 0x82, 0xA8, 0xE7, 0xA9,
      0xBA, 0xE9, 0x97, 0xB4, 0xE5, 0xB7, 0xB2, 0xE6, 0xBB, 0xA1]"

definition txt_persist_failed :: string where
  "txt_persist_failed =
     utf8 [0xE6, 0x9C, 0x8D, 0xE5, 0x8A, 0xA1, 0xE7, 0xAB, 0xAF, 0xE6, 0x8C, 0x81, 0xE4, 0xB9,
      0x85, 0xE5, 0x8C, 0x96, 0xE5, 0xA4, 0xB1, 0xE8, 0xB4, 0xA5]"

definition txt_bad_doc_snapshot :: string where
  "txt_bad_doc_snapshot =
     utf8 [0xE6, 0x96, 0x87, 0xE6, 0xA1, 0xA3, 0xE5, 0xBF, 0xAB, 0xE7, 0x85, 0xA7, 0xE6, 0xA0,
      0xBC, 0xE5, 0xBC, 0x8F, 0xE6, 0x97, 0xA0, 0xE6, 0x95, 0x88]"

definition txt_doc_snapshot_base64 :: string where
  "txt_doc_snapshot_base64 =
     utf8 [0xE6, 0x96, 0x87, 0xE6, 0xA1, 0xA3, 0xE5, 0xBF, 0xAB, 0xE7, 0x85, 0xA7, 0xE4, 0xB8,
      0x8D, 0xE6, 0x98, 0xAF, 0xE6, 0x9C, 0x89, 0xE6, 0x95, 0x88]
      @ '' base64''"

definition txt_snapshot_too_large_prefix :: string where
  "txt_snapshot_too_large_prefix =
     utf8 [0xE6, 0x96, 0x87, 0xE6, 0xA1, 0xA3, 0xE5, 0xBF, 0xAB, 0xE7, 0x85, 0xA7, 0xE8, 0xB6,
      0x85, 0xE5, 0x87, 0xBA, 0xE5, 0xA4, 0xA7, 0xE5, 0xB0, 0x8F, 0xE9, 0x99, 0x90, 0xE5,
      0x88, 0xB6]
      @ '' (''"

definition txt_snapshot_skipped :: string where
  "txt_snapshot_skipped =
     utf8 [0xE6, 0x9C, 0x8D, 0xE5, 0x8A, 0xA1, 0xE7, 0xAB, 0xAF, 0xE7, 0xB9, 0x81, 0xE5, 0xBF,
      0x99, 0xEF, 0xBC, 0x8C, 0xE5, 0xBF, 0xAB, 0xE7, 0x85, 0xA7, 0xE4, 0xBF, 0x9D, 0xE5,
      0xAD, 0x98, 0xE8, 0xA2, 0xAB, 0xE8, 0xB7, 0xB3, 0xE8, 0xBF, 0x87]"

definition txt_snapshot_rejected :: string where
  "txt_snapshot_rejected =
     utf8 [0xE6, 0x88, 0xBF, 0xE9, 0x97, 0xB4, 0xE5, 0xAD, 0x98, 0xE5, 0x82, 0xA8, 0xE7, 0xA9,
      0xBA, 0xE9, 0x97, 0xB4, 0xE5, 0xB7, 0xB2, 0xE6, 0xBB, 0xA1, 0xEF, 0xBC, 0x8C, 0xE5,
      0xBF, 0xAB, 0xE7, 0x85, 0xA7, 0xE4, 0xBF, 0x9D, 0xE5, 0xAD, 0x98, 0xE8, 0xA2, 0xAB,
      0xE6, 0x8B, 0x92, 0xE7, 0xBB, 0x9D]"

definition txt_bad_presence :: string where
  "txt_bad_presence =
     utf8 [0xE5, 0x9C, 0xA8, 0xE7, 0xBA, 0xBF, 0xE7, 0x8A, 0xB6, 0xE6, 0x80, 0x81, 0xE6, 0xA0,
      0xBC, 0xE5, 0xBC, 0x8F, 0xE6, 0x97, 0xA0, 0xE6, 0x95, 0x88]"

definition txt_bad_chat :: string where
  "txt_bad_chat =
     utf8 [0xE8, 0x81, 0x8A, 0xE5, 0xA4, 0xA9, 0xE6, 0xB6, 0x88, 0xE6, 0x81, 0xAF, 0xE6, 0xA0,
      0xBC, 0xE5, 0xBC, 0x8F, 0xE6, 0x97, 0xA0, 0xE6, 0x95, 0x88]"

definition txt_bad_signal :: string where
  "txt_bad_signal =
     utf8 [0xE4, 0xBF, 0xA1, 0xE4, 0xBB, 0xA4, 0xE6, 0xA0, 0xBC, 0xE5, 0xBC, 0x8F, 0xE6, 0x97,
      0xA0, 0xE6, 0x95, 0x88]"

definition txt_bad_relay :: string where
  "txt_bad_relay =
     utf8 [0xE4, 0xB8, 0xAD, 0xE8, 0xBD, 0xAC, 0xE6, 0xB6, 0x88, 0xE6, 0x81, 0xAF, 0xE6, 0xA0,
      0xBC, 0xE5, 0xBC, 0x8F, 0xE6, 0x97, 0xA0, 0xE6, 0x95, 0x88]"

definition txt_unknown_relay :: string where
  "txt_unknown_relay =
     utf8 [0xE4, 0xB8, 0x8D, 0xE6, 0x94, 0xAF, 0xE6, 0x8C, 0x81, 0xE7, 0x9A, 0x84, 0xE4, 0xB8,
      0xAD, 0xE8, 0xBD, 0xAC, 0xE5, 0xAD, 0x90, 0xE7, 0xB1, 0xBB, 0xE5, 0x9E, 0x8B]"

definition txt_not_host_join :: string where
  "txt_not_host_join =
     utf8 [0xE4, 0xBB, 0x85, 0xE6, 0x88, 0xBF, 0xE4, 0xB8, 0xBB, 0xE5, 0x8F, 0xAF, 0xE4, 0xBB,
      0xA5, 0xE5, 0xAE, 0xA1, 0xE6, 0x89, 0xB9, 0xE5, 0x8A, 0xA0, 0xE5, 0x85, 0xA5, 0xE8,
      0xAF, 0xB7, 0xE6, 0xB1, 0x82]"

definition txt_not_host_kick :: string where
  "txt_not_host_kick =
     utf8 [0xE4, 0xBB, 0x85, 0xE6, 0x88, 0xBF, 0xE4, 0xB8, 0xBB, 0xE5, 0x8F, 0xAF, 0xE4, 0xBB,
      0xA5, 0xE8, 0xB8, 0xA2, 0xE5, 0x87, 0xBA, 0xE6, 0x88, 0x90, 0xE5, 0x91, 0x98]"

definition txt_unknown_type :: string where
  "txt_unknown_type =
     utf8 [0xE6, 0x9C, 0xAA, 0xE7, 0x9F, 0xA5, 0xE6, 0xB6, 0x88, 0xE6, 0x81, 0xAF, 0xE7, 0xB1,
      0xBB, 0xE5, 0x9E, 0x8B]"

end
