(* ===== verification/HubState.thy ===== *)
theory HubState
  imports Client Store Texts
begin

text \<open>
  The state of \<open>internal/server/hub.go\<close>: the \<open>Hub\<close> with its limits, the rooms, the pending joins
  and the connections, and the database behind them.  Go pointers to rooms, pending joins and
  clients are addresses (natural numbers) into heaps; the maps \<open>h.rooms\<close>, \<open>room.clients\<close> and
  \<open>room.pending\<close> are association lists from strings to addresses, whose order is the iteration
  order of the moment.
\<close>

section \<open>Options and limits\<close>

definition second :: int where "second = 1000000000"
definition minute :: int where "minute = 60 * second"
definition hour :: int where "hour = 60 * minute"

definition defaultMaxMessageBytes :: int where "defaultMaxMessageBytes = 128 * 1024 * 1024"
definition joinApprovalTimeout :: int where "joinApprovalTimeout = 60 * second"
definition reliableQueueTimeout :: int where "reliableQueueTimeout = 5 * second"
definition defaultReadDeadlineInterval :: int where "defaultReadDeadlineInterval = 30 * second"
definition defaultAuthTimeout :: int where "defaultAuthTimeout = 15 * second"
definition maxMessagesPerSecond :: int where "maxMessagesPerSecond = 200"
definition rateBurst :: int where "rateBurst = 50"
definition rateLimitMaxConsecutiveViolations :: int where "rateLimitMaxConsecutiveViolations = 3"
definition autoCompactUpdateThreshold :: int where "autoCompactUpdateThreshold = 200"
definition defaultMaxUpdateBytes :: int where "defaultMaxUpdateBytes = 8 * 1024 * 1024"
definition defaultMaxSnapshotBytes :: int where "defaultMaxSnapshotBytes = 64 * 1024 * 1024"
definition defaultRoomMaxStorageBytes :: int where "defaultRoomMaxStorageBytes = 512 * 1024 * 1024"
definition devDefaultSecret :: string where "devDefaultSecret = ''timenotes-dev-secret''"

lemmas limit_defs =
  second_def minute_def hour_def defaultMaxMessageBytes_def joinApprovalTimeout_def
  reliableQueueTimeout_def defaultReadDeadlineInterval_def defaultAuthTimeout_def
  maxMessagesPerSecond_def rateBurst_def rateLimitMaxConsecutiveViolations_def
  autoCompactUpdateThreshold_def defaultMaxUpdateBytes_def defaultMaxSnapshotBytes_def
  defaultRoomMaxStorageBytes_def

record hub_options =
  hoMaxMessageBytes :: int
  hoMaxUpdateBytes :: int
  hoMaxSnapshotBytes :: int
  hoRoomMaxStorageBytes :: int
  hoAuthTimeout :: int
  hoReadDeadline :: int
  hoRoomTTLDays :: int
  hoCleanupInterval :: int
  hoMaxRoomsPerIPPerMinute :: int
  hoMaxWSConnPerIPPerMinute :: int
  hoAllowedServerHosts :: "string list"
  hoTrustedProxies :: "string list"
  hoMaxClientsPerRoom :: int
  hoMaxGlobalRooms :: int

record hub_cfg =
  hcSecret :: string
  hcMaxMessageBytes :: int
  hcMaxUpdateBytes :: int
  hcMaxSnapshotBytes :: int
  hcRoomMaxStorageBytes :: int
  hcAuthTimeout :: int
  hcReadDeadline :: int
  hcRoomTTLDays :: int
  hcCleanupInterval :: int
  hcMaxRoomsPerIPPerMinute :: int
  hcMaxWSConnPerIPPerMinute :: int
  hcAllowedServerHosts :: "string list"
  hcTrustedProxies :: "string list"
  hcMaxClientsPerRoom :: int
  hcMaxGlobalRooms :: int

definition default_cfg :: "string \<Rightarrow> hub_cfg" where
  "default_cfg secret =
     \<lparr>hcSecret = secret, hcMaxMessageBytes = defaultMaxMessageBytes,
      hcMaxUpdateBytes = defaultMaxUpdateBytes, hcMaxSnapshotBytes = defaultMaxSnapshotBytes,
      hcRoomMaxStorageBytes = defaultRoomMaxStorageBytes, hcAuthTimeout = defaultAuthTimeout,
      hcReadDeadline = defaultReadDeadlineInterval, hcRoomTTLDays = 30, hcCleanupInterval = hour,
      hcMaxRoomsPerIPPerMinute = 10, hcMaxWSConnPerIPPerMinute = 30, hcAllowedServerHosts = [],
      hcTrustedProxies = [], hcMaxClientsPerRoom = 20, hcMaxGlobalRooms = 0\<rparr>"

definition positive_or :: "int \<Rightarrow> int \<Rightarrow> int" where
  "positive_or v d = (if v > 0 then v else d)"

text \<open>\<open>NewHub\<close>: an option of zero or less keeps the default.\<close>

definition NewHub :: "string \<Rightarrow> hub_options option \<Rightarrow> hub_cfg" where
  "NewHub secret options =
     (let d = default_cfg (if trim_space secret = [] then devDefaultSecret else secret)
      in case options of
        None \<Rightarrow> d
      | Some opt \<Rightarrow> d\<lparr>
          hcMaxMessageBytes := positive_or (hoMaxMessageBytes opt) (hcMaxMessageBytes d),
          hcMaxUpdateBytes := positive_or (hoMaxUpdateBytes opt) (hcMaxUpdateBytes d),
          hcMaxSnapshotBytes := positive_or (hoMaxSnapshotBytes opt) (hcMaxSnapshotBytes d),
          hcRoomMaxStorageBytes := positive_or (hoRoomMaxStorageBytes opt) (hcRoomMaxStorageBytes d),
          hcAuthTimeout := positive_or (hoAuthTimeout opt) (hcAuthTimeout d),
          hcReadDeadline := positive_or (hoReadDeadline opt) (hcReadDeadline d),
          hcRoomTTLDays := positive_or (hoRoomTTLDays opt) (hcRoomTTLDays d),
          hcCleanupInterval := positive_or (hoCleanupInterval opt) (hcCleanupInterval d),
          hcMaxRoomsPerIPPerMinute := positive_or (hoMaxRoomsPerIPPerMinute opt) (hcMaxRoomsPerIPPerMinute d),
          hcMaxWSConnPerIPPerMinute := positive_or (hoMaxWSConnPerIPPerMinute opt) (hcMaxWSConnPerIPPerMinute d),
          hcMaxClientsPerRoom := positive_or (hoMaxClientsPerRoom opt) (hcMaxClientsPerRoom d),
          hcMaxGlobalRooms := positive_or (hoMaxGlobalRooms opt) (hcMaxGlobalRooms d),
          hcAllowedServerHosts := hoAllowedServerHosts opt,
          hcTrustedProxies := hoTrustedProxies opt\<rparr>)"

section \<open>Rooms, pending joins, the world\<close>

record room =
  rID :: string
  rHostID :: string
  rClosed :: bool
  rClients :: "(string \<times> nat) list"
  rPending :: "(string \<times> nat) list"

record join_decision =
  approved :: bool
  reason :: string

record pending_join =
  pjRequestID :: string
  pjClient :: nat
  pjState :: room_state
  pjCreatedAt :: time
  pjResult :: "join_decision option" \<comment> \<open>the channel of capacity one\<close>

text \<open>\<open>decide\<close> puts a decision into the channel unless one is there.\<close>

definition decide :: "join_decision \<Rightarrow> pending_join \<Rightarrow> bool \<times> pending_join" where
  "decide d p = (case pjResult p of None \<Rightarrow> (True, p\<lparr>pjResult := Some d\<rparr>) | Some _ \<Rightarrow> (False, p))"

text \<open>
  Where the goroutine of a connection is: authenticated and about to join (before and after
  \<open>h.room\<close>), blocked for the
  host's decision, holding the decision, in its read loop, in the second half of
  \<open>leaveRoom\<close> (with the values that half uses), or done.
\<close>

record leave_info =
  liExisted :: bool
  liHostLeft :: bool
  liRoomClosed :: bool
  liEmpty :: bool
  liTargets :: "nat list"

datatype phase =
    Authed room_state
  | Entering nat room_state \<comment> \<open>the room is looked up, its lock not yet taken\<close>
  | Waiting nat nat \<comment> \<open>room, pending join\<close>
  | Decided nat nat join_decision
  | Reading nat
  | Leaving nat leave_info
  | Gone

text \<open>Goroutines that \<open>handleEnvelope\<close> starts: the connection, the room, what to persist.\<close>

datatype job =
    JobUpdate nat nat string bytes
  | JobSnapshot nat nat "bytes option" int
  | JobCompact nat

record world =
  wRooms :: "(string \<times> nat) list"
  wRoom :: "nat \<Rightarrow> room"
  wNextRoom :: nat
  wPending :: "nat \<Rightarrow> pending_join"
  wNextPending :: nat
  wClient :: "nat \<Rightarrow> client"
  wPhase :: "nat \<Rightarrow> phase"
  wNextClient :: nat
  wJobs :: "job list"
  wDB :: db

definition empty_room :: "string \<Rightarrow> room" where
  "empty_room i = \<lparr>rID = i, rHostID = [], rClosed = False, rClients = [], rPending = []\<rparr>"

definition set_client :: "nat \<Rightarrow> client \<Rightarrow> world \<Rightarrow> world" where
  "set_client c x w = w\<lparr>wClient := (wClient w)(c := x)\<rparr>"

definition set_room :: "nat \<Rightarrow> room \<Rightarrow> world \<Rightarrow> world" where
  "set_room r x w = w\<lparr>wRoom := (wRoom w)(r := x)\<rparr>"

definition set_phase :: "nat \<Rightarrow> phase \<Rightarrow> world \<Rightarrow> world" where
  "set_phase c p w = w\<lparr>wPhase := (wPhase w)(c := p)\<rparr>"

text \<open>\<open>h.room\<close>: the room of an id, made when there is none; nil at the global limit.\<close>

definition hub_room :: "hub_cfg \<Rightarrow> string \<Rightarrow> world \<Rightarrow> nat option \<times> world" where
  "hub_room cfg roomID w =
     (case map_of (wRooms w) roomID of
        Some r \<Rightarrow> (Some r, w)
      | None \<Rightarrow>
          (if hcMaxGlobalRooms cfg > 0 \<and> int (length (wRooms w)) \<ge> hcMaxGlobalRooms cfg then (None, w)
           else let r = wNextRoom w in
             (Some r, (set_room r (empty_room roomID) w)
                \<lparr>wRooms := AList.update roomID r (wRooms w), wNextRoom := Suc r\<rparr>)))"

section \<open>Sending\<close>

text \<open>Which waits end in time, and the stamps of the messages an operation makes.\<close>

type_synonym slots = "nat \<Rightarrow> bool"
type_synonym stamps = "nat \<Rightarrow> stamp"

fun deliver :: "slots \<Rightarrow> (nat \<Rightarrow> envelope) \<Rightarrow> nat list \<Rightarrow> (nat \<Rightarrow> client) \<Rightarrow> nat \<times> (nat \<Rightarrow> client)" where
  "deliver slot env [] h = (0, h)"
| "deliver slot env (c # cs) h =
     (let (ok, q) = queue (slot c) (env c) (h c); (n, h') = deliver slot env cs (h(c := q))
      in ((if ok then 1 else 0) + n, h'))"

lemma deliver_send_all: "deliver slot env cs h = send.send_all slot env cs h"
  by (induction cs arbitrary: h) simp_all

definition queue_to :: "slots \<Rightarrow> envelope \<Rightarrow> nat \<Rightarrow> world \<Rightarrow> world" where
  "queue_to slot env c w = set_client c (snd (queue (slot c) env (wClient w c))) w"

definition shutdown_client :: "nat \<Rightarrow> world \<Rightarrow> world" where
  "shutdown_client c w = set_client c (shutdown (wClient w c)) w"

definition targets :: "room \<Rightarrow> string \<Rightarrow> nat list" where
  "targets room excludeID = map snd (filter (\<lambda>(i, _). i \<noteq> excludeID) (rClients room))"

definition broadcast :: "slots \<Rightarrow> envelope \<Rightarrow> nat \<Rightarrow> string \<Rightarrow> world \<Rightarrow> world" where
  "broadcast slot env r excludeID w =
     w\<lparr>wClient := snd (deliver slot (\<lambda>_. env) (targets (wRoom w r) excludeID) (wClient w))\<rparr>"

definition sendTo :: "slots \<Rightarrow> string \<Rightarrow> envelope \<Rightarrow> nat \<Rightarrow> world \<Rightarrow> world" where
  "sendTo slot clientID env r w =
     (case map_of (rClients (wRoom w r)) clientID of
        None \<Rightarrow> w
      | Some c \<Rightarrow> queue_to slot env c w)"

definition peersLocked :: "room \<Rightarrow> string \<Rightarrow> (nat \<Rightarrow> client) \<Rightarrow> user list" where
  "peersLocked room excludeID h =
     map (\<lambda>(_, c). getUser (h c)) (filter (\<lambda>(i, _). i \<noteq> excludeID) (rClients room))"

text \<open>\<open>uniqueClientIDLocked\<close>: the id itself when free, else up to eight suffixed candidates.\<close>

definition id_taken :: "room \<Rightarrow> string \<Rightarrow> bool" where
  "id_taken room i \<longleftrightarrow> has_key (rClients room) i \<or> has_key (rPending room) i"

fun unique_candidate :: "(nat \<Rightarrow> bytes option) \<Rightarrow> room \<Rightarrow> string \<Rightarrow> nat list \<Rightarrow> string" where
  "unique_candidate rnd room base [] = NewID ''client'' (rnd 8)"
| "unique_candidate rnd room base (i # is) =
     (let candidate = base @ ''-'' @ take 8 (trim_prefix (NewID ''c'' (rnd i)) ''c-'')
      in if id_taken room candidate then unique_candidate rnd room base is else candidate)"

definition uniqueClientIDLocked :: "(nat \<Rightarrow> bytes option) \<Rightarrow> room \<Rightarrow> string \<Rightarrow> string" where
  "uniqueClientIDLocked rnd room base =
     (if \<not> id_taken room base then base else unique_candidate rnd room base [0..<8])"

definition storedUpdatesForProtocol :: "(int \<times> bytes) list \<Rightarrow> stored_update list" where
  "storedUpdatesForProtocol updates =
     map (\<lambda>(q, u). \<lparr>suSeq = q, suUpdateBase64 = EncodeBytes u\<rparr>) updates"

text \<open>\<open>EncodeBytes\<close> of a slice that may be nil.\<close>

definition encode_compact :: "bytes option \<Rightarrow> string" where
  "encode_compact s = (case s of None \<Rightarrow> [] | Some b \<Rightarrow> EncodeBytes b)"

end
