(* ===== verification/Room.thy ===== *)
theory Room
  imports HubState
begin

text \<open>
  Joining and leaving a room (\<open>internal/server/hub.go\<close>): \<open>joinRoom\<close> up to the point where it
  blocks for the host's decision and from there on, \<open>leaveRoom\<close> under the room's lock and after
  it, and \<open>tryHostMigrationLocked\<close>.  Each definition is what happens between two points where
  other goroutines may run.
\<close>

section \<open>joinRoom\<close>

text \<open>The rejection all failing paths of \<open>joinRoom\<close> share: a message, then the queue is closed.\<close>

definition reject :: "slots \<Rightarrow> stamp \<Rightarrow> nat \<Rightarrow> string \<Rightarrow> world \<Rightarrow> world" where
  "reject slot st c why w =
     set_phase c Gone (shutdown_client c
       (queue_to slot (NewEnvelope st TypeJoinRejected ''server'' (cID (wClient w c)) (PJoinRejected why)) c w))"

definition auth_ok_envelope :: "stamp \<Rightarrow> string \<Rightarrow> user list \<Rightarrow> room_state \<Rightarrow> bool \<Rightarrow> string \<Rightarrow> envelope" where
  "auth_ok_envelope st i peers state isHost hostID =
     NewEnvelope st TypeAuthOK ''server'' i
       (PAuthOK \<lparr>aoClientID = i, aoPeers = peers,
         aoCompactStateBase64 = encode_compact (CompactState state),
         aoUpdates = storedUpdatesForProtocol (Updates state),
         aoIsHost = isHost, aoHostID = hostID\<rparr>)"

definition room_full :: "hub_cfg \<Rightarrow> room \<Rightarrow> bool" where
  "room_full cfg room \<longleftrightarrow>
     hcMaxClientsPerRoom cfg > 0 \<and> int (length (rClients room)) \<ge> hcMaxClientsPerRoom cfg"

definition txt_room_full :: "hub_cfg \<Rightarrow> string" where
  "txt_room_full cfg = txt_room_full_prefix @ show_int (hcMaxClientsPerRoom cfg) @ '')''"

text \<open>The first to join becomes the host.\<close>

definition join_as_host :: "slots \<Rightarrow> stamps \<Rightarrow> nat \<Rightarrow> room_state \<Rightarrow> nat \<Rightarrow> world \<Rightarrow> world" where
  "join_as_host slot st c state r w =
     (let room = wRoom w r; i = cID (wClient w c);
          peers = peersLocked room i (wClient w)
      in set_phase c (Reading r)
           (queue_to slot (auth_ok_envelope (st 0) i peers state True i) c
             (set_room r (room\<lparr>rHostID := i, rClients := AList.update i c (rClients room)\<rparr>) w)))"

text \<open>Anyone else waits: the pending join is registered and the host, if it is there, asked.\<close>

definition join_as_pending ::
  "slots \<Rightarrow> stamps \<Rightarrow> bytes option \<Rightarrow> time \<Rightarrow> nat \<Rightarrow> room_state \<Rightarrow> nat \<Rightarrow> world \<Rightarrow> world" where
  "join_as_pending slot st reqrnd now c state r w =
     (let room = wRoom w r; i = cID (wClient w c); p = wNextPending w;
          pending = \<lparr>pjRequestID = NewID ''join'' reqrnd, pjClient = c, pjState = state,
                     pjCreatedAt = now, pjResult = None\<rparr>;
          w1 = (set_room r (room\<lparr>rPending := AList.update i p (rPending room)\<rparr>) w)
                 \<lparr>wPending := (wPending w)(p := pending), wNextPending := Suc p\<rparr>;
          w2 = queue_to slot (NewEnvelope (st 0) TypeJoinPending ''server'' i (PJoinPending (rHostID room))) c w1;
          w3 = (case map_of (rClients room) (rHostID room) of
                  None \<Rightarrow> w2
                | Some hc \<Rightarrow> queue_to slot (NewEnvelope (st 1) TypeJoinRequest ''server'' (cID (wClient w2 hc))
                    (PJoinRequest (pjRequestID pending) (getUser (wClient w2 c)))) hc w2)
      in set_phase c (Waiting r p) w3)"

text \<open>
  The start of \<open>joinRoom\<close>: \<open>h.room\<close> takes and releases the hub's lock; then the room's lock is
  taken.
\<close>

definition joinRoom_lookup :: "hub_cfg \<Rightarrow> slots \<Rightarrow> stamps \<Rightarrow> nat \<Rightarrow> room_state \<Rightarrow> world \<Rightarrow> world" where
  "joinRoom_lookup cfg slot st c state w =
     (case hub_room cfg (cRoomID (wClient w c)) w of
        (None, w) \<Rightarrow> reject slot (st 0) c txt_server_full w
      | (Some r, w) \<Rightarrow> set_phase c (Entering r state) w)"

definition joinRoom_enter ::
  "hub_cfg \<Rightarrow> slots \<Rightarrow> stamps \<Rightarrow> (nat \<Rightarrow> bytes option) \<Rightarrow> bytes option \<Rightarrow> time \<Rightarrow> nat \<Rightarrow> nat
     \<Rightarrow> room_state \<Rightarrow> world \<Rightarrow> world" where
  "joinRoom_enter cfg slot st rnd reqrnd now c r state w =
     (let room = wRoom w r;
          i = uniqueClientIDLocked rnd room (cID (wClient w c));
          isHost = (rHostID room = []);
          u = (getUser (wClient w c))\<lparr>userID := i,
                userRole := if isHost then ''host'' else ''collaborator''\<rparr>;
          w = set_client c ((setUser u (wClient w c))\<lparr>cID := i\<rparr>) w
      in if isHost then join_as_host slot st c state r w
         else if rClosed room then reject slot (st 0) c txt_room_closed w
         else if room_full cfg room then reject slot (st 0) c (txt_room_full cfg) w
         else join_as_pending slot st reqrnd now c state r w)"

text \<open>The \<open>select\<close> in \<open>joinRoom\<close>: the decision is received, or the approval times out.\<close>

definition receive_decision :: "nat \<Rightarrow> nat \<Rightarrow> nat \<Rightarrow> join_decision \<Rightarrow> world \<Rightarrow> world" where
  "receive_decision c r p d w =
     set_phase c (Decided r p d) (w\<lparr>wPending := (wPending w)(p := (wPending w p)\<lparr>pjResult := None\<rparr>)\<rparr>)"

definition approval_timeout :: "nat \<Rightarrow> nat \<Rightarrow> nat \<Rightarrow> world \<Rightarrow> world" where
  "approval_timeout c r p w = set_phase c (Decided r p \<lparr>approved = False, reason = txt_approval_timeout\<rparr>) w"

definition host_gone :: "room \<Rightarrow> bool" where
  "host_gone room \<longleftrightarrow> rHostID room \<noteq> [] \<and> \<not> has_key (rClients room) (rHostID room)"

definition joinRoom_finish :: "slots \<Rightarrow> stamps \<Rightarrow> nat \<Rightarrow> nat \<Rightarrow> nat \<Rightarrow> join_decision \<Rightarrow> world \<Rightarrow> world" where
  "joinRoom_finish slot st c r p d w =
     (let i = cID (wClient w c);
          room = (wRoom w r)\<lparr>rPending := AList.delete i (rPending (wRoom w r))\<rparr>;
          w = set_room r room w
      in if rClosed room \<or> host_gone room then reject slot (st 0) c txt_room_closed w
         else if \<not> approved d then reject slot (st 0) c (reason d) w
         else
           (let peers = peersLocked room i (wClient w);
                w1 = set_room r (room\<lparr>rClients := AList.update i c (rClients room)\<rparr>) w;
                w2 = queue_to slot (auth_ok_envelope (st 0) i peers (pjState (wPending w p)) False (rHostID room)) c w1;
                env = NewEnvelope (st 1) TypePeerJoined ''server'' [] (PUser (getUser (wClient w2 c)))
            in set_phase c (Reading r) (broadcast slot env r i w2)))"

section \<open>tryHostMigrationLocked\<close>

text \<open>The loop over the clients that keeps the first of the earliest \<open>JoinedAt\<close>.\<close>

fun earliest :: "(nat \<Rightarrow> client) \<Rightarrow> nat option \<Rightarrow> nat list \<Rightarrow> nat option" where
  "earliest h best [] = best"
| "earliest h best (c # cs) =
     earliest h (case best of None \<Rightarrow> Some c
       | Some b \<Rightarrow> if cJoinedAt (h c) < cJoinedAt (h b) then Some c else Some b) cs"

definition tryHostMigrationLocked :: "slots \<Rightarrow> stamp \<Rightarrow> nat \<Rightarrow> world \<Rightarrow> bool \<times> world" where
  "tryHostMigrationLocked slot st r w =
     (let room = wRoom w r; cs = map snd (rClients room)
      in case earliest (wClient w) None cs of
           None \<Rightarrow> (False, w)
         | Some e \<Rightarrow>
             (let i = cID (wClient w e);
                  w1 = set_room r (room\<lparr>rHostID := i\<rparr>) w;
                  w2 = set_client e (setUser ((getUser (wClient w1 e))\<lparr>userRole := ''host''\<rparr>) (wClient w1 e)) w1;
                  env = NewEnvelope st TypeHostChanged ''server'' [] (PHostChanged i (rHostID room))
              in (True, w2\<lparr>wClient := snd (deliver slot (\<lambda>_. env) cs (wClient w2))\<rparr>)))"

section \<open>leaveRoom\<close>

text \<open>Closing a room: every pending join is refused, every peer told and shut down.\<close>

definition close_pending :: "nat \<Rightarrow> world \<Rightarrow> world" where
  "close_pending r w =
     (let refuse = (\<lambda>h p. h(p := snd (decide \<lparr>approved = False, reason = txt_host_left\<rparr> (h p))))
      in (set_room r ((wRoom w r)\<lparr>rPending := []\<rparr>) w)
           \<lparr>wPending := foldl refuse (wPending w) (map snd (rPending (wRoom w r)))\<rparr>)"

definition close_peers :: "slots \<Rightarrow> envelope \<Rightarrow> nat \<Rightarrow> world \<Rightarrow> world" where
  "close_peers slot env r w =
     (let cs = map snd (rClients (wRoom w r));
          h1 = snd (deliver slot (\<lambda>_. env) cs (wClient w))
      in (set_room r ((wRoom w r)\<lparr>rClients := []\<rparr>) w)
           \<lparr>wClient := foldl (\<lambda>h c. h(c := shutdown (h c))) h1 cs\<rparr>)"

text \<open>The part of \<open>leaveRoom\<close> that holds the room's lock.\<close>

definition leaveRoom_locked :: "slots \<Rightarrow> stamps \<Rightarrow> nat \<Rightarrow> nat \<Rightarrow> world \<Rightarrow> world" where
  "leaveRoom_locked slot st c r w0 =
     (let w = shutdown_client c w0;
          i = cID (wClient w c);
          room = wRoom w r;
          existed = has_key (rClients room) i;
          w = (if existed then set_room r (room\<lparr>rClients := AList.delete i (rClients room)\<rparr>) w else w);
          hostLeft = (existed \<and> i = rHostID room \<and> \<not> rClosed room);
          (migrated, w) = (if hostLeft then tryHostMigrationLocked slot (st 0) r w else (False, w));
          hostLeft = (hostLeft \<and> \<not> migrated);
          w = (if hostLeft then
                 close_peers slot (NewEnvelope (st 1) TypeRoomClosed ''server'' [] (PRoomClosed ''host_left'' i)) r
                   (close_pending r (set_room r ((wRoom w r)\<lparr>rClosed := True\<rparr>) w))
               else w);
          info = \<lparr>liExisted = existed, liHostLeft = hostLeft, liRoomClosed = hostLeft,
                  liEmpty = (rClients (wRoom w r) = []),
                  liTargets = (if existed \<and> \<not> hostLeft then targets (wRoom w r) i else [])\<rparr>
      in set_phase c (Leaving r info) w)"

text \<open>
  The part after it: the others are told, and the hub forgets a room that was closed or is
  empty.  The result of \<open>store.CloseRoom\<close> is ignored.
\<close>

definition leaveRoom_rest :: "slots \<Rightarrow> stamps \<Rightarrow> fails \<Rightarrow> string \<Rightarrow> nat \<Rightarrow> nat \<Rightarrow> leave_info \<Rightarrow> world \<Rightarrow> world" where
  "leaveRoom_rest slot st fail now c r info w =
     (let i = cID (wClient w c); roomID = cRoomID (wClient w c);
          env = NewEnvelope (st 0) TypePeerLeft ''server'' [] (PClientID i);
          w1 = (if liExisted info \<and> \<not> liRoomClosed info
                then w\<lparr>wClient := snd (deliver slot (\<lambda>_. env) (liTargets info) (wClient w))\<rparr> else w);
          w2 = (if \<not> liHostLeft info \<and> \<not> liEmpty info then w1
                else
                  (let w3 = (if map_of (wRooms w1) roomID = Some r
                             then w1\<lparr>wRooms := AList.delete roomID (wRooms w1)\<rparr> else w1)
                   in if liRoomClosed info then w3\<lparr>wDB := snd (CloseRoom fail now roomID (wDB w3))\<rparr> else w3))
      in set_phase c Gone w2)"

end
