(* ===== verification/Handlers.thy ===== *)
theory Handlers
  imports Room
begin

text \<open>
  The messages of a connection (\<open>internal/server/hub.go\<close>): the authentication of the first
  frame, one definition per case of \<open>handleEnvelope\<close>, the loop that calls it, and the goroutines
  it starts to persist updates and snapshots.  \<open>c\<close> is the connection, \<open>r\<close> its room; \<open>slot\<close>, \<open>st\<close>
  and \<open>now\<close> are the waits, the message stamps and the formatted clock of the step.
\<close>

section \<open>Authentication\<close>

text \<open>
  \<open>roomKeyHash\<close>: HMAC-SHA256 of the room id, a zero byte and the room key, in hex.  The keyed
  hash is a parameter.
\<close>

definition roomKeyHash :: "(string \<Rightarrow> string \<Rightarrow> string) \<Rightarrow> string \<Rightarrow> string \<Rightarrow> string \<Rightarrow> string" where
  "roomKeyHash hmac secret roomID roomKey = hmac secret (roomID @ [CHR 0x00] @ roomKey)"

datatype auth_result =
    AuthSilent
  | AuthRefused envelope
  | AuthAccepted client room_state

definition auth_error :: "stamp \<Rightarrow> string \<Rightarrow> string \<Rightarrow> auth_result" where
  "auth_error st code message = AuthRefused (NewEnvelope st TypeError ''server'' [] (PError code message))"

definition clean_user :: "bytes option \<Rightarrow> user \<Rightarrow> user" where
  "clean_user rnd u = u\<lparr>
     userID := CleanID (userID u) ''client'' rnd,
     userName := CleanText (userName u) txt_anonymous 64,
     userColor := CleanText (userColor u) ''#888888'' 16,
     userPageID := CleanText (userPageID u) [] 64,
     userSelectedElementID := CleanText (userSelectedElementID u) [] 64,
     userEditingElementID := CleanText (userEditingElementID u) [] 64\<rparr>"

definition new_client :: "string \<Rightarrow> user \<Rightarrow> time \<Rightarrow> client" where
  "new_client roomID u joinedAt =
     \<lparr>cID = userID u, cRoomID = roomID, cUser = u, cSend = [], cCap = clientSendQueueSize,
      cClosed = False, cViolations = 0, cJoinedAt = joinedAt, cWritten = [], cConnOpen = True\<rparr>"

definition payload_json :: "envelope \<Rightarrow> json option" where
  "payload_json env = (case ePayload env of Raw v \<Rightarrow> v | _ \<Rightarrow> None)"

text \<open>
  \<open>handleSocket\<close> up to \<open>joinRoom\<close>: the first frame (None when \<open>ReadJSON\<close> fails), the checks of
  the payload, the room key, the stored state.
\<close>

definition handleSocket_auth ::
  "(string \<Rightarrow> string \<Rightarrow> string) \<Rightarrow> hub_cfg \<Rightarrow> stamp \<Rightarrow> bytes option \<Rightarrow> fails \<Rightarrow> fails \<Rightarrow> string \<Rightarrow> time
     \<Rightarrow> envelope option \<Rightarrow> db \<Rightarrow> auth_result \<times> db" where
  "handleSocket_auth hmac cfg st rnd fail1 fail2 now joinedAt frame db =
     (case frame of
        None \<Rightarrow> (AuthSilent, db)
      | Some authEnv \<Rightarrow>
          if eType authEnv \<noteq> TypeAuth then (auth_error st ''auth_required'' txt_auth_required, db)
          else case DecodePayload dec_auth zero_auth (payload_json authEnv) of
            Inl _ \<Rightarrow> (auth_error st ''bad_auth'' txt_bad_auth, db)
          | Inr authPayload \<Rightarrow>
              (let roomID = trim_space (auRoomID authPayload);
                   roomKey = trim_space (auRoomKey authPayload)
               in if roomID = [] \<or> roomKey = [] then (auth_error st ''bad_auth'' txt_empty_auth, db)
                  else
                    (let u = clean_user rnd (auUser authPayload)
                     in case EnsureRoom fail1 now roomID (roomKeyHash hmac (hcSecret cfg) roomID roomKey) db of
                          (Inl e, db1) \<Rightarrow>
                            (auth_error st (if e = ErrRoomClosed then ''room_closed'' else ''room_key_invalid'')
                               txt_room_unavailable, db1)
                        | (Inr _, db1) \<Rightarrow>
                            (case LoadRoomState fail2 db1 db1 roomID of
                               Inl _ \<Rightarrow> (auth_error st ''load_failed'' txt_load_failed, db1)
                             | Inr state \<Rightarrow>
                                 (AuthAccepted (new_client roomID (u\<lparr>userLastSeen := now\<rparr>) joinedAt) state, db1)))))"

section \<open>handleEnvelope\<close>

definition send_error :: "slots \<Rightarrow> stamps \<Rightarrow> string \<Rightarrow> string \<Rightarrow> nat \<Rightarrow> world \<Rightarrow> world" where
  "send_error slot st code message c w = set_client c (sendError (slot c) (st 0) code message (wClient w c)) w"

definition spawn :: "job \<Rightarrow> world \<Rightarrow> world" where
  "spawn j w = w\<lparr>wJobs := wJobs w @ [j]\<rparr>"

definition txt_too_large :: "string \<Rightarrow> int \<Rightarrow> string" where
  "txt_too_large pre limit = pre @ show_int limit @ '' bytes)''"

definition blob_length :: "bytes option \<Rightarrow> int" where
  "blob_length b = (case b of None \<Rightarrow> 0 | Some bs \<Rightarrow> int (length bs))"

definition handle_doc_update ::
  "hub_cfg \<Rightarrow> slots \<Rightarrow> stamps \<Rightarrow> nat \<Rightarrow> nat \<Rightarrow> envelope \<Rightarrow> world \<Rightarrow> world" where
  "handle_doc_update cfg slot st c r env w =
     (case DecodePayload dec_doc_update zero_doc_update (payload_json env) of
        Inl _ \<Rightarrow> send_error slot st ''bad_doc_update'' txt_bad_doc_update c w
      | Inr payload \<Rightarrow>
          (case DecodeBytes (duUpdateBase64 payload) of
             Inl _ \<Rightarrow> send_error slot st ''bad_doc_update'' txt_doc_update_base64 c w
           | Inr update \<Rightarrow>
               if blob_length update > hcMaxUpdateBytes cfg then
                 send_error slot st ''doc_update_too_large''
                   (txt_too_large txt_update_too_large_prefix (hcMaxUpdateBytes cfg)) c w
               else
                 (let w1 = (case update of
                       None \<Rightarrow> w
                     | Some b \<Rightarrow> if b = [] then w else spawn (JobUpdate c r (duUpdateID payload) b) w)
                  in if duRelay payload then broadcast slot env r (cID (wClient w c)) w1 else w1)))"

definition handle_doc_snapshot ::
  "hub_cfg \<Rightarrow> slots \<Rightarrow> stamps \<Rightarrow> nat \<Rightarrow> nat \<Rightarrow> envelope \<Rightarrow> world \<Rightarrow> world" where
  "handle_doc_snapshot cfg slot st c r env w =
     (case DecodePayload dec_doc_snapshot zero_doc_snapshot (payload_json env) of
        Inl _ \<Rightarrow> send_error slot st ''bad_doc_snapshot'' txt_bad_doc_snapshot c w
      | Inr payload \<Rightarrow>
          (case DecodeBytes (dsStateBase64 payload) of
             Inl _ \<Rightarrow> send_error slot st ''bad_doc_snapshot'' txt_doc_snapshot_base64 c w
           | Inr state \<Rightarrow>
               if blob_length state > hcMaxSnapshotBytes cfg then
                 send_error slot st ''doc_snapshot_too_large''
                   (txt_too_large txt_snapshot_too_large_prefix (hcMaxSnapshotBytes cfg)) c w
               else spawn (JobSnapshot c r state (dsBaseSeq payload)) w))"

text \<open>The role a connection has, whatever it claims.\<close>

definition role_of :: "nat \<Rightarrow> nat \<Rightarrow> world \<Rightarrow> string" where
  "role_of c r w = (if cID (wClient w c) = rHostID (wRoom w r) then ''host'' else ''collaborator'')"

definition handle_presence ::
  "slots \<Rightarrow> stamps \<Rightarrow> string \<Rightarrow> nat \<Rightarrow> nat \<Rightarrow> envelope \<Rightarrow> world \<Rightarrow> world" where
  "handle_presence slot st now c r env w =
     (case DecodePayload dec_presence zero_presence (payload_json env) of
        Inl _ \<Rightarrow> send_error slot st ''bad_presence'' txt_bad_presence c w
      | Inr payload \<Rightarrow>
          (let i = cID (wClient w c);
               u = (prUser payload)\<lparr>userID := i, userLastSeen := now, userRole := role_of c r w\<rparr>;
               w1 = set_client c (setUser u (wClient w c)) w
           in broadcast slot (env\<lparr>ePayload := PPresence (payload\<lparr>prUser := u\<rparr>)\<rparr>) r i w1))"

definition handle_chat :: "slots \<Rightarrow> stamps \<Rightarrow> nat \<Rightarrow> nat \<Rightarrow> envelope \<Rightarrow> world \<Rightarrow> world" where
  "handle_chat slot st c r env w =
     (case DecodePayload dec_chat zero_chat (payload_json env) of
        Inl _ \<Rightarrow> send_error slot st ''bad_chat'' txt_bad_chat c w
      | Inr payload \<Rightarrow>
          (let i = cID (wClient w c);
               u = (chUser payload)\<lparr>userID := i, userRole := role_of c r w\<rparr>;
               text = CleanText (chText payload) [] 4096
           in if text = [] then w
              else broadcast slot (env\<lparr>ePayload := PChat (payload\<lparr>chUser := u, chText := text\<rparr>)\<rparr>) r i w))"

text \<open>Point to point when the envelope names a receiver, to everybody else otherwise.\<close>

definition forward :: "slots \<Rightarrow> nat \<Rightarrow> nat \<Rightarrow> envelope \<Rightarrow> world \<Rightarrow> world" where
  "forward slot c r env w =
     (if eTo env \<noteq> [] then sendTo slot (eTo env) env r w
      else broadcast slot env r (cID (wClient w c)) w)"

definition handle_signal :: "slots \<Rightarrow> stamps \<Rightarrow> nat \<Rightarrow> nat \<Rightarrow> envelope \<Rightarrow> world \<Rightarrow> world" where
  "handle_signal slot st c r env w =
     (case DecodePayload dec_signal zero_signal (payload_json env) of
        Inl _ \<Rightarrow> send_error slot st ''bad_signal'' txt_bad_signal c w
      | Inr s \<Rightarrow>
          if sgKind s = [] \<and> sgSDP s = [] \<and> sgCandidate s = None then
            send_error slot st ''bad_signal'' txt_bad_signal c w
          else forward slot c r env w)"

definition handle_relay :: "slots \<Rightarrow> stamps \<Rightarrow> nat \<Rightarrow> nat \<Rightarrow> envelope \<Rightarrow> world \<Rightarrow> world" where
  "handle_relay slot st c r env w =
     (case Option.bind (payload_json env) (\<lambda>v. dec_relay v zero_relay) of
        None \<Rightarrow> send_error slot st ''bad_relay'' txt_bad_relay c w
      | Some relay \<Rightarrow>
          if rlType relay \<in> {TypeDocUpdate, TypeChat, TypeVoiceData, TypeVoiceCtrl} then
            broadcast slot env r (cID (wClient w c)) w
          else if rlType relay = TypeSignal then forward slot c r env w
          else send_error slot st ''unknown_relay_type'' txt_unknown_relay c w)"

definition is_host :: "nat \<Rightarrow> nat \<Rightarrow> world \<Rightarrow> bool" where
  "is_host c r w \<longleftrightarrow> cID (wClient w c) = rHostID (wRoom w r)"

definition handle_join_decision :: "slots \<Rightarrow> stamps \<Rightarrow> nat \<Rightarrow> nat \<Rightarrow> envelope \<Rightarrow> world \<Rightarrow> world" where
  "handle_join_decision slot st c r env w =
     (if \<not> is_host c r w then send_error slot st ''not_host'' txt_not_host_join c w
      else case DecodePayload dec_join_decision zero_join_decision (payload_json env) of
        Inl _ \<Rightarrow> w
      | Inr payload \<Rightarrow>
          (case find (\<lambda>p. pjRequestID (wPending w p) = jdRequestID payload) (map snd (rPending (wRoom w r))) of
             None \<Rightarrow> w
           | Some p \<Rightarrow>
               w\<lparr>wPending := (wPending w)(p := snd (decide
                    \<lparr>approved = jdApproved payload, reason = jdReason payload\<rparr> (wPending w p)))\<rparr>))"

definition handle_ping :: "slots \<Rightarrow> stamps \<Rightarrow> nat \<Rightarrow> envelope \<Rightarrow> world \<Rightarrow> world" where
  "handle_ping slot st c env w =
     queue_to slot (NewEnvelope (st 0) TypePong ''server'' (cID (wClient w c)) (ePayload env)) c w"

definition handle_peer_kick :: "slots \<Rightarrow> stamps \<Rightarrow> nat \<Rightarrow> nat \<Rightarrow> envelope \<Rightarrow> world \<Rightarrow> world" where
  "handle_peer_kick slot st c r env w =
     (if \<not> is_host c r w then send_error slot st ''not_host'' txt_not_host_kick c w
      else case DecodePayload dec_peer_kick zero_peer_kick (payload_json env) of
        Inl _ \<Rightarrow> w
      | Inr payload \<Rightarrow>
          (let i = pkClientID payload
           in if i = [] then w
              else case map_of (rClients (wRoom w r)) i of
                None \<Rightarrow> w
              | Some target \<Rightarrow>
                  (let kicked = NewEnvelope (st 0) TypePeerKicked ''server'' i
                         (PPeerKicked (pkReason payload) (cID (wClient w c)));
                       w1 = shutdown_client target (queue_to slot kicked target w);
                       w2 = set_room r ((wRoom w1 r)\<lparr>rClients := AList.delete i (rClients (wRoom w1 r))\<rparr>) w1
                   in broadcast slot (NewEnvelope (st 1) TypePeerLeft ''server'' [] (PClientID i)) r [] w2)))"

definition handleEnvelope ::
  "hub_cfg \<Rightarrow> slots \<Rightarrow> stamps \<Rightarrow> string \<Rightarrow> nat \<Rightarrow> nat \<Rightarrow> envelope \<Rightarrow> world \<Rightarrow> world" where
  "handleEnvelope cfg slot st now c r env w =
     (if eType env = TypeDocUpdate then handle_doc_update cfg slot st c r env w
      else if eType env = TypeDocSnapshot then handle_doc_snapshot cfg slot st c r env w
      else if eType env = TypePresence then handle_presence slot st now c r env w
      else if eType env = TypeChat then handle_chat slot st c r env w
      else if eType env = TypeSignal then handle_signal slot st c r env w
      else if eType env = TypeVoiceSignal then forward slot c r env w
      else if eType env = TypeRelay then handle_relay slot st c r env w
      else if eType env = TypeJoinDecision then handle_join_decision slot st c r env w
      else if eType env = TypePing then handle_ping slot st c env w
      else if eType env = TypePong then w
      else if eType env = TypePeerKick then handle_peer_kick slot st c r env w
      else if eType env = TypeVoiceData then w
      else if eType env = TypeVoiceCtrl then w
      else send_error slot st ''unknown_type'' txt_unknown_type c w)"

section \<open>readLoop\<close>

text \<open>
  One iteration of \<open>readLoop\<close>: what \<open>ReadJSON\<close> gave (None for an error), whether the rate
  limiter allows the message.  When the loop returns, \<open>handleSocket\<close> goes on to \<open>leaveRoom\<close>.
\<close>

definition readLoop_iter ::
  "hub_cfg \<Rightarrow> slots \<Rightarrow> stamps \<Rightarrow> string \<Rightarrow> bool \<Rightarrow> nat \<Rightarrow> nat \<Rightarrow> envelope option \<Rightarrow> world \<Rightarrow> world" where
  "readLoop_iter cfg slot st now allow c r frame w =
     (case frame of
        None \<Rightarrow> leaveRoom_locked slot st c r w
      | Some env \<Rightarrow>
          (let x = wClient w c
           in if \<not> allow then
                (let violations = cViolations x + 1;
                     w1 = set_client c (x\<lparr>cViolations := violations\<rparr>) w
                 in if violations > rateLimitMaxConsecutiveViolations then leaveRoom_locked slot st c r w1
                    else w1)
              else handleEnvelope cfg slot st now c r (env\<lparr>eFrom := cID x, eSentAt := now\<rparr>)
                     (set_client c (x\<lparr>cViolations := 0\<rparr>) w)))"

section \<open>The goroutines\<close>

definition broadcastSyncRequest :: "slots \<Rightarrow> stamps \<Rightarrow> nat \<Rightarrow> world \<Rightarrow> world" where
  "broadcastSyncRequest slot st r w =
     w\<lparr>wClient := snd (deliver slot
         (\<lambda>c. NewEnvelope (st c) TypeSyncRequest ''server'' (cID (wClient w c)) (PRoomID (cRoomID (wClient w c))))
         (map snd (rClients (wRoom w r))) (wClient w))\<rparr>"

definition rejected_envelope :: "stamp \<Rightarrow> nat \<Rightarrow> string \<Rightarrow> string \<Rightarrow> world \<Rightarrow> envelope" where
  "rejected_envelope st c updateID why w =
     NewEnvelope st TypeDocUpdateRejected ''server'' (cID (wClient w c)) (PDocUpdateRejected updateID why)"

definition storage_exceeded :: "hub_cfg \<Rightarrow> fails \<Rightarrow> string \<Rightarrow> int \<Rightarrow> db \<Rightarrow> bool" where
  "storage_exceeded cfg fail roomID n db =
     (case RoomStorageBytes fail roomID db of
        Inl _ \<Rightarrow> False
      | Inr currentBytes \<Rightarrow> currentBytes + n > hcRoomMaxStorageBytes cfg)"

text \<open>
  The goroutine of a doc_update, from \<open>acquireRoomWrite\<close> to \<open>releaseRoomWrite\<close>; \<open>acquired\<close> is
  False when the room's write lock could not be had in time.
\<close>

definition run_update ::
  "hub_cfg \<Rightarrow> slots \<Rightarrow> stamps \<Rightarrow> bool \<Rightarrow> fails \<Rightarrow> fails \<Rightarrow> string \<Rightarrow> nat \<Rightarrow> nat \<Rightarrow> string \<Rightarrow> bytes
     \<Rightarrow> world \<Rightarrow> world" where
  "run_update cfg slot st acquired fail1 fail2 now c r updateID update w =
     (let roomID = cRoomID (wClient w c)
      in if \<not> acquired then queue_to slot (rejected_envelope (st 0) c updateID txt_busy_retry w) c w
         else if storage_exceeded cfg fail1 roomID (int (length update)) (wDB w) then
           queue_to slot (rejected_envelope (st 0) c updateID txt_storage_full w) c w
         else case AppendUpdate fail2 now roomID update (wDB w) of
           (Inl _, db') \<Rightarrow>
             broadcastSyncRequest slot (\<lambda>k. st (Suc k)) r
               (queue_to slot (rejected_envelope (st 0) c updateID txt_persist_failed w) c (w\<lparr>wDB := db'\<rparr>))
         | (Inr seq, db') \<Rightarrow> spawn (JobCompact c) (w\<lparr>wDB := db'\<rparr>))"

definition run_snapshot ::
  "(bytes option \<Rightarrow> bytes option) \<Rightarrow> hub_cfg \<Rightarrow> slots \<Rightarrow> stamps \<Rightarrow> bool \<Rightarrow> fails \<Rightarrow> fails \<Rightarrow> string \<Rightarrow> nat
     \<Rightarrow> bytes option \<Rightarrow> int \<Rightarrow> world \<Rightarrow> world" where
  "run_snapshot bind cfg slot st acquired fail1 fail2 now c state baseSeq w =
     (let roomID = cRoomID (wClient w c)
      in if \<not> acquired then send_error slot st ''server_busy'' txt_snapshot_skipped c w
         else if storage_exceeded cfg fail1 roomID (blob_length state) (wDB w) then
           send_error slot st ''room_storage_full'' txt_snapshot_rejected c w
         else w\<lparr>wDB := snd (SaveSnapshot bind fail2 now roomID state baseSeq (wDB w))\<rparr>)"

definition maybeAutoCompact :: "slots \<Rightarrow> stamps \<Rightarrow> fails \<Rightarrow> nat \<Rightarrow> world \<Rightarrow> world" where
  "maybeAutoCompact slot st fail c w =
     (let roomID = cRoomID (wClient w c)
      in case UpdateCount fail roomID (wDB w) of
           Inl _ \<Rightarrow> w
         | Inr count \<Rightarrow>
             (if count < autoCompactUpdateThreshold then w
              else case map_of (wRooms w) roomID of
                None \<Rightarrow> w
              | Some r \<Rightarrow>
                  (case map_of (rClients (wRoom w r)) (rHostID (wRoom w r)) of
                     None \<Rightarrow> w
                   | Some hc \<Rightarrow> queue_to slot (NewEnvelope (st 0) TypeCompactionRequest ''server''
                       (cID (wClient w hc)) (PCompactionRequest roomID count)) hc w)))"

fun run_job ::
  "(bytes option \<Rightarrow> bytes option) \<Rightarrow> hub_cfg \<Rightarrow> slots \<Rightarrow> stamps \<Rightarrow> bool \<Rightarrow> fails \<Rightarrow> fails \<Rightarrow> string \<Rightarrow> job
     \<Rightarrow> world \<Rightarrow> world" where
  "run_job bind cfg slot st acquired fail1 fail2 now (JobUpdate c r i b) w =
     run_update cfg slot st acquired fail1 fail2 now c r i b w"
| "run_job bind cfg slot st acquired fail1 fail2 now (JobSnapshot c r s base) w =
     run_snapshot bind cfg slot st acquired fail1 fail2 now c s base w"
| "run_job bind cfg slot st acquired fail1 fail2 now (JobCompact c) w = maybeAutoCompact slot st fail1 c w"

section \<open>Stats\<close>

definition Stats :: "world \<Rightarrow> nat \<times> nat" where
  "Stats w = (length (wRooms w), sum_list (map (\<lambda>(_, r). length (rClients (wRoom w r))) (wRooms w)))"

end
