(* ===== verification/Frames.thy ===== *)
theory Frames
  imports Handlers
begin

text \<open>
  What the hub's operations leave alone.  \<open>ident\<close> is the part of a connection that messages do
  not change; an operation that only sends is quiet: it keeps rooms, pending joins, phases and
  the \<open>ident\<close> of every connection.  All rules here are simplification rules, so that a proof
  about an operation sees through the messages it sends.
\<close>

definition ident :: "client \<Rightarrow> string \<times> string \<times> user \<times> bool \<times> time" where
  "ident c = (cID c, cRoomID c, cUser c, cClosed c, cJoinedAt c)"

definition quiet :: "world \<Rightarrow> world \<Rightarrow> bool" where
  "quiet w w' \<longleftrightarrow>
     wRooms w' = wRooms w \<and> wRoom w' = wRoom w \<and> wNextRoom w' = wNextRoom w \<and>
     wPending w' = wPending w \<and> wNextPending w' = wNextPending w \<and>
     wPhase w' = wPhase w \<and> wNextClient w' = wNextClient w \<and>
     (\<forall>c. ident (wClient w' c) = ident (wClient w c))"

lemma quiet_refl [simp]: "quiet w w"
  by (simp add: quiet_def)

lemma quiet_trans: "quiet w w1 \<Longrightarrow> quiet w1 w2 \<Longrightarrow> quiet w w2"
  by (simp add: quiet_def)

section \<open>Connections\<close>

lemma deliver_ident [simp]: "ident (snd (deliver slot env cs h) k) = ident (h k)"
  by (induction cs arbitrary: h) (auto simp: split_beta ident_def)

lemma ident_eqD:
  assumes "ident x = ident y"
  shows "cID x = cID y" "cRoomID x = cRoomID y" "cUser x = cUser y" "cClosed x = cClosed y"
    "cJoinedAt x = cJoinedAt y"
  using assms by (simp_all add: ident_def)

lemmas deliver_sel [simp] = ident_eqD [OF deliver_ident]

lemma ident_queue [simp]: "ident (snd (queue b e c)) = ident c"
  by (simp add: ident_def)

lemma ident_sendError [simp]: "ident (sendError b st i m c) = ident c"
  by (simp add: ident_def)

lemma ident_writeLoop [simp]: "ident (writeLoop_step ok c) = ident c"
  by (simp add: ident_def)

section \<open>Setters\<close>

lemma set_client_sel [simp]:
  "wRooms (set_client c x w) = wRooms w" "wRoom (set_client c x w) = wRoom w"
  "wNextRoom (set_client c x w) = wNextRoom w" "wPending (set_client c x w) = wPending w"
  "wNextPending (set_client c x w) = wNextPending w" "wPhase (set_client c x w) = wPhase w"
  "wNextClient (set_client c x w) = wNextClient w" "wJobs (set_client c x w) = wJobs w"
  "wDB (set_client c x w) = wDB w" "wClient (set_client c x w) = (wClient w)(c := x)"
  by (simp_all add: set_client_def)

lemma set_room_sel [simp]:
  "wRooms (set_room r x w) = wRooms w" "wRoom (set_room r x w) = (wRoom w)(r := x)"
  "wNextRoom (set_room r x w) = wNextRoom w" "wPending (set_room r x w) = wPending w"
  "wNextPending (set_room r x w) = wNextPending w" "wPhase (set_room r x w) = wPhase w"
  "wNextClient (set_room r x w) = wNextClient w" "wJobs (set_room r x w) = wJobs w"
  "wDB (set_room r x w) = wDB w" "wClient (set_room r x w) = wClient w"
  by (simp_all add: set_room_def)

lemma set_phase_sel [simp]:
  "wRooms (set_phase c p w) = wRooms w" "wRoom (set_phase c p w) = wRoom w"
  "wNextRoom (set_phase c p w) = wNextRoom w" "wPending (set_phase c p w) = wPending w"
  "wNextPending (set_phase c p w) = wNextPending w" "wPhase (set_phase c p w) = (wPhase w)(c := p)"
  "wNextClient (set_phase c p w) = wNextClient w" "wJobs (set_phase c p w) = wJobs w"
  "wDB (set_phase c p w) = wDB w" "wClient (set_phase c p w) = wClient w"
  by (simp_all add: set_phase_def)

lemma shutdown_client_sel [simp]:
  "wRooms (shutdown_client c w) = wRooms w" "wRoom (shutdown_client c w) = wRoom w"
  "wNextRoom (shutdown_client c w) = wNextRoom w" "wPending (shutdown_client c w) = wPending w"
  "wNextPending (shutdown_client c w) = wNextPending w" "wPhase (shutdown_client c w) = wPhase w"
  "wNextClient (shutdown_client c w) = wNextClient w" "wJobs (shutdown_client c w) = wJobs w"
  "wDB (shutdown_client c w) = wDB w"
  "wClient (shutdown_client c w) = (wClient w)(c := shutdown (wClient w c))"
  by (simp_all add: shutdown_client_def)

section \<open>Quiet operations\<close>

lemma quiet_sel:
  assumes "quiet w w'"
  shows "wRooms w' = wRooms w" "wRoom w' = wRoom w" "wNextRoom w' = wNextRoom w"
    "wPending w' = wPending w" "wNextPending w' = wNextPending w" "wPhase w' = wPhase w"
    "wNextClient w' = wNextClient w" "ident (wClient w' c) = ident (wClient w c)"
    "cID (wClient w' c) = cID (wClient w c)" "cRoomID (wClient w' c) = cRoomID (wClient w c)"
    "cUser (wClient w' c) = cUser (wClient w c)" "cClosed (wClient w' c) = cClosed (wClient w c)"
    "cJoinedAt (wClient w' c) = cJoinedAt (wClient w c)"
  using assms by (simp_all add: quiet_def ident_def)

lemma quiet_queue_to [simp]: "quiet w (queue_to slot e c w)"
  by (simp add: quiet_def queue_to_def)

lemma quiet_deliver [simp]:
  "quiet w (w\<lparr>wClient := snd (deliver slot env cs (wClient w))\<rparr>)"
  by (simp add: quiet_def)

lemma quiet_broadcast [simp]: "quiet w (broadcast slot e r x w)"
  by (simp add: quiet_def broadcast_def)

lemma quiet_sendTo [simp]: "quiet w (sendTo slot i e r w)"
  by (simp add: sendTo_def split: option.split)

lemma quiet_send_error [simp]: "quiet w (send_error slot st i m c w)"
  by (simp add: quiet_def send_error_def)

lemma quiet_spawn [simp]: "quiet w (spawn j w)"
  by (simp add: quiet_def spawn_def)

lemma quiet_db [simp]: "quiet w (w\<lparr>wDB := d\<rparr>)"
  by (simp add: quiet_def)

lemma quiet_jobs [simp]: "quiet w (w\<lparr>wJobs := js\<rparr>)"
  by (simp add: quiet_def)

lemma quiet_forward [simp]: "quiet w (forward slot c r e w)"
  by (simp add: forward_def)

lemma quiet_sync [simp]: "quiet w (broadcastSyncRequest slot st r w)"
  by (simp add: quiet_def broadcastSyncRequest_def)

lemma quiet_violations [simp]: "quiet w (set_client c ((wClient w c)\<lparr>cViolations := n\<rparr>) w)"
  by (simp add: quiet_def ident_def)

lemma quiet_writer [simp]: "quiet w (set_client c (writeLoop_step ok (wClient w c)) w)"
  by (simp add: quiet_def)

lemma quiet_hangup [simp]: "quiet w (set_client c ((wClient w c)\<lparr>cConnOpen := b\<rparr>) w)"
  by (simp add: quiet_def ident_def)

lemmas queue_to_sel [simp] = quiet_sel [OF quiet_queue_to]
lemmas broadcast_sel [simp] = quiet_sel [OF quiet_broadcast]
lemmas send_error_sel [simp] = quiet_sel [OF quiet_send_error]

lemma quiet_doc_update: "quiet w (handle_doc_update cfg slot st c r e w)"
proof -
  have spawned: "quiet w (broadcast slot e r i (spawn j w))" for i j
    by (rule quiet_trans [OF quiet_spawn quiet_broadcast])
  show ?thesis
    by (simp add: handle_doc_update_def Let_def spawned split: sum.split option.split)
qed

lemma quiet_doc_snapshot: "quiet w (handle_doc_snapshot cfg slot st c r e w)"
  by (simp add: handle_doc_snapshot_def split: sum.split)

lemma quiet_chat: "quiet w (handle_chat slot st c r e w)"
  by (simp add: handle_chat_def Let_def split: sum.split)

lemma quiet_signal: "quiet w (handle_signal slot st c r e w)"
  by (simp add: handle_signal_def split: sum.split)

lemma quiet_relay: "quiet w (handle_relay slot st c r e w)"
  by (simp add: handle_relay_def split: option.split)

lemma quiet_ping: "quiet w (handle_ping slot st c e w)"
  by (simp add: handle_ping_def)

lemmas quiet_handlers =
  quiet_doc_update quiet_doc_snapshot quiet_chat quiet_signal quiet_relay quiet_ping

text \<open>Only three message types change anything but queues and jobs.\<close>

lemma handleEnvelope_cases:
  obtains "quiet w (handleEnvelope cfg slot st now c r env w)"
  | "eType env = TypePresence"
    "handleEnvelope cfg slot st now c r env w = handle_presence slot st now c r env w"
  | "eType env = TypeJoinDecision"
    "handleEnvelope cfg slot st now c r env w = handle_join_decision slot st c r env w"
  | "eType env = TypePeerKick"
    "handleEnvelope cfg slot st now c r env w = handle_peer_kick slot st c r env w"
proof -
  consider "eType env = TypePresence" | "eType env = TypeJoinDecision" | "eType env = TypePeerKick"
    | "eType env \<notin> {TypePresence, TypeJoinDecision, TypePeerKick}"
    by blast
  then show thesis
  proof cases
    case 4
    then have "quiet w (handleEnvelope cfg slot st now c r env w)"
      by (simp add: handleEnvelope_def quiet_handlers)
    then show ?thesis by (rule that(1))
  next
    case 1
    then show ?thesis by (auto intro!: that(2) simp: handleEnvelope_def type_defs)
  next
    case 2
    then show ?thesis by (auto intro!: that(3) simp: handleEnvelope_def type_defs)
  next
    case 3
    then show ?thesis by (auto intro!: that(4) simp: handleEnvelope_def type_defs)
  qed
qed

lemma quiet_run_job: "quiet w (run_job bind cfg slot st acq f1 f2 now j w)"
proof (cases j)
  case (JobUpdate c r i b)
  have "quiet w (broadcastSyncRequest slot s r (queue_to slot e c (w\<lparr>wDB := d\<rparr>)))" for s e d
    by (rule quiet_trans [OF quiet_trans [OF quiet_db quiet_queue_to] quiet_sync])
  moreover have "quiet w (spawn (JobCompact c) (w\<lparr>wDB := d\<rparr>))" for d
    by (rule quiet_trans [OF quiet_db quiet_spawn])
  ultimately show ?thesis
    using JobUpdate by (simp add: run_update_def Let_def split: prod.split sum.split)
next
  case (JobSnapshot c r s base)
  then show ?thesis by (simp add: run_snapshot_def Let_def)
next
  case (JobCompact c)
  then show ?thesis by (simp add: maybeAutoCompact_def Let_def split: sum.split option.split)
qed

end
