(* ===== verification/HubInv.thy ===== *)
theory HubInv
  imports Frames
begin

text \<open>
  The invariant of the hub's state and the few elementary changes the operations are made of:
  each keeps the invariant, so an operation keeps it because it is a sequence of these changes
  and of quiet ones.
\<close>

section \<open>The invariant\<close>

definition role_for :: "room \<Rightarrow> string \<Rightarrow> string" where
  "role_for room i = (if i = rHostID room then ''host'' else ''collaborator'')"

text \<open>A client in a room's map: stored under its id, in its read loop, open, with its true role.\<close>

definition member_ok :: "world \<Rightarrow> nat \<Rightarrow> string \<Rightarrow> nat \<Rightarrow> bool" where
  "member_ok w r i c \<longleftrightarrow>
     i \<noteq> [] \<and> c < wNextClient w \<and> cID (wClient w c) = i \<and> wPhase w c = Reading r \<and>
     \<not> cClosed (wClient w c) \<and> userID (cUser (wClient w c)) = i \<and>
     userRole (cUser (wClient w c)) = role_for (wRoom w r) i"

definition in_join :: "phase \<Rightarrow> nat \<Rightarrow> nat \<Rightarrow> bool" where
  "in_join ph r p \<longleftrightarrow> ph = Waiting r p \<or> (\<exists>d. ph = Decided r p d)"

definition pending_ok :: "world \<Rightarrow> nat \<Rightarrow> string \<Rightarrow> nat \<Rightarrow> bool" where
  "pending_ok w r i p \<longleftrightarrow>
     i \<noteq> [] \<and> p < wNextPending w \<and> pjClient (wPending w p) < wNextClient w \<and>
     cID (wClient w (pjClient (wPending w p))) = i \<and> in_join (wPhase w (pjClient (wPending w p))) r p"

definition keys_ok :: "room \<Rightarrow> bool" where
  "keys_ok room \<longleftrightarrow> distinct (keys (rClients room)) \<and> distinct (keys (rPending room)) \<and>
     (\<forall>i c p. (i, c) \<in> set (rClients room) \<longrightarrow> (i, p) \<notin> set (rPending room))"

definition host_ok :: "room \<Rightarrow> bool" where
  "host_ok room \<longleftrightarrow>
     (rHostID room = [] \<longrightarrow> rClients room = [] \<and> rPending room = [] \<and> \<not> rClosed room) \<and>
     (rClosed room \<longrightarrow> rClients room = [] \<and> rPending room = [])"

definition room_ok :: "world \<Rightarrow> nat \<Rightarrow> bool" where
  "room_ok w r \<longleftrightarrow> keys_ok (wRoom w r) \<and> host_ok (wRoom w r) \<and>
     (\<forall>i c. (i, c) \<in> set (rClients (wRoom w r)) \<longrightarrow> member_ok w r i c) \<and>
     (\<forall>i p. (i, p) \<in> set (rPending (wRoom w r)) \<longrightarrow> pending_ok w r i p)"

definition joining_ok :: "world \<Rightarrow> nat \<Rightarrow> nat \<Rightarrow> nat \<Rightarrow> bool" where
  "joining_ok w c r p \<longleftrightarrow>
     r < wNextRoom w \<and> p < wNextPending w \<and> cRoomID (wClient w c) = rID (wRoom w r) \<and>
     cID (wClient w c) \<noteq> [] \<and> \<not> cClosed (wClient w c) \<and> userID (cUser (wClient w c)) = cID (wClient w c) \<and>
     userRole (cUser (wClient w c)) = ''collaborator'' \<and> pjClient (wPending w p) = c \<and>
     rHostID (wRoom w r) \<noteq> [] \<and>
     (rClosed (wRoom w r) \<or> (cID (wClient w c), p) \<in> set (rPending (wRoom w r)))"

definition in_room :: "world \<Rightarrow> nat \<Rightarrow> nat \<Rightarrow> bool" where
  "in_room w c r \<longleftrightarrow> r < wNextRoom w \<and> cRoomID (wClient w c) = rID (wRoom w r)"

definition phase_ok :: "world \<Rightarrow> nat \<Rightarrow> bool" where
  "phase_ok w c = (case wPhase w c of
       Authed _ \<Rightarrow> cID (wClient w c) \<noteq> [] \<and> \<not> cClosed (wClient w c)
     | Entering r _ \<Rightarrow> cID (wClient w c) \<noteq> [] \<and> \<not> cClosed (wClient w c) \<and> in_room w c r
     | Waiting r p \<Rightarrow> joining_ok w c r p
     | Decided r p _ \<Rightarrow> joining_ok w c r p
     | Reading r \<Rightarrow> in_room w c r
     | Leaving r _ \<Rightarrow> in_room w c r
     | Gone \<Rightarrow> True)"

definition rooms_ok :: "world \<Rightarrow> bool" where
  "rooms_ok w \<longleftrightarrow> distinct (keys (wRooms w)) \<and>
     (\<forall>i r. (i, r) \<in> set (wRooms w) \<longrightarrow> r < wNextRoom w \<and> rID (wRoom w r) = i)"

definition hub_inv :: "world \<Rightarrow> bool" where
  "hub_inv w \<longleftrightarrow> rooms_ok w \<and> (\<forall>r < wNextRoom w. room_ok w r) \<and> (\<forall>c < wNextClient w. phase_ok w c)"

lemmas inv_defs = rooms_ok_def room_ok_def keys_ok_def host_ok_def phase_ok_def joining_ok_def in_room_def
lemmas entry_defs = member_ok_def pending_ok_def

lemma hub_invD:
  assumes "hub_inv w"
  shows "rooms_ok w" "r < wNextRoom w \<Longrightarrow> room_ok w r" "c < wNextClient w \<Longrightarrow> phase_ok w c"
  using assms by (auto simp: hub_inv_def)

lemma room_okD:
  assumes "room_ok w r"
  shows "keys_ok (wRoom w r)" "host_ok (wRoom w r)"
    "(i, c) \<in> set (rClients (wRoom w r)) \<Longrightarrow> member_ok w r i c"
    "(i, p) \<in> set (rPending (wRoom w r)) \<Longrightarrow> pending_ok w r i p"
  using assms by (auto simp: room_ok_def)

lemma inv_quiet:
  assumes "hub_inv w" and "quiet w w'"
  shows "hub_inv w'"
proof -
  note sel = quiet_sel [OF assms(2)]
  have "member_ok w' = member_ok w" "pending_ok w' = pending_ok w" "joining_ok w' = joining_ok w"
    "in_room w' = in_room w"
    unfolding fun_eq_iff entry_defs joining_ok_def in_room_def sel by simp_all
  moreover from this have "phase_ok w' = phase_ok w"
    unfolding fun_eq_iff phase_ok_def sel by (simp split: phase.split)
  ultimately show ?thesis
    using assms(1) unfolding hub_inv_def rooms_ok_def room_ok_def sel by simp
qed

section \<open>Quiet changes below a setter\<close>

lemma quiet_set_phase: "quiet w w' \<Longrightarrow> quiet (set_phase c ph w) (set_phase c ph w')"
  by (simp add: quiet_def)

lemma quiet_set_room: "quiet w w' \<Longrightarrow> quiet (set_room r x w) (set_room r x w')"
  by (simp add: quiet_def)

lemma quiet_shutdown: "quiet w w' \<Longrightarrow> quiet (shutdown_client c w) (shutdown_client c w')"
  by (simp add: quiet_def ident_def)

section \<open>Elementary changes\<close>

definition member :: "world \<Rightarrow> nat \<Rightarrow> bool" where
  "member w c \<longleftrightarrow> (\<exists>r < wNextRoom w. \<exists>i. (i, c) \<in> set (rClients (wRoom w r)))"

lemma memberD:
  assumes "hub_inv w" and "member w c"
  obtains r where "r < wNextRoom w" "wPhase w c = Reading r"
    "(cID (wClient w c), c) \<in> set (rClients (wRoom w r))" "c < wNextClient w" "\<not> cClosed (wClient w c)"
  using assms by (fastforce simp: member_def hub_inv_def room_ok_def member_ok_def)

lemma not_member_phase:
  assumes "hub_inv w" and "\<And>r. wPhase w c \<noteq> Reading r"
  shows "\<not> member w c"
  using assms by (metis memberD)

lemma member_at:
  assumes "hub_inv w" "r < wNextRoom w" "map_of (rClients (wRoom w r)) i = Some c"
  shows "member w c" "member_ok w r i c"
  using assms by (auto simp: member_def hub_inv_def room_ok_def dest!: map_of_SomeD)

text \<open>
  A change to one room and one connection keeps the invariant when it does so for that room,
  that connection and those waiting to join that room.
\<close>

lemma inv_change:
  assumes inv: "hub_inv w"
    and size: "wRooms w' = wRooms w" "wNextRoom w' = wNextRoom w" "wNextClient w' = wNextClient w"
      "wNextPending w \<le> wNextPending w'"
    and room: "\<And>q. q \<noteq> r \<Longrightarrow> wRoom w' q = wRoom w q" "rID (wRoom w' r) = rID (wRoom w r)"
    and client: "\<And>k. k \<noteq> c \<Longrightarrow> ident (wClient w' k) = ident (wClient w k)"
      "\<And>k. k \<noteq> c \<Longrightarrow> wPhase w' k = wPhase w k"
    and pend: "\<And>p. p < wNextPending w \<Longrightarrow> pjClient (wPending w' p) = pjClient (wPending w p)"
    and home: "\<And>q p. c < wNextClient w \<Longrightarrow> q \<noteq> r \<Longrightarrow> wPhase w c \<noteq> Reading q \<and> \<not> in_join (wPhase w c) q p"
    and room_new: "r < wNextRoom w \<Longrightarrow> room_ok w' r"
    and client_new: "c < wNextClient w \<Longrightarrow> phase_ok w' c"
    and join_new: "\<And>k p. k \<noteq> c \<Longrightarrow> joining_ok w k r p \<Longrightarrow> joining_ok w' k r p"
  shows "hub_inv w'"
proof -
  have "room_ok w' q" if q: "q < wNextRoom w" for q
  proof (cases "q = r")
    case False
    have old: "room_ok w q" by (rule hub_invD(2) [OF inv q])
    have "member_ok w' q i k" if "(i, k) \<in> set (rClients (wRoom w q))" for i k
    proof -
      have m: "member_ok w q i k" using old that by (rule room_okD(3))
      then have "k \<noteq> c" using home [OF _ False] by (auto simp: member_ok_def)
      with m False show ?thesis
        by (simp add: member_ok_def size room client ident_eqD [OF client(1)])
    qed
    moreover have "pending_ok w' q i p" if "(i, p) \<in> set (rPending (wRoom w q))" for i p
    proof -
      have m: "pending_ok w q i p" using old that by (rule room_okD(4))
      then have "pjClient (wPending w p) \<noteq> c" using home [OF _ False] by (auto simp: pending_ok_def)
      with m False show ?thesis
        by (simp add: pending_ok_def size order_less_le_trans [OF _ size(4)] pend client ident_eqD [OF client(1)])
    qed
    ultimately show ?thesis using old room(1) [OF False] by (simp add: room_ok_def)
  qed (use that room_new in simp)
  moreover have "phase_ok w' k" if k: "k < wNextClient w" for k
  proof (cases "k = c")
    case False
    have old: "phase_ok w k" by (rule hub_invD(3) [OF inv k])
    have rid: "rID (wRoom w' q) = rID (wRoom w q)" for q by (cases "q = r") (simp_all add: room)
    have "joining_ok w' k q p" if "joining_ok w k q p" for q p
    proof (cases "q = r")
      case other: False
      with that False show ?thesis
        by (auto simp: joining_ok_def size order_less_le_trans [OF _ size(4)] room pend ident_eqD [OF client(1)])
    qed (use that False join_new in simp)
    with old False rid show ?thesis
      by (auto simp: phase_ok_def in_room_def size client ident_eqD [OF client(1)] split: phase.splits)
  qed (use k client_new in simp)
  moreover have "rID (wRoom w' q) = rID (wRoom w q)" for q by (cases "q = r") (simp_all add: room)
  ultimately show ?thesis using hub_invD(1) [OF inv] by (simp add: hub_inv_def rooms_ok_def size)
qed

text \<open>A connection that is in no map may change freely, as long as its own phase stays in order.\<close>

lemma inv_outsider:
  assumes inv: "hub_inv w"
    and same: "wRooms w' = wRooms w" "wNextRoom w' = wNextRoom w" "wNextClient w' = wNextClient w"
      "wNextPending w' = wNextPending w" "wRoom w' = wRoom w" "wPending w' = wPending w"
    and client: "\<And>k. k \<noteq> c \<Longrightarrow> ident (wClient w' k) = ident (wClient w k)"
      "\<And>k. k \<noteq> c \<Longrightarrow> wPhase w' k = wPhase w k"
    and out: "\<And>q p. wPhase w c \<noteq> Reading q \<and> \<not> in_join (wPhase w c) q p"
    and client_new: "c < wNextClient w \<Longrightarrow> phase_ok w' c"
  shows "hub_inv w'"
proof (rule inv_change [OF inv, of w' 0 c])
  assume q: "0 < wNextRoom w"
  have old: "room_ok w 0" by (rule hub_invD(2) [OF inv q])
  have "member_ok w' 0 i k" if "(i, k) \<in> set (rClients (wRoom w 0))" for i k
  proof -
    have m: "member_ok w 0 i k" using old that by (rule room_okD(3))
    then have "k \<noteq> c" using out by (auto simp: member_ok_def)
    with m show ?thesis by (simp add: member_ok_def same client ident_eqD [OF client(1)])
  qed
  moreover have "pending_ok w' 0 i p" if "(i, p) \<in> set (rPending (wRoom w 0))" for i p
  proof -
    have m: "pending_ok w 0 i p" using old that by (rule room_okD(4))
    then have "pjClient (wPending w p) \<noteq> c" using out by (auto simp: pending_ok_def)
    with m show ?thesis by (simp add: pending_ok_def same client ident_eqD [OF client(1)])
  qed
  ultimately show "room_ok w' 0" using old by (simp add: room_ok_def same)
next
  fix k p assume "k \<noteq> c" "joining_ok w k 0 p"
  then show "joining_ok w' k 0 p" by (simp add: joining_ok_def same ident_eqD [OF client(1)])
qed (use assms in simp_all)

section \<open>joinRoom\<close>

lemma phase_in_join [simp]:
  "in_join (Waiting r p) q s \<longleftrightarrow> r = q \<and> p = s" "in_join (Decided r p d) q s \<longleftrightarrow> r = q \<and> p = s"
  "\<not> in_join (Reading r) q s" "\<not> in_join (Authed st) q s" "\<not> in_join (Entering r st) q s"
  "\<not> in_join Gone q s" "\<not> in_join (Leaving r info) q s"
  by (auto simp: in_join_def)

lemma reject_sel [simp]:
  "wRooms (reject slot st c why w) = wRooms w" "wRoom (reject slot st c why w) = wRoom w"
  "wNextRoom (reject slot st c why w) = wNextRoom w" "wPending (reject slot st c why w) = wPending w"
  "wNextPending (reject slot st c why w) = wNextPending w"
  "wPhase (reject slot st c why w) = (wPhase w)(c := Gone)"
  "wNextClient (reject slot st c why w) = wNextClient w"
  "k \<noteq> c \<Longrightarrow> ident (wClient (reject slot st c why w) k) = ident (wClient w k)"
  by (simp_all add: reject_def)

lemma inv_reject_outsider:
  assumes "hub_inv w" and "\<And>q p. wPhase w c \<noteq> Reading q \<and> \<not> in_join (wPhase w c) q p"
  shows "hub_inv (reject slot st c why (set_client c x w))"
  by (rule inv_outsider [OF assms(1), of _ c]) (simp_all add: assms(2) phase_ok_def)

lemma inv_reject_outsider0:
  assumes "hub_inv w" and "\<And>q p. wPhase w c \<noteq> Reading q \<and> \<not> in_join (wPhase w c) q p"
  shows "hub_inv (reject slot st c why w)"
  by (rule inv_outsider [OF assms(1), of _ c]) (simp_all add: assms(2) phase_ok_def)

text \<open>\<open>h.room\<close> adds at most one room, empty and fresh.\<close>

lemma inv_hub_room:
  assumes inv: "hub_inv w" and "hub_room cfg i w = (Some r, w')"
  shows "hub_inv w' \<and> r < wNextRoom w' \<and> rID (wRoom w' r) = i \<and> wPhase w' = wPhase w \<and>
    wNextClient w' = wNextClient w \<and> wClient w' = wClient w"
proof (cases "map_of (wRooms w) i")
  case (Some q)
  with assms have "r = q" "w' = w" by (simp_all add: hub_room_def)
  moreover have "q < wNextRoom w \<and> rID (wRoom w q) = i"
    using hub_invD(1) [OF inv] Some by (auto simp: rooms_ok_def dest!: map_of_SomeD)
  ultimately show ?thesis using inv by simp
next
  case None
  define n where "n = wNextRoom w"
  have w': "w' = (set_room n (empty_room i) w)\<lparr>wRooms := AList.update i n (wRooms w), wNextRoom := Suc n\<rparr>"
    and r: "r = n"
    using assms(2) None by (auto simp: hub_room_def Let_def n_def split: if_splits)
  have sel: "wNextRoom w' = Suc n" "wRoom w' = (wRoom w)(n := empty_room i)" "wClient w' = wClient w"
    "wPhase w' = wPhase w" "wPending w' = wPending w" "wNextPending w' = wNextPending w"
    "wNextClient w' = wNextClient w" "wRooms w' = wRooms w @ [(i, n)]"
    using None by (simp_all add: w' update_fresh map_of_eq_None_iff)
  have rooms: "rooms_ok w'"
    using hub_invD(1) [OF inv] None unfolding rooms_ok_def sel
    by (auto simp: n_def map_of_eq_None_iff empty_room_def intro: less_SucI)
  have old: "member_ok w' q = member_ok w q" "pending_ok w' q = pending_ok w q" "wRoom w' q = wRoom w q"
    if "q < n" for q
    using that by (simp_all add: fun_eq_iff entry_defs sel)
  have "room_ok w' q" if "q < Suc n" for q
  proof (cases "q = n")
    case False
    with that have "q < n" by simp
    with hub_invD(2) [OF inv, of q] show ?thesis by (simp add: room_ok_def old n_def)
  qed (simp add: room_ok_def sel empty_room_def keys_ok_def host_ok_def)
  moreover have "phase_ok w' k" if "k < wNextClient w" for k
    using hub_invD(3) [OF inv that]
    by (auto simp: phase_ok_def joining_ok_def in_room_def sel n_def split: phase.splits)
  ultimately show ?thesis
    using rooms r by (simp add: hub_inv_def sel empty_room_def)
qed

lemma hub_room_None: "hub_room cfg i w = (None, w') \<Longrightarrow> w' = w"
  by (auto simp: hub_room_def Let_def split: option.splits if_splits)

lemma inv_lookup:
  assumes inv: "hub_inv w" and c: "c < wNextClient w" and ph: "wPhase w c = Authed state"
  shows "hub_inv (joinRoom_lookup cfg slot st c state w)"
proof -
  have own: "cID (wClient w c) \<noteq> []" "\<not> cClosed (wClient w c)"
    using hub_invD(3) [OF inv c] ph by (simp_all add: phase_ok_def)
  obtain ro w' where hr: "hub_room cfg (cRoomID (wClient w c)) w = (ro, w')" by fastforce
  show ?thesis
  proof (cases ro)
    case None
    with hr ph show ?thesis
      using hub_room_None [OF hr [unfolded None]]
      by (simp add: joinRoom_lookup_def inv_reject_outsider0 [OF inv])
  next
    case (Some r)
    note new = inv_hub_room [OF inv hr [unfolded Some]]
    have "hub_inv (set_phase c (Entering r state) w')"
      by (rule inv_outsider [of w' _ c]) (use new own ph in \<open>simp_all add: phase_ok_def in_room_def\<close>)
    with hr Some show ?thesis by (simp add: joinRoom_lookup_def)
  qed
qed

end
