(* ===== verification/JoinInv.thy ===== *)
theory JoinInv
  imports HubInv
begin

text \<open>
  Every step of \<open>joinRoom\<close> keeps the hub's invariant.  The client ids drawn by
  \<open>uniqueClientIDLocked\<close> are taken to be free: its last resort, after eight taken candidates or
  when the random source failed, is not checked by the code.
\<close>

section \<open>uniqueClientIDLocked\<close>

lemma unique_candidate_nonempty: "unique_candidate rnd room base is \<noteq> []"
  by (induction "is") (simp_all add: Let_def)

lemma uniqueClientID_nonempty: "base \<noteq> [] \<Longrightarrow> uniqueClientIDLocked rnd room base \<noteq> []"
  by (simp add: uniqueClientIDLocked_def unique_candidate_nonempty)

definition candidate_id :: "(nat \<Rightarrow> bytes option) \<Rightarrow> string \<Rightarrow> nat \<Rightarrow> string" where
  "candidate_id rnd base i = base @ ''-'' @ take 8 (trim_prefix (NewID ''c'' (rnd i)) ''c-'')"

lemma unique_candidate_free:
  "\<exists>i \<in> set is. \<not> id_taken room (candidate_id rnd base i) \<Longrightarrow>
   \<not> id_taken room (unique_candidate rnd room base is)"
  by (induction "is") (auto simp: Let_def candidate_id_def)

section \<open>Entering\<close>

lemma enter_phase:
  assumes "hub_inv w" "c < wNextClient w" "wPhase w c = Entering r state"
  shows "cID (wClient w c) \<noteq> []" "\<not> cClosed (wClient w c)" "r < wNextRoom w"
    "cRoomID (wClient w c) = rID (wRoom w r)"
  using hub_invD(3) [OF assms(1,2)] assms(3) by (simp_all add: phase_ok_def in_room_def)

lemma inv_join_as_host:
  assumes inv: "hub_inv w" and c: "c < wNextClient w" and ph: "wPhase w c = Entering r state"
    and noid: "rHostID (wRoom w r) = []" and x: "cID x \<noteq> []" "\<not> cClosed x" "cRoomID x = cRoomID (wClient w c)"
      "userID (cUser x) = cID x" "userRole (cUser x) = ''host''"
  shows "hub_inv (join_as_host slot st c state r (set_client c x w))" (is "hub_inv ?w")
proof -
  note own = enter_phase [OF inv c ph]
  have room: "room_ok w r" by (rule hub_invD(2) [OF inv own(3)])
  then have empty: "rClients (wRoom w r) = []" "rPending (wRoom w r) = []" "\<not> rClosed (wRoom w r)"
    using noid by (simp_all add: room_ok_def host_ok_def)
  have sel: "wRooms ?w = wRooms w" "wNextRoom ?w = wNextRoom w" "wNextClient ?w = wNextClient w"
    "wNextPending ?w = wNextPending w" "wPending ?w = wPending w" "wPhase ?w = (wPhase w)(c := Reading r)"
    "wRoom ?w = (wRoom w)(r := (wRoom w r)\<lparr>rHostID := cID x, rClients := [(cID x, c)]\<rparr>)"
    by (simp_all add: join_as_host_def Let_def empty)
  have cl: "ident (wClient ?w k) = ident (((wClient w)(c := x)) k)" for k
    by (simp add: join_as_host_def Let_def)
  show ?thesis
  proof (rule inv_change [OF inv, of _ r c])
    show "room_ok ?w r"
      using x c empty
      by (simp add: room_ok_def sel keys_ok_def host_ok_def member_ok_def ident_eqD [OF cl] role_for_def)
    show "phase_ok ?w c"
      using x own by (simp add: phase_ok_def sel in_room_def ident_eqD [OF cl])
    fix k p
    assume "joining_ok w k r p"
    then show "joining_ok ?w k r p"
      using noid by (simp add: joining_ok_def)
  qed (simp_all add: sel ph ident_eqD(1) [OF cl] cl)
qed

lemma join_pending_sel:
  fixes slot :: slots and st :: stamps and w0 r state c now reqrnd
  defines "w \<equiv> join_as_pending slot st reqrnd now c state r w0"
    and "i \<equiv> cID (wClient w0 c)"
  shows "wRooms w = wRooms w0" "wNextRoom w = wNextRoom w0" "wNextClient w = wNextClient w0"
    "wNextPending w = Suc (wNextPending w0)"
    "wRoom w = (wRoom w0)(r := (wRoom w0 r)\<lparr>rPending := AList.update i (wNextPending w0) (rPending (wRoom w0 r))\<rparr>)"
    "pjClient (wPending w p) = (if p = wNextPending w0 then c else pjClient (wPending w0 p))"
    "wPhase w = (wPhase w0)(c := Waiting r (wNextPending w0))"
    "ident (wClient w k) = ident (wClient w0 k)"
  by (simp_all add: w_def i_def join_as_pending_def Let_def quiet_sel split: option.split)

lemma inv_join_as_pending:
  assumes inv: "hub_inv w" and c: "c < wNextClient w" and ph: "wPhase w c = Entering r state"
    and host: "rHostID (wRoom w r) \<noteq> []" "\<not> rClosed (wRoom w r)"
    and x: "cID x \<noteq> []" "\<not> cClosed x" "cRoomID x = cRoomID (wClient w c)"
      "userID (cUser x) = cID x" "userRole (cUser x) = ''collaborator''"
    and free: "\<not> id_taken (wRoom w r) (cID x)"
  shows "hub_inv (join_as_pending slot st reqrnd now c state r (set_client c x w))" (is "hub_inv ?w")
proof -
  note own = enter_phase [OF inv c ph]
  note sel = join_pending_sel [of slot st reqrnd now c state r "set_client c x w", simplified]
  let ?n = "wNextPending w"
  have old: "room_ok w r" by (rule hub_invD(2) [OF inv own(3)])
  have fresh: "cID x \<notin> set (keys (rClients (wRoom w r)))" "cID x \<notin> set (keys (rPending (wRoom w r)))"
    using free by (simp_all add: id_taken_def map_of_eq_None_iff)
  have upd: "AList.update (cID x) ?n (rPending (wRoom w r)) = rPending (wRoom w r) @ [(cID x, ?n)]"
    using fresh(2) by (simp add: update_fresh map_of_eq_None_iff)
  have room: "room_ok ?w r"
  proof -
    have "member_ok ?w r i k" if "(i, k) \<in> set (rClients (wRoom w r))" for i k
    proof -
      have m: "member_ok w r i k" using old that by (rule room_okD(3))
      with ph have "k \<noteq> c" by (auto simp: member_ok_def)
      with m show ?thesis by (simp add: member_ok_def sel role_for_def ident_eqD [OF sel(8)])
    qed
    moreover have "pending_ok ?w r i p" if "(i, p) \<in> set (rPending (wRoom w r))" for i p
    proof -
      have m: "pending_ok w r i p" using old that by (rule room_okD(4))
      with ph have "pjClient (wPending w p) \<noteq> c" by (auto simp: pending_ok_def)
      with m show ?thesis by (simp add: pending_ok_def sel ident_eqD [OF sel(8)])
    qed
    moreover have "pending_ok ?w r (cID x) ?n"
      using x c by (simp add: pending_ok_def sel ident_eqD [OF sel(8)])
    ultimately show ?thesis
      using old fresh host by (auto simp: room_ok_def sel upd keys_ok_def host_ok_def image_iff)
  qed
  show ?thesis
  proof (rule inv_change [OF inv, of _ r c])
    show "phase_ok ?w c"
      using x own host by (simp add: phase_ok_def joining_ok_def sel upd ident_eqD [OF sel(8)])
    fix k p
    assume "k \<noteq> c" "joining_ok w k r p"
    then show "joining_ok ?w k r p"
      by (auto simp: joining_ok_def sel upd ident_eqD [OF sel(8)])
  qed (use room in \<open>simp_all add: sel ph\<close>)
qed

lemma inv_enter:
  assumes inv: "hub_inv w" and c: "c < wNextClient w" and ph: "wPhase w c = Entering r state"
    and free: "\<not> id_taken (wRoom w r) (uniqueClientIDLocked rnd (wRoom w r) (cID (wClient w c)))"
  shows "hub_inv (joinRoom_enter cfg slot st rnd reqrnd now c r state w)"
  using enter_phase [OF inv c ph] uniqueClientID_nonempty [of "cID (wClient w c)" rnd "wRoom w r"] free ph
  by (simp add: joinRoom_enter_def Let_def setUser_def getUser_def inv_join_as_host [OF inv c ph]
      inv_join_as_pending [OF inv c ph] inv_reject_outsider [OF inv])

section \<open>The decision\<close>

lemma joining_phase:
  assumes "hub_inv w" "c < wNextClient w" "in_join (wPhase w c) r p"
  shows "joining_ok w c r p"
  using hub_invD(3) [OF assms(1,2)] assms(3) by (auto simp: in_join_def phase_ok_def)

lemma inv_wait:
  assumes inv: "hub_inv w" and c: "c < wNextClient w" and ph: "wPhase w c = Waiting r p"
    and same: "wRooms w' = wRooms w" "wNextRoom w' = wNextRoom w" "wNextClient w' = wNextClient w"
      "wNextPending w' = wNextPending w" "wRoom w' = wRoom w" "wClient w' = wClient w"
      "wPhase w' = (wPhase w)(c := Decided r p d)"
    and pend: "\<And>q. pjClient (wPending w' q) = pjClient (wPending w q)"
  shows "hub_inv w'"
proof -
  have join: "joining_ok w c r p" using joining_phase [OF inv c] ph by simp
  have old: "room_ok w r" using hub_invD(2) [OF inv] join by (simp add: joining_ok_def)
  have "in_join (wPhase w' k) q s = in_join (wPhase w k) q s" for k q s
    using ph by (simp add: same)
  then have "pending_ok w' = pending_ok w" "joining_ok w' = joining_ok w"
    by (simp_all add: fun_eq_iff pending_ok_def joining_ok_def same pend)
  moreover have "member_ok w' r i k = member_ok w r i k" for i k
    using ph by (simp add: member_ok_def same)
  ultimately show ?thesis
    using old join
    by (intro inv_change [OF inv, of _ r c]) (simp_all add: same pend ph room_ok_def phase_ok_def)
qed

lemma inv_decision:
  assumes "hub_inv w" "c < wNextClient w" "wPhase w c = Waiting r p"
  shows "hub_inv (receive_decision c r p d w)" "hub_inv (approval_timeout c r p w)"
  by (rule inv_wait [OF assms], simp_all add: receive_decision_def approval_timeout_def)+

section \<open>The end of joinRoom\<close>

text \<open>The client leaves the pending map; what it becomes depends on the branch taken.\<close>

lemma pending_deleted:
  assumes "keys_ok room"
  shows "keys_ok (room\<lparr>rPending := AList.delete i (rPending room)\<rparr>)"
    "host_ok room \<Longrightarrow> host_ok (room\<lparr>rPending := AList.delete i (rPending room)\<rparr>)"
  using assms by (auto simp: keys_ok_def host_ok_def)

lemma inv_finish_change:
  fixes w r i
  defines "room \<equiv> (wRoom w r)\<lparr>rPending := AList.delete i (rPending (wRoom w r))\<rparr>"
  assumes inv: "hub_inv w" and c: "c < wNextClient w" and join: "in_join (wPhase w c) r p"
    and i: "i = cID (wClient w c)"
    and same: "wRooms w' = wRooms w" "wNextRoom w' = wNextRoom w" "wNextClient w' = wNextClient w"
      "wNextPending w' = wNextPending w" "wPending w' = wPending w"
    and room: "wRoom w' = (wRoom w)(r := room\<lparr>rClients := cs\<rparr>)"
    and phase: "wPhase w' = (wPhase w)(c := ph)"
    and client: "\<And>k. k \<noteq> c \<Longrightarrow> ident (wClient w' k) = ident (wClient w k)"
    and outcome: "cs = rClients (wRoom w r) \<and> ph = Gone \<or>
      cs = rClients (wRoom w r) @ [(i, c)] \<and> ph = Reading r \<and> \<not> rClosed (wRoom w r) \<and>
      has_key (rClients (wRoom w r)) (rHostID (wRoom w r)) \<and> ident (wClient w' c) = ident (wClient w c)"
  shows "hub_inv w'"
proof -
  have j: "joining_ok w c r p" by (rule joining_phase [OF inv c join])
  then have r: "r < wNextRoom w" by (simp add: joining_ok_def)
  have old: "room_ok w r" by (rule hub_invD(2) [OF inv r])
  have new_members: "member_ok w' r k m" if "(k, m) \<in> set (rClients (wRoom w r))" for k m
  proof -
    have mo: "member_ok w r k m" using old that by (rule room_okD(3))
    then have "m \<noteq> c" using join by (auto simp: member_ok_def)
    with mo show ?thesis
      by (simp add: member_ok_def same room phase role_for_def room_def ident_eqD [OF client])
  qed
  have new_pending: "pending_ok w' r k q" if "(k, q) \<in> set (rPending (wRoom w r))" "k \<noteq> i" for k q
  proof -
    have po: "pending_ok w r k q" using old that(1) by (rule room_okD(4))
    then have "pjClient (wPending w q) \<noteq> c" using i that(2) by (auto simp: pending_ok_def)
    with po show ?thesis
      by (simp add: pending_ok_def same phase ident_eqD [OF client])
  qed
  have fresh: "\<not> rClosed (wRoom w r) \<Longrightarrow> i \<notin> set (keys (rClients (wRoom w r)))"
    using room_okD(1) [OF old] j i by (auto simp: keys_ok_def joining_ok_def)
  have "room_ok w' r"
    using outcome
  proof
    assume "cs = rClients (wRoom w r) \<and> ph = Gone"
    with old new_members new_pending pending_deleted [of "wRoom w r" i] show ?thesis
      by (auto simp: room_ok_def room room_def alist_delete_filter)
  next
    assume o: "cs = rClients (wRoom w r) @ [(i, c)] \<and> ph = Reading r \<and> \<not> rClosed (wRoom w r) \<and>
      has_key (rClients (wRoom w r)) (rHostID (wRoom w r)) \<and> ident (wClient w' c) = ident (wClient w c)"
    then have "rHostID (wRoom w r) \<noteq> i"
      using fresh by (auto simp: map_of_eq_None_iff)
    with o j i c have "member_ok w' r i c"
      by (simp add: member_ok_def same phase room room_def role_for_def joining_ok_def
          ident_eqD [of "wClient w' c" "wClient w c"])
    moreover have "keys_ok (wRoom w' r)" "host_ok (wRoom w' r)"
      using old o fresh by (auto simp: room_ok_def keys_ok_def host_ok_def room room_def joining_ok_def)
    ultimately show ?thesis
      using new_members new_pending o by (auto simp: room_ok_def room room_def alist_delete_filter)
  qed
  moreover have "phase_ok w' c"
    using outcome j by (auto simp: phase_ok_def phase in_room_def joining_ok_def same room room_def
        dest: ident_eqD(2))
  moreover have "joining_ok w' k r q" if "k \<noteq> c" "joining_ok w k r q" for k q
  proof -
    have "(cID (wClient w k), q) \<in> set (rPending (wRoom w r)) \<Longrightarrow> cID (wClient w k) \<noteq> i \<or> rClosed (wRoom w r)"
      using old j i that by (auto simp: room_ok_def keys_ok_def joining_ok_def dest: eq_key_imp_eq_value)
    with that show ?thesis
      by (auto simp: joining_ok_def same room room_def ident_eqD [OF client] alist_delete_filter)
  qed
  ultimately show ?thesis
    using join by (intro inv_change [OF inv, of _ r c])
      (auto simp: same room room_def phase client in_join_def)
qed

lemma inv_finish:
  assumes inv: "hub_inv w" and c: "c < wNextClient w" and ph: "wPhase w c = Decided r p d"
  shows "hub_inv (joinRoom_finish slot st c r p d w)"
proof -
  let ?i = "cID (wClient w c)"
  let ?room = "(wRoom w r)\<lparr>rPending := AList.delete ?i (rPending (wRoom w r))\<rparr>"
  have join: "in_join (wPhase w c) r p" using ph by simp
  have j: "joining_ok w c r p" by (rule joining_phase [OF inv c join])
  note change = inv_finish_change [OF inv c join refl]
  show ?thesis
  proof (cases "rClosed (wRoom w r) \<or> host_gone ?room \<or> \<not> approved d")
    case True
    have "hub_inv (reject slot (st 0) c why (set_room r ?room w))" for why
      by (rule change [where cs = "rClients (wRoom w r)" and ph = Gone]) simp_all
    with True show ?thesis by (auto simp: joinRoom_finish_def Let_def)
  next
    case False
    have fresh: "?i \<notin> set (keys (rClients (wRoom w r)))"
      using room_okD(1) [OF hub_invD(2) [OF inv, of r]] j False
      by (auto simp: keys_ok_def joining_ok_def)
    from False fresh have "AList.update ?i c (rClients ?room) = rClients (wRoom w r) @ [(?i, c)]"
      by (simp add: update_fresh map_of_eq_None_iff)
    then obtain e env where eq: "joinRoom_finish slot st c r p d w =
        set_phase c (Reading r) (broadcast slot env r ?i (queue_to slot e c
          (set_room r (?room\<lparr>rClients := rClients (wRoom w r) @ [(?i, c)]\<rparr>) (set_room r ?room w))))"
      using False unfolding joinRoom_finish_def Let_def by auto
    have "hub_inv \<dots>"
      using False j
      by (intro change [where cs = "rClients (wRoom w r) @ [(?i, c)]" and ph = "Reading r"])
        (simp_all add: host_gone_def joining_ok_def)
    then show ?thesis by (simp only: eq)
  qed
qed

end
