(* ===== verification/LeaveInv.thy ===== *)
theory LeaveInv
  imports JoinInv
begin

text \<open>
  The handlers that change more than queues, \<open>tryHostMigrationLocked\<close> and \<open>leaveRoom\<close> keep the
  hub's invariant.
\<close>

section \<open>Elementary changes\<close>

lemma inv_room_change:
  assumes inv: "hub_inv w"
    and size: "wRooms w' = wRooms w" "wNextRoom w' = wNextRoom w" "wNextClient w' = wNextClient w"
      "wNextPending w' = wNextPending w"
    and room: "wRoom w' = (wRoom w)(r := room)" "rID room = rID (wRoom w r)"
    and same: "wPhase w' = wPhase w" "\<And>k. ident (wClient w' k) = ident (wClient w k)"
      "\<And>p. pjClient (wPending w' p) = pjClient (wPending w p)"
    and new: "r < wNextRoom w \<Longrightarrow> room_ok w' r"
      "\<And>k p. joining_ok w k r p \<Longrightarrow> joining_ok w' k r p"
  shows "hub_inv w'"
  by (rule inv_change [OF inv, of _ r "wNextClient w"]) (simp_all add: size room same new)

lemma inv_remove_member:
  assumes inv: "hub_inv w"
  shows "hub_inv (set_room r ((wRoom w r)\<lparr>rClients := AList.delete i (rClients (wRoom w r))\<rparr>) w)"
    (is "hub_inv ?w")
proof (rule inv_room_change [OF inv, of _ r "(wRoom w r)\<lparr>rClients := AList.delete i (rClients (wRoom w r))\<rparr>"])
  assume "r < wNextRoom w"
  note old = hub_invD(2) [OF inv this]
  have same: "member_ok ?w r k c = member_ok w r k c" "pending_ok ?w r k p = pending_ok w r k p" for k c p
    by (simp_all add: entry_defs role_for_def)
  have "keys_ok (wRoom ?w r)" "host_ok (wRoom ?w r)"
    using room_okD(1,2) [OF old] by (simp_all add: keys_ok_def host_ok_def)
  then show "room_ok ?w r"
    using room_okD(3,4) [OF old] by (simp add: room_ok_def same)
qed (simp_all add: joining_ok_def)

text \<open>A connection that is out of its room's map may be shut down and leave.\<close>

lemma inv_silence:
  assumes inv: "hub_inv w" and out: "\<not> member w k" and ph: "wPhase w k = Reading r"
    and new: "ph = Reading r \<or> (\<exists>info. ph = Leaving r info)"
    and k: "k < wNextClient w"
  shows "hub_inv (set_phase k ph (shutdown_client k w))" (is "hub_inv ?w")
proof -
  have r: "in_room w k r" using hub_invD(3) [OF inv k] ph by (simp add: phase_ok_def)
  show ?thesis
  proof (rule inv_change [OF inv, of _ r k])
    assume q: "r < wNextRoom w"
    have "member_ok ?w r i c" if "(i, c) \<in> set (rClients (wRoom w r))" for i c
    proof -
      have "c \<noteq> k" using out that q by (auto simp: member_def)
      with room_okD(3) [OF hub_invD(2) [OF inv q] that] show ?thesis by (simp add: member_ok_def)
    qed
    moreover have "pending_ok ?w r i p" if "(i, p) \<in> set (rPending (wRoom w r))" for i p
    proof -
      have p: "pending_ok w r i p" using hub_invD(2) [OF inv q] that by (rule room_okD(4))
      then have "pjClient (wPending w p) \<noteq> k" using ph by (auto simp: pending_ok_def)
      with p show ?thesis by (simp add: pending_ok_def)
    qed
    ultimately show "room_ok ?w r" using hub_invD(2) [OF inv q] by (simp add: room_ok_def)
  next
    show "phase_ok ?w k"
      using new r by (auto simp: phase_ok_def in_room_def)
  qed (use r ph in \<open>auto simp: joining_ok_def in_room_def in_join_def\<close>)
qed

lemma inv_shutdown:
  assumes "hub_inv w" "\<not> member w k" "wPhase w k = Reading r" "k < wNextClient w"
  shows "hub_inv (shutdown_client k w)"
proof -
  have "set_phase k (Reading r) (shutdown_client k w) = shutdown_client k w"
    using assms(3) by (simp add: set_phase_def shutdown_client_def set_client_def fun_upd_idem)
  then show ?thesis using inv_silence [OF assms(1,2,3) disjI1 [OF refl] assms(4)] by simp
qed

text \<open>Nobody is left under a key that was deleted.\<close>

lemma not_member_deleted:
  assumes inv: "hub_inv w" and "cID (wClient w k) = i" and ph: "wPhase w k = Reading r"
  shows "\<not> member (set_room r ((wRoom w r)\<lparr>rClients := AList.delete i (rClients (wRoom w r))\<rparr>) w) k"
    (is "\<not> member ?w k")
proof
  assume "member ?w k"
  then obtain q where "wPhase w k = Reading q" "(cID (wClient w k), k) \<in> set (rClients (wRoom ?w q))"
    by (rule memberD [OF inv_remove_member [OF inv]]) auto
  with assms show False by auto
qed

section \<open>tryHostMigrationLocked\<close>

lemma earliest_props:
  "earliest h b cs = Some e \<Longrightarrow>
   (e \<in> set cs \<or> b = Some e) \<and> (\<forall>c \<in> set cs \<union> set_option b. cJoinedAt (h e) \<le> cJoinedAt (h c))"
proof (induction cs arbitrary: b)
  case (Cons a cs)
  then show ?case
    by (cases b) (force split: if_splits)+
qed simp

lemma earliest_None: "earliest h b cs = None \<longleftrightarrow> cs = [] \<and> b = None"
  by (induction cs arbitrary: b) (auto split: option.split)

lemma migration_None:
  "fst (tryHostMigrationLocked slot st r w) = False \<longleftrightarrow> rClients (wRoom w r) = []"
  by (auto simp: tryHostMigrationLocked_def Let_def earliest_None split: option.splits)

lemma migration_None_same:
  "rClients (wRoom w r) = [] \<Longrightarrow> tryHostMigrationLocked slot st r w = (False, w)"
  by (simp add: tryHostMigrationLocked_def)

lemma inv_migration:
  assumes inv: "hub_inv w" and r: "r < wNextRoom w"
    and left: "\<not> has_key (rClients (wRoom w r)) (rHostID (wRoom w r))"
  shows "hub_inv (snd (tryHostMigrationLocked slot st r w))"
proof (cases "earliest (wClient w) None (map snd (rClients (wRoom w r)))")
  case None
  with inv show ?thesis by (simp add: tryHostMigrationLocked_def Let_def)
next
  case (Some e)
  let ?w = "snd (tryHostMigrationLocked slot st r w)"
  let ?x = "setUser ((cUser (wClient w e))\<lparr>userRole := ''host''\<rparr>) (wClient w e)"
  have old: "room_ok w r" by (rule hub_invD(2) [OF inv r])
  from earliest_props [OF Some] obtain i where e: "(i, e) \<in> set (rClients (wRoom w r))" by auto
  have me: "member_ok w r i e" using old e by (rule room_okD(3))
  have sel: "wRooms ?w = wRooms w" "wNextRoom ?w = wNextRoom w" "wNextClient ?w = wNextClient w"
    "wNextPending ?w = wNextPending w" "wPending ?w = wPending w" "wPhase ?w = wPhase w"
    "wRoom ?w = (wRoom w)(r := (wRoom w r)\<lparr>rHostID := i\<rparr>)"
    using Some me by (simp_all add: tryHostMigrationLocked_def Let_def member_ok_def)
  have cl: "ident (wClient ?w k) = ident (((wClient w)(e := ?x)) k)" for k
    using Some by (simp add: tryHostMigrationLocked_def Let_def getUser_def)
  have cid: "cID (wClient ?w k) = cID (wClient w k)" for k
    using ident_eqD(1) [OF cl, of k] by (cases "k = e") simp_all
  have distinct: "j = i" if "(j, e) \<in> set (rClients (wRoom w r))" for j
    using me room_okD(3) [OF old that] by (simp add: member_ok_def)
  have notold: "j \<noteq> rHostID (wRoom w r)" if "(j, c) \<in> set (rClients (wRoom w r))" for j c
    using left that by (auto simp: map_of_eq_None_iff rev_image_eqI)
  have key: "c = e" if "(i, c) \<in> set (rClients (wRoom w r))" for c
    using old e that by (auto simp: room_ok_def keys_ok_def dest: eq_key_imp_eq_value)
  show ?thesis
  proof (rule inv_change [OF inv, of _ r e])
    have "member_ok ?w r j c" if "(j, c) \<in> set (rClients (wRoom w r))" for j c
    proof (cases "c = e")
      case True
      with me distinct that show ?thesis
        by (simp add: member_ok_def sel role_for_def ident_eqD [OF cl])
    next
      case False
      with key that have "j \<noteq> i" by auto
      with False room_okD(3) [OF old that] notold [OF that] show ?thesis
        by (simp add: member_ok_def sel role_for_def ident_eqD [OF cl])
    qed
    moreover have "pending_ok ?w r j p" if "(j, p) \<in> set (rPending (wRoom w r))" for j p
      using room_okD(4) [OF old that] by (simp only: pending_ok_def sel cid) simp
    moreover have "host_ok (wRoom ?w r)"
    proof -
      have "rClients (wRoom w r) \<noteq> []" using e by auto
      with room_okD(2) [OF old] me show ?thesis by (simp add: host_ok_def sel member_ok_def)
    qed
    ultimately show "room_ok ?w r" using old by (simp add: room_ok_def keys_ok_def sel)
    show "phase_ok ?w e"
      using me hub_invD(3) [OF inv, of e]
      by (simp add: phase_ok_def in_room_def sel member_ok_def ident_eqD [OF cl])
    fix k p assume "k \<noteq> e" "joining_ok w k r p"
    then show "joining_ok ?w k r p"
      using me by (simp add: joining_ok_def sel member_ok_def ident_eqD [OF cl])
  qed (use me in \<open>auto simp: sel cl member_ok_def\<close>)
qed

section \<open>leaveRoom\<close>

lemma closed_not_member: "hub_inv w \<Longrightarrow> cClosed (wClient w c) \<Longrightarrow> \<not> member w c"
  by (metis memberD)

lemma shutdown_closed: "cClosed (wClient w k) \<Longrightarrow> shutdown_client k w = w"
  by (cases "wClient w k") (simp add: shutdown_client_def set_client_def shutdown_def fun_upd_idem)

lemma inv_leave_phase:
  assumes "hub_inv w" "cClosed (wClient w c)" "wPhase w c = Reading r" "c < wNextClient w"
  shows "hub_inv (set_phase c (Leaving r info) w)"
  using inv_silence [OF assms(1) closed_not_member [OF assms(1,2)] assms(3) disjI2 assms(4)]
  by (simp add: shutdown_closed [OF assms(2)])

text \<open>Only a room without clients is ever closed, so closing tells and disconnects nobody.\<close>

definition closed_world :: "nat \<Rightarrow> world \<Rightarrow> world" where
  "closed_world r w = set_room r ((wRoom w r)\<lparr>rClosed := True, rPending := [], rClients := []\<rparr>)
     (w\<lparr>wPending := wPending (close_pending r w)\<rparr>)"

lemma close_world_eq:
  assumes "rClients (wRoom w r) = []"
  shows "close_peers slot env r (close_pending r (set_room r ((wRoom w r)\<lparr>rClosed := True\<rparr>) w))
    = closed_world r w"
  using assms
  by (simp add: close_peers_def close_pending_def closed_world_def set_room_def Let_def)

lemma refuse_client [simp]:
  "pjClient (foldl (\<lambda>h p. h(p := snd (decide d (h p)))) h ps q) = pjClient (h q)"
  by (induction ps arbitrary: h) (auto simp: decide_def split: option.split)

lemma closed_world_sel [simp]:
  "wRooms (closed_world r w) = wRooms w" "wNextRoom (closed_world r w) = wNextRoom w"
  "wNextClient (closed_world r w) = wNextClient w" "wNextPending (closed_world r w) = wNextPending w"
  "wClient (closed_world r w) = wClient w" "wPhase (closed_world r w) = wPhase w"
  "wRoom (closed_world r w) = (wRoom w)(r := (wRoom w r)\<lparr>rClosed := True, rPending := [], rClients := []\<rparr>)"
  "wDB (closed_world r w) = wDB w" "wJobs (closed_world r w) = wJobs w"
  "pjClient (wPending (closed_world r w) p) = pjClient (wPending w p)"
  by (simp_all add: closed_world_def close_pending_def Let_def)

lemma inv_closed_world:
  assumes inv: "hub_inv w" and host: "rHostID (wRoom w r) \<noteq> []" and empty: "rClients (wRoom w r) = []"
  shows "hub_inv (closed_world r w)" (is "hub_inv ?w")
proof (rule inv_room_change [OF inv, of _ r "(wRoom w r)\<lparr>rClosed := True, rPending := [], rClients := []\<rparr>"])
  assume "r < wNextRoom w"
  from hub_invD(2) [OF inv this] show "room_ok ?w r"
    using host empty by (simp add: room_ok_def keys_ok_def host_ok_def)
qed (simp_all add: joining_ok_def)

lemma migration_sel [simp]:
  "wNextClient (snd (tryHostMigrationLocked slot st r w)) = wNextClient w"
  "wPhase (snd (tryHostMigrationLocked slot st r w)) = wPhase w"
  "cClosed (wClient (snd (tryHostMigrationLocked slot st r w)) k) = cClosed (wClient w k)"
  "cID (wClient (snd (tryHostMigrationLocked slot st r w)) k) = cID (wClient w k)"
  "rClients (wRoom (snd (tryHostMigrationLocked slot st r w)) q) = rClients (wRoom w q)"
  "wRooms (snd (tryHostMigrationLocked slot st r w)) = wRooms w"
  "wDB (snd (tryHostMigrationLocked slot st r w)) = wDB w"
  by (auto simp: tryHostMigrationLocked_def Let_def split: option.split)

text \<open>
  What \<open>leaveRoom\<close> does under the lock, without its order of assignments: the connection and the
  entry under its id are out; a host that leaves hands over or, when alone, closes the room.
\<close>

definition left_world :: "nat \<Rightarrow> nat \<Rightarrow> world \<Rightarrow> world" where
  "left_world c r w =
     (let room = wRoom w r; i = cID (wClient w c)
      in shutdown_client c (if has_key (rClients room) i
           then set_room r (room\<lparr>rClients := AList.delete i (rClients room)\<rparr>) w else w))"

definition host_leaves :: "nat \<Rightarrow> nat \<Rightarrow> world \<Rightarrow> bool" where
  "host_leaves c r w \<longleftrightarrow> has_key (rClients (wRoom w r)) (cID (wClient w c)) \<and>
     cID (wClient w c) = rHostID (wRoom w r) \<and> \<not> rClosed (wRoom w r)"

definition after_leave :: "slots \<Rightarrow> stamps \<Rightarrow> nat \<Rightarrow> nat \<Rightarrow> world \<Rightarrow> world" where
  "after_leave slot st c r w =
     (let w1 = left_world c r w
      in if \<not> host_leaves c r w then w1
         else if rClients (wRoom w1 r) = [] then closed_world r w1
         else snd (tryHostMigrationLocked slot (st 0) r w1))"

lemma leaveRoom_locked_eq:
  "\<exists>info. leaveRoom_locked slot st c r w = set_phase c (Leaving r info) (after_leave slot st c r w)
     \<and> (liExisted info \<longleftrightarrow> has_key (rClients (wRoom w r)) (cID (wClient w c)))
     \<and> (liRoomClosed info \<longleftrightarrow> host_leaves c r w \<and> rClients (wRoom (left_world c r w) r) = [])
     \<and> liHostLeft info = liRoomClosed info
     \<and> (liEmpty info \<longleftrightarrow> rClients (wRoom (after_leave slot st c r w) r) = [])"
  (is "\<exists>info. ?P info")
proof -
  define w1 where "w1 = left_world c r w"
  have w1: "(let w' = shutdown_client c w; room = wRoom w' r
    in if has_key (rClients room) (cID (wClient w c))
       then set_room r (room\<lparr>rClients := AList.delete (cID (wClient w c)) (rClients room)\<rparr>) w' else w') = w1"
    by (simp add: w1_def left_world_def Let_def shutdown_client_def set_client_def set_room_def)
  show ?thesis
  proof (cases "host_leaves c r w")
    case False
    then show ?thesis
      using w1 unfolding leaveRoom_locked_def after_leave_def w1_def [symmetric]
      by (auto simp: Let_def host_leaves_def)
  next
    case host: True
    show ?thesis
    proof (cases "rClients (wRoom w1 r) = []")
      case True
      then have "close_peers slot env r (close_pending r (set_room r ((wRoom w1 r)\<lparr>rClosed := True\<rparr>) w1))
          = closed_world r w1" for env
        by (rule close_world_eq)
      with True show ?thesis
        using w1 host unfolding leaveRoom_locked_def after_leave_def w1_def [symmetric]
        by (auto simp: Let_def host_leaves_def migration_None_same)
    next
      case False
      then have "fst (tryHostMigrationLocked slot (st 0) r w1)"
        using migration_None [of slot "st 0" r w1] by simp
      then obtain w2 where "tryHostMigrationLocked slot (st 0) r w1 = (True, w2)"
        by (cases "tryHostMigrationLocked slot (st 0) r w1") simp
      with False show ?thesis
        using w1 host unfolding leaveRoom_locked_def after_leave_def w1_def [symmetric]
        by (auto simp: Let_def host_leaves_def)
    qed
  qed
qed

lemma left_world_sel [simp]:
  "wRooms (left_world c r w) = wRooms w" "wNextRoom (left_world c r w) = wNextRoom w"
  "wNextClient (left_world c r w) = wNextClient w" "wPhase (left_world c r w) = wPhase w"
  "wPending (left_world c r w) = wPending w" "wNextPending (left_world c r w) = wNextPending w"
  "wDB (left_world c r w) = wDB w" "wJobs (left_world c r w) = wJobs w"
  "wClient (left_world c r w) = (wClient w)(c := shutdown (wClient w c))"
  "rHostID (wRoom (left_world c r w) q) = rHostID (wRoom w q)"
  "rClosed (wRoom (left_world c r w) q) = rClosed (wRoom w q)"
  "rID (wRoom (left_world c r w) q) = rID (wRoom w q)"
  "rPending (wRoom (left_world c r w) q) = rPending (wRoom w q)"
  "rClients (wRoom (left_world c r w) q) =
     (if q = r then AList.delete (cID (wClient w c)) (rClients (wRoom w r)) else rClients (wRoom w q))"
  by (auto simp: left_world_def Let_def delete_fresh)

lemma inv_left_world:
  assumes inv: "hub_inv w" and c: "c < wNextClient w" and ph: "wPhase w c = Reading r"
  shows "hub_inv (left_world c r w)"
proof (cases "has_key (rClients (wRoom w r)) (cID (wClient w c))")
  case True
  with inv_shutdown [OF inv_remove_member [OF inv] not_member_deleted [OF inv refl ph], of r] c ph
  show ?thesis by (simp add: left_world_def Let_def)
next
  case False
  have "\<not> member w c"
  proof
    assume "member w c"
    then obtain q where "wPhase w c = Reading q" "(cID (wClient w c), c) \<in> set (rClients (wRoom w q))"
      by (rule memberD [OF inv]) auto
    with False ph show False by (simp add: map_of_eq_None_iff rev_image_eqI)
  qed
  from inv_shutdown [OF inv this ph c] False show ?thesis by (simp add: left_world_def Let_def)
qed

lemma inv_after_leave:
  assumes inv: "hub_inv w" and c: "c < wNextClient w" and ph: "wPhase w c = Reading r"
  shows "hub_inv (after_leave slot st c r w)"
proof -
  let ?w = "left_world c r w"
  have inv1: "hub_inv ?w" by (rule inv_left_world [OF assms])
  have r: "r < wNextRoom w" using hub_invD(3) [OF inv c] ph by (simp add: phase_ok_def in_room_def)
  show ?thesis
  proof (cases "host_leaves c r w")
    case True
    then have host: "rHostID (wRoom ?w r) = cID (wClient w c)" "rHostID (wRoom ?w r) \<noteq> []"
      using room_okD(2) [OF hub_invD(2) [OF inv r]] by (auto simp: host_leaves_def host_ok_def)
    have "\<not> has_key (rClients (wRoom ?w r)) (rHostID (wRoom ?w r))"
      using host(1) by (simp add: map_of_eq_None_iff)
    with inv_migration [OF inv1] inv_closed_world [OF inv1 host(2)] inv1 r show ?thesis
      unfolding after_leave_def Let_def by (simp del: left_world_sel(14))
  qed (simp add: after_leave_def inv1)
qed

lemma after_leave_sel [simp]:
  "wNextClient (after_leave slot st c r w) = wNextClient w"
  "wPhase (after_leave slot st c r w) = wPhase w"
  "wRooms (after_leave slot st c r w) = wRooms w"
  "wDB (after_leave slot st c r w) = wDB w"
  "cID (wClient (after_leave slot st c r w) k) = cID (wClient w k)"
  "cClosed (wClient (after_leave slot st c r w) k) = (k = c \<or> cClosed (wClient w k))"
  by (simp_all add: after_leave_def Let_def del: left_world_sel(14))

lemma inv_leaveRoom:
  assumes inv: "hub_inv w" and c: "c < wNextClient w" and ph: "wPhase w c = Reading r"
  shows "hub_inv (leaveRoom_locked slot st c r w)"
proof -
  obtain info where "leaveRoom_locked slot st c r w = set_phase c (Leaving r info) (after_leave slot st c r w)"
    using leaveRoom_locked_eq [of slot st c r w] by blast
  then show ?thesis
    using inv_leave_phase [OF inv_after_leave [OF assms], of slot st c r info] c ph by simp
qed

lemma inv_forget_room:
  assumes "hub_inv w"
  shows "hub_inv (w\<lparr>wRooms := AList.delete i (wRooms w)\<rparr>)" (is "hub_inv ?w")
proof -
  have "member_ok ?w = member_ok w" "pending_ok ?w = pending_ok w" "joining_ok ?w = joining_ok w"
    "in_room ?w = in_room w"
    by (simp_all add: fun_eq_iff entry_defs joining_ok_def in_room_def)
  then have "room_ok ?w r = room_ok w r" "phase_ok ?w c = phase_ok w c" for r c
    by (auto simp: room_ok_def phase_ok_def split: phase.split)
  with assms show ?thesis by (auto simp: hub_inv_def rooms_ok_def)
qed

lemma inv_gone:
  assumes "hub_inv w" "\<And>r. wPhase w c \<noteq> Reading r" "\<And>r p. \<not> in_join (wPhase w c) r p"
  shows "hub_inv (set_phase c Gone w)"
  by (rule inv_outsider [OF assms(1), of _ c]) (simp_all add: assms(2,3) phase_ok_def)

lemma inv_rest:
  assumes inv: "hub_inv w" and ph: "wPhase w c = Leaving r info"
  shows "hub_inv (leaveRoom_rest slot st fail now c r info w)"
proof -
  define w1 where "w1 = (if liExisted info \<and> \<not> liRoomClosed info
    then w\<lparr>wClient := snd (deliver slot (\<lambda>_. NewEnvelope (st 0) TypePeerLeft ''server'' []
      (PClientID (cID (wClient w c)))) (liTargets info) (wClient w))\<rparr> else w)"
  have w1: "hub_inv w1" "wPhase w1 = wPhase w"
    using inv inv_quiet [OF inv quiet_deliver] by (simp_all add: w1_def)
  define w3 where "w3 = (if map_of (wRooms w1) (cRoomID (wClient w c)) = Some r
    then w1\<lparr>wRooms := AList.delete (cRoomID (wClient w c)) (wRooms w1)\<rparr> else w1)"
  have w3: "hub_inv w3" "wPhase w3 = wPhase w"
    using w1 by (simp_all add: w3_def inv_forget_room)
  have gone: "hub_inv w' \<Longrightarrow> wPhase w' = wPhase w \<Longrightarrow> hub_inv (set_phase c Gone w')" for w'
    using ph by (intro inv_gone) auto
  have db: "hub_inv (w3\<lparr>wDB := d\<rparr>)" for d
    by (rule inv_quiet [OF w3(1) quiet_db])
  show ?thesis
    unfolding leaveRoom_rest_def Let_def w1_def [symmetric] w3_def [symmetric]
    using gone w1 w3 db by simp
qed

section \<open>The handlers\<close>

lemma inv_presence:
  assumes inv: "hub_inv w" and c: "c < wNextClient w" and ph: "wPhase w c = Reading r"
  shows "hub_inv (handle_presence slot st now c r env w)"
proof -
  have "hub_inv (set_client c (setUser (u\<lparr>userID := cID (wClient w c), userLastSeen := now, userRole := role_of c r w\<rparr>)
      (wClient w c)) w)" (is "hub_inv ?w") for u
  proof (rule inv_change [OF inv, of _ r c])
    assume r: "r < wNextRoom w"
    note old = hub_invD(2) [OF inv r]
    have "member_ok ?w r i k" if "(i, k) \<in> set (rClients (wRoom w r))" for i k
      using room_okD(3) [OF old that] by (auto simp: member_ok_def role_of_def role_for_def)
    moreover have "pending_ok ?w r i p" if "(i, p) \<in> set (rPending (wRoom w r))" for i p
      using room_okD(4) [OF old that] by (auto simp: pending_ok_def)
    ultimately show "room_ok ?w r" using old by (simp add: room_ok_def)
  qed (use hub_invD(3) [OF inv c] ph in \<open>auto simp: phase_ok_def in_room_def joining_ok_def\<close>)
  then show ?thesis
    unfolding handle_presence_def Let_def
    by (auto intro: inv_quiet [OF _ quiet_broadcast] inv_quiet [OF inv quiet_send_error] split: sum.split)
qed

lemma decide_client [simp]: "pjClient (snd (decide d p)) = pjClient p"
  by (simp add: decide_def split: option.split)

lemma inv_join_decision:
  assumes inv: "hub_inv w"
  shows "hub_inv (handle_join_decision slot st c r env w)"
proof -
  have "hub_inv (w\<lparr>wPending := (wPending w)(p := snd (decide d (wPending w p)))\<rparr>)" (is "hub_inv ?w") for p d
  proof (rule inv_room_change [OF inv, of _ r "wRoom w r"])
    have pj: "pjClient (((wPending w)(p := snd (decide d (wPending w p)))) q) = pjClient (wPending w q)" for q
      by simp
    assume "r < wNextRoom w"
    then show "room_ok ?w r"
      using hub_invD(2) [OF inv, of r] by (simp add: room_ok_def entry_defs pj del: fun_upd_apply)
  qed (auto simp: joining_ok_def)
  then show ?thesis
    using inv inv_quiet [OF inv quiet_send_error]
    by (simp add: handle_join_decision_def split: sum.split option.split)
qed

lemma inv_kick:
  assumes inv: "hub_inv w" and c: "c < wNextClient w" and ph: "wPhase w c = Reading r"
  shows "hub_inv (handle_peer_kick slot st c r env w)"
proof -
  have r: "r < wNextRoom w" using hub_invD(3) [OF inv c] ph by (simp add: phase_ok_def in_room_def)
  have "hub_inv (set_room r ((wRoom (shutdown_client k (queue_to slot e k w)) r)\<lparr>rClients :=
      AList.delete i (rClients (wRoom (shutdown_client k (queue_to slot e k w)) r))\<rparr>)
      (shutdown_client k (queue_to slot e k w)))" (is "hub_inv ?w")
    if "map_of (rClients (wRoom w r)) i = Some k" for i k e
  proof -
    let ?q = "queue_to slot e k w"
    have inv': "hub_inv ?q" by (rule inv_quiet [OF inv quiet_queue_to])
    have k: "cID (wClient ?q k) = i" "wPhase ?q k = Reading r" "k < wNextClient ?q"
      using member_at(2) [OF inv r that] by (simp_all add: member_ok_def)
    have eq: "?w = shutdown_client k (set_room r ((wRoom ?q r)\<lparr>rClients := AList.delete i (rClients (wRoom ?q r))\<rparr>) ?q)"
      by (simp add: shutdown_client_def set_client_def set_room_def)
    show ?thesis
      unfolding eq
      by (rule inv_shutdown [OF inv_remove_member [OF inv'] not_member_deleted [OF inv' k(1,2)]])
        (use k in simp_all)
  qed
  then show ?thesis
    using inv inv_quiet [OF inv quiet_send_error]
    unfolding handle_peer_kick_def Let_def
    by (auto intro!: inv_quiet [OF _ quiet_broadcast] split: sum.split option.split)
qed

lemma inv_handleEnvelope:
  assumes inv: "hub_inv w" and c: "c < wNextClient w" and ph: "wPhase w c = Reading r"
  shows "hub_inv (handleEnvelope cfg slot st now c r env w)"
  by (cases rule: handleEnvelope_cases [of w cfg slot st now c r env])
    (simp_all add: inv_quiet [OF inv] inv_presence [OF assms] inv_join_decision [OF inv] inv_kick [OF assms])

lemma inv_readLoop:
  assumes inv: "hub_inv w" and c: "c < wNextClient w" and ph: "wPhase w c = Reading r"
  shows "hub_inv (readLoop_iter cfg slot st now allow c r frame w)"
proof (cases frame)
  case None
  with inv_leaveRoom [OF assms] show ?thesis by (simp add: readLoop_iter_def)
next
  case (Some env)
  have v: "hub_inv (set_client c ((wClient w c)\<lparr>cViolations := n\<rparr>) w)" for n
    by (rule inv_quiet [OF inv quiet_violations])
  note leave = inv_leaveRoom [OF v] and envelope = inv_handleEnvelope [OF v]
  show ?thesis
    using v leave envelope c ph unfolding readLoop_iter_def Some by (simp add: Let_def)
qed

end
