(* ===== verification/System.thy ===== *)
theory System
  imports LeaveInv "HOL-Library.Multiset"
begin

text \<open>
  The server as a labelled transition system over the hub, its connections and the database: one
  step per section of code under a lock, with what the goroutine does next without it, such as
  queueing a message for the members it has just read, or persisting an update under its permit.
  \<open>Race\<close>, \<open>Fanout\<close> and \<open>Writes\<close> take those apart into the steps between which others run.  What the environment
  decides (frames read, clocks, random bytes, failures of the driver, waits that end in time,
  the iteration order of a Go map) is quantified in the steps.  Reachable states satisfy the
  invariant \<open>hub_inv\<close>.
\<close>

section \<open>Steps\<close>

datatype event =
    Connect
  | Refuse
  | Lookup nat
  | Enter nat
  | Decision nat
  | Timeout nat
  | Finish nat
  | Message nat bool "envelope option"
  | Rest nat
  | RunJob nat
  | Write nat bool
  | HangUp nat
  | Cleanup
  | CreateRoom
  | Reorder nat

record server =
  svHmac :: "string \<Rightarrow> string \<Rightarrow> string"
  svCfg :: hub_cfg
  svBind :: "bytes option \<Rightarrow> bytes option"
  svForeignKeys :: bool

definition connect :: "client \<Rightarrow> room_state \<Rightarrow> db \<Rightarrow> world \<Rightarrow> world" where
  "connect x state db w =
     (let c = wNextClient w
      in w\<lparr>wClient := (wClient w)(c := x), wPhase := (wPhase w)(c := Authed state),
           wNextClient := Suc c, wDB := db\<rparr>)"

definition drop_nth :: "nat \<Rightarrow> 'a list \<Rightarrow> 'a list" where
  "drop_nth n xs = take n xs @ drop (Suc n) xs"

inductive hub_step :: "server \<Rightarrow> world \<Rightarrow> event \<Rightarrow> world \<Rightarrow> bool" for sv :: server where
  connect:
    "handleSocket_auth (svHmac sv) (svCfg sv) st rnd f1 f2 now t frame (wDB w) = (AuthAccepted x state, db)
     \<Longrightarrow> now \<noteq> []
     \<Longrightarrow> hub_step sv w Connect (connect x state db w)"
| refuse:
    "handleSocket_auth (svHmac sv) (svCfg sv) st rnd f1 f2 now t frame (wDB w) = (out, db)
     \<Longrightarrow> \<forall>x state. out \<noteq> AuthAccepted x state \<Longrightarrow> now \<noteq> []
     \<Longrightarrow> hub_step sv w Refuse (w\<lparr>wDB := db\<rparr>)"
| lookup:
    "c < wNextClient w \<Longrightarrow> wPhase w c = Authed state
     \<Longrightarrow> hub_step sv w (Lookup c) (joinRoom_lookup (svCfg sv) slot sts c state w)"
| enter:
    "c < wNextClient w \<Longrightarrow> wPhase w c = Entering r state
     \<Longrightarrow> \<not> id_taken (wRoom w r) (uniqueClientIDLocked rnds (wRoom w r) (cID (wClient w c)))
     \<Longrightarrow> hub_step sv w (Enter c) (joinRoom_enter (svCfg sv) slot sts rnds rnd t c r state w)"
| decision:
    "c < wNextClient w \<Longrightarrow> wPhase w c = Waiting r p \<Longrightarrow> pjResult (wPending w p) = Some d
     \<Longrightarrow> hub_step sv w (Decision c) (receive_decision c r p d w)"
| timeout:
    "c < wNextClient w \<Longrightarrow> wPhase w c = Waiting r p
     \<Longrightarrow> hub_step sv w (Timeout c) (approval_timeout c r p w)"
| finish:
    "c < wNextClient w \<Longrightarrow> wPhase w c = Decided r p d
     \<Longrightarrow> hub_step sv w (Finish c) (joinRoom_finish slot sts c r p d w)"
| message:
    "c < wNextClient w \<Longrightarrow> wPhase w c = Reading r
     \<Longrightarrow> hub_step sv w (Message c allow frame) (readLoop_iter (svCfg sv) slot sts now allow c r frame w)"
| rest:
    "c < wNextClient w \<Longrightarrow> wPhase w c = Leaving r info \<Longrightarrow> now \<noteq> []
     \<Longrightarrow> hub_step sv w (Rest c) (leaveRoom_rest slot sts f1 now c r info w)"
| job:
    "n < length (wJobs w) \<Longrightarrow> now \<noteq> []
     \<Longrightarrow> hub_step sv w (RunJob n) (run_job (svBind sv) (svCfg sv) slot sts acquired f1 f2 now (wJobs w ! n)
           (w\<lparr>wJobs := drop_nth n (wJobs w)\<rparr>))"
| writer:
    "hub_step sv w (Write c ok) (set_client c (writeLoop_step ok (wClient w c)) w)"
| hangup:
    "c < wNextClient w \<Longrightarrow> wPhase w c = Gone
     \<Longrightarrow> hub_step sv w (HangUp c) (set_client c ((wClient w c)\<lparr>cConnOpen := False\<rparr>) w)"
| cleanup:
    "cutoff \<noteq> [] \<Longrightarrow> hub_step sv w Cleanup (w\<lparr>wDB := snd (DeleteInactiveRooms (svForeignKeys sv) f1 cutoff (wDB w))\<rparr>)"
| create:
    "now \<noteq> [] \<Longrightarrow> hub_step sv w CreateRoom (w\<lparr>wDB := snd (EnsureRoom f1 now roomID keyHash (wDB w))\<rparr>)"
| reorder:
    "mset cs = mset (rClients (wRoom w r)) \<Longrightarrow> mset ps = mset (rPending (wRoom w r))
     \<Longrightarrow> hub_step sv w (Reorder r) (set_room r ((wRoom w r)\<lparr>rClients := cs, rPending := ps\<rparr>) w)"

inductive_cases hub_stepE: "hub_step sv w e w'"
inductive_cases message_stepE: "hub_step sv w (Message c allow frame) w'"
inductive_cases enter_stepE: "hub_step sv w (Enter c) w'"
inductive_cases finish_stepE: "hub_step sv w (Finish c) w'"

text \<open>
  A formatted clock is never the empty text.  \<open>HangUp\<close> is the deferred \<open>conn.Close\<close> of \<open>handleSocket\<close>, when its goroutine is done.
\<close>

text \<open>Runs, in the order the steps happen.\<close>

inductive hub_run :: "server \<Rightarrow> world \<Rightarrow> event list \<Rightarrow> world \<Rightarrow> bool" for sv :: server and w0 :: world where
  start: "hub_run sv w0 [] w0"
| step: "hub_run sv w0 es w \<Longrightarrow> hub_step sv w e w' \<Longrightarrow> hub_run sv w0 (es @ [e]) w'"

definition init_world :: "db \<Rightarrow> world" where
  "init_world db =
     \<lparr>wRooms = [], wRoom = (\<lambda>_. empty_room []), wNextRoom = 0,
      wPending = (\<lambda>_. \<lparr>pjRequestID = [], pjClient = 0, pjState = \<lparr>CompactState = None, Updates = []\<rparr>,
        pjCreatedAt = 0, pjResult = None\<rparr>), wNextPending = 0,
      wClient = (\<lambda>_. new_client [] zero_user 0), wPhase = (\<lambda>_. Gone), wNextClient = 0,
      wJobs = [], wDB = db\<rparr>"

definition reachable :: "server \<Rightarrow> world \<Rightarrow> bool" where
  "reachable sv w \<longleftrightarrow> (\<exists>db es. hub_run sv (init_world db) es w)"

section \<open>The invariant holds in every reachable state\<close>

lemma inv_init: "hub_inv (init_world db)"
  by (simp add: hub_inv_def rooms_ok_def init_world_def)

lemma auth_client:
  assumes "handleSocket_auth hmac cfg st rnd f1 f2 now t frame db = (AuthAccepted x state, db')"
  shows "\<exists>i u. x = new_client i u t \<and> userID u \<noteq> [] \<and> i \<noteq> [] \<and> i = trim_space i"
  using assms trim_space_idem
  by (auto simp: handleSocket_auth_def auth_error_def Let_def clean_user_def new_client_def
      split: option.splits if_splits sum.splits prod.splits)

lemma inv_connect:
  assumes inv: "hub_inv w" and x: "cID x \<noteq> []" "\<not> cClosed x"
  shows "hub_inv (connect x state db w)" (is "hub_inv ?w")
proof -
  have sel: "wRooms ?w = wRooms w" "wRoom ?w = wRoom w" "wNextRoom ?w = wNextRoom w"
    "wPending ?w = wPending w" "wNextPending ?w = wNextPending w" "wNextClient ?w = Suc (wNextClient w)"
    "wClient ?w = (wClient w)(wNextClient w := x)" "wPhase ?w = (wPhase w)(wNextClient w := Authed state)"
    by (simp_all add: connect_def Let_def)
  have "member_ok w r i k \<Longrightarrow> member_ok ?w r i k" "pending_ok w r i p \<Longrightarrow> pending_ok ?w r i p" for r i k p
    by (simp_all add: entry_defs sel)
  moreover have "joining_ok w k r p \<Longrightarrow> joining_ok ?w k r p" "in_room w k r \<Longrightarrow> in_room ?w k r"
    if "k < wNextClient w" for k r p
    using that by (auto simp: joining_ok_def in_room_def sel)
  ultimately show ?thesis
    using inv x by (auto simp: hub_inv_def room_ok_def rooms_ok_def phase_ok_def sel less_Suc_eq
        split: phase.splits)
qed

lemma inv_reorder:
  assumes inv: "hub_inv w" and cs: "mset cs = mset (rClients (wRoom w r))"
    and ps: "mset ps = mset (rPending (wRoom w r))"
  shows "hub_inv (set_room r ((wRoom w r)\<lparr>rClients := cs, rPending := ps\<rparr>) w)" (is "hub_inv ?w")
proof (rule inv_room_change [OF inv, of _ r "(wRoom w r)\<lparr>rClients := cs, rPending := ps\<rparr>"])
  have sets: "set cs = set (rClients (wRoom w r))" "set ps = set (rPending (wRoom w r))"
    using cs ps by (metis set_mset_mset)+
  have "mset (keys cs) = mset (keys (rClients (wRoom w r)))" "mset (keys ps) = mset (keys (rPending (wRoom w r)))"
    using cs ps by simp_all
  then have dist: "distinct (keys cs) = distinct (keys (rClients (wRoom w r)))"
    "distinct (keys ps) = distinct (keys (rPending (wRoom w r)))"
    by (metis mset_eq_imp_distinct_iff)+
  have nil: "cs = [] \<longleftrightarrow> rClients (wRoom w r) = []" "ps = [] \<longleftrightarrow> rPending (wRoom w r) = []"
    using cs ps by auto
  have same: "member_ok ?w r i c = member_ok w r i c" "pending_ok ?w r i p = pending_ok w r i p" for i c p
    by (simp_all add: entry_defs role_for_def)
  assume "r < wNextRoom w"
  from hub_invD(2) [OF inv this] show "room_ok ?w r"
    by (simp add: room_ok_def same keys_ok_def host_ok_def sets dist nil)
next
  fix k p assume "joining_ok w k r p"
  then show "joining_ok ?w k r p"
    using ps by (auto simp: joining_ok_def dest: mset_eq_setD)
qed simp_all

lemma inv_step:
  assumes "hub_step sv w e w'" and inv: "hub_inv w"
  shows "hub_inv w'"
  using assms(1)
proof cases
  case (connect st rnd f1 f2 now t frame x state db)
  with auth_client [OF connect(3)] show ?thesis
    by (auto intro!: inv_connect [OF inv] simp: new_client_def)
next
  case (job n slot sts acquired f1 f2 now)
  show ?thesis
    unfolding job(2) by (rule inv_quiet [OF inv quiet_trans [OF quiet_jobs quiet_run_job]])
qed (simp_all add: inv_lookup [OF inv] inv_enter [OF inv] inv_decision [OF inv] inv_finish [OF inv]
     inv_readLoop [OF inv] inv_rest [OF inv] inv_reorder [OF inv] inv_quiet [OF inv])

lemma inv_run: "hub_run sv w0 es w \<Longrightarrow> hub_inv w0 \<Longrightarrow> hub_inv w"
  by (induction rule: hub_run.induct) (auto intro: inv_step)

lemma reachable_inv: "reachable sv w \<Longrightarrow> hub_inv w"
  by (auto simp: reachable_def intro: inv_run inv_init)

end
