(* ===== verification/Streams.thy ===== *)
theory Streams
  imports System
begin

text \<open>
  What the operations send: \<open>sends P w w'\<close> says that from \<open>w\<close> to \<open>w'\<close> every connection was given
  some further envelopes, after those it had, and that each satisfies \<open>P\<close> for its receiver.  The
  relation is closed under composition, so each operation has one lemma.
\<close>

definition sends :: "(nat \<Rightarrow> envelope \<Rightarrow> bool) \<Rightarrow> world \<Rightarrow> world \<Rightarrow> bool" where
  "sends P w w' \<longleftrightarrow>
     (\<forall>k. \<exists>es. stream (wClient w' k) = stream (wClient w k) @ es \<and> (\<forall>e \<in> set es. P k e))"

lemma sends_refl [simp]: "sends P w w"
  by (simp add: sends_def)

lemma sends_same: "(\<And>k. stream (wClient w' k) = stream (wClient w k)) \<Longrightarrow> sends P w w'"
  by (simp add: sends_def)

lemma sends_trans:
  assumes "sends P w w1" and "sends P w1 w2"
  shows "sends P w w2"
proof -
  have "\<exists>es. stream (wClient w2 k) = stream (wClient w k) @ es \<and> (\<forall>e \<in> set es. P k e)" for k
  proof -
    obtain a b where "stream (wClient w1 k) = stream (wClient w k) @ a" "\<forall>e \<in> set a. P k e"
      "stream (wClient w2 k) = stream (wClient w1 k) @ b" "\<forall>e \<in> set b. P k e"
      using assms unfolding sends_def by meson
    then show ?thesis by (intro exI [of _ "a @ b"]) auto
  qed
  then show ?thesis by (simp add: sends_def)
qed

lemma sends_mono: "sends P w w' \<Longrightarrow> (\<And>k e. P k e \<Longrightarrow> Q k e) \<Longrightarrow> sends Q w w'"
  unfolding sends_def by meson

lemma sendsD:
  assumes "sends P w w'" and "e \<in> set (stream (wClient w' k))"
  shows "e \<in> set (stream (wClient w k)) \<or> P k e"
  using assms unfolding sends_def by (metis Un_iff set_append)

section \<open>Primitives\<close>

lemma stream_queue:
  "stream (snd (queue b e c)) = stream c @ (if fst (queue b e c) then [e] else [])"
  by (rule send.content_offer)

lemma sends_queue_to: "P c e \<Longrightarrow> sends P w (queue_to slot e c w)"
  by (auto simp: sends_def queue_to_def stream_queue)

lemma sends_deliver:
  assumes "\<And>c. c \<in> set cs \<Longrightarrow> P c (env c)"
  shows "sends P w (w\<lparr>wClient := snd (deliver slot env cs (wClient w))\<rparr>)"
proof -
  have "\<exists>es. stream (snd (deliver slot env cs h) k) = stream (h k) @ es \<and> (\<forall>e \<in> set es. P k e)" for h k
    using assms
  proof (induction cs arbitrary: h)
    case (Cons c cs)
    let ?h = "h(c := snd (queue (slot c) (env c) (h c)))"
    have "\<exists>es. stream (snd (deliver slot env cs ?h) k) = stream (?h k) @ es \<and> (\<forall>e \<in> set es. P k e)"
      by (rule Cons.IH) (simp add: Cons.prems)
    then obtain es where "stream (snd (deliver slot env cs ?h) k) = stream (?h k) @ es" "\<forall>e \<in> set es. P k e"
      by blast
    then show ?case
      using Cons.prems [of c]
      by (cases "k = c")
        (auto simp: split_beta stream_queue intro!: exI [of _ "(if fst (queue (slot c) (env c) (h c)) then [env c] else []) @ es"])
  qed simp
  then show ?thesis by (simp add: sends_def)
qed

lemma sends_broadcast:
  "(\<And>c. c \<in> set (targets (wRoom w r) x) \<Longrightarrow> P c e) \<Longrightarrow> sends P w (broadcast slot e r x w)"
  unfolding broadcast_def by (rule sends_deliver)

lemma sends_sendTo:
  "(\<And>c. map_of (rClients (wRoom w r)) i = Some c \<Longrightarrow> P c e) \<Longrightarrow> sends P w (sendTo slot i e r w)"
  by (auto simp: sendTo_def sends_queue_to split: option.split)

lemma stream_ident: "cSend x = cSend y \<Longrightarrow> cWritten x = cWritten y \<Longrightarrow> stream x = stream y"
  by (simp add: stream_def)

lemma sends_send_error:
  "P c (error_envelope (st 0) (cID (wClient w c)) code message) \<Longrightarrow> sends P w (send_error slot st code message c w)"
  by (auto simp: sends_def send_error_def sendError_def stream_queue)

lemma sends_forward:
  assumes "\<And>i k. (i, k) \<in> set (rClients (wRoom w r)) \<Longrightarrow> P k env"
  shows "sends P w (forward slot c r env w)"
  unfolding forward_def
  using assms by (auto intro!: sends_sendTo sends_broadcast dest: map_of_SomeD simp: targets_def)

lemma sends_client_same:
  "stream x = stream (wClient w c) \<Longrightarrow> sends P w (set_client c x w)"
  by (rule sends_same) simp

section \<open>leaveRoom\<close>

lemma stream_setUser [simp]: "stream (setUser u c) = stream c"
  by (simp add: setUser_def stream_def)

lemma sends_migration:
  assumes "\<And>k i j. P k (NewEnvelope st TypeHostChanged ''server'' [] (PHostChanged i j))"
  shows "sends P w (snd (tryHostMigrationLocked slot st r w))"
proof (cases "earliest (wClient w) None (map snd (rClients (wRoom w r)))")
  case (Some e)
  show ?thesis
    unfolding tryHostMigrationLocked_def Let_def Some option.case snd_conv
    by (rule sends_trans [OF sends_same sends_deliver]) (simp_all add: assms)
qed (simp add: tryHostMigrationLocked_def)

lemma sends_after_leave:
  assumes "\<And>k st i j. P k (NewEnvelope st TypeHostChanged ''server'' [] (PHostChanged i j))"
  shows "sends P w (after_leave slot st c r w)"
proof -
  have w1: "sends P w (left_world c r w)" by (rule sends_same) simp
  moreover have "sends P (left_world c r w) (closed_world r (left_world c r w))"
    by (rule sends_same) simp
  moreover have "sends P (left_world c r w) (snd (tryHostMigrationLocked slot (st 0) r (left_world c r w)))"
    by (rule sends_migration) (rule assms)
  ultimately show ?thesis
    unfolding after_leave_def Let_def using sends_trans [OF w1] by simp
qed

lemma sends_leaveRoom:
  assumes "\<And>k st i j. P k (NewEnvelope st TypeHostChanged ''server'' [] (PHostChanged i j))"
  shows "sends P w (leaveRoom_locked slot st c r w)"
proof -
  obtain info where "leaveRoom_locked slot st c r w = set_phase c (Leaving r info) (after_leave slot st c r w)"
    using leaveRoom_locked_eq [of slot st c r w] by blast
  moreover have "sends P (after_leave slot st c r w) (set_phase c (Leaving r info) (after_leave slot st c r w))"
    by (rule sends_same) simp
  moreover have "sends P w (after_leave slot st c r w)"
    by (rule sends_after_leave) (rule assms)
  ultimately show ?thesis using sends_trans by simp
qed

section \<open>Payloads\<close>

text \<open>
  Which payload a message type carries.  Messages of clients that are passed on as they are have
  been decoded on the way, except for voice_signal; a pong returns what the ping held.
\<close>

definition decodes :: "'a dec \<Rightarrow> 'a \<Rightarrow> json option \<Rightarrow> bool" where
  "decodes d zero v = (case DecodePayload d zero v of Inl _ \<Rightarrow> False | Inr _ \<Rightarrow> True)"

definition forwarded :: "string \<Rightarrow> json option \<Rightarrow> bool" where
  "forwarded t v \<longleftrightarrow> t = TypeDocUpdate \<and> decodes dec_doc_update zero_doc_update v
     \<or> t = TypeSignal \<and> decodes dec_signal zero_signal v \<or> t = TypeVoiceSignal
     \<or> t = TypeRelay \<and> v \<noteq> None \<and> decodes dec_relay zero_relay v"

fun fits :: "string \<Rightarrow> payload \<Rightarrow> bool" where
  "fits t (Raw v) = (forwarded t v \<or> t = TypePong)"
| "fits t (PError c m) = (t = TypeError)"
| "fits t (PAuthOK a) = (t = TypeAuthOK)"
| "fits t (PJoinPending h) = (t = TypeJoinPending)"
| "fits t (PJoinRequest i u) = (t = TypeJoinRequest)"
| "fits t (PJoinRejected why) = (t = TypeJoinRejected)"
| "fits t (PPeerKicked why by) = (t = TypePeerKicked)"
| "fits t (PRoomClosed why h) = (t = TypeRoomClosed)"
| "fits t (PUser u) = (t = TypePeerJoined)"
| "fits t (PClientID i) = (t = TypePeerLeft)"
| "fits t (PRoomID i) = (t = TypeSyncRequest)"
| "fits t (PDocUpdateRejected i why) = (t = TypeDocUpdateRejected)"
| "fits t (PCompactionRequest i n) = (t = TypeCompactionRequest)"
| "fits t (PHostChanged i old) = (t = TypeHostChanged)"
| "fits t (PPresence p) = (t = TypePresence)"
| "fits t (PChat p) = (t = TypeChat)"

text \<open>The payloads the server makes by itself.\<close>

fun servers_own :: "payload \<Rightarrow> bool" where
  "servers_own (Raw v) = False"
| "servers_own (PPresence p) = False"
| "servers_own (PChat p) = False"
| "servers_own _ = True"

section \<open>The contract of what is sent\<close>

text \<open>
  \<open>P\<close> holds of every envelope that may be put in a queue while a message of the connection with id
  \<open>i\<close> and the given role is handled: of the server's own, of those passed on from that
  connection, and of its presence and chat messages after the server has corrected them.  \<open>ok\<close> is
  what is known of the envelopes that clients send.
\<close>

locale issuing =
  fixes P :: "envelope \<Rightarrow> bool" and ok :: "envelope \<Rightarrow> bool" and i :: string and role :: string
  assumes server: "servers_own p \<Longrightarrow> fits t p \<Longrightarrow> P (NewEnvelope st t ''server'' x p)"
    and pong: "ok env \<Longrightarrow> P (NewEnvelope st TypePong ''server'' x (ePayload env))"
    and forward: "ok env \<Longrightarrow> eFrom env = i \<Longrightarrow> forwarded (eType env) (payload_json env) \<Longrightarrow> P env"
    and presence: "ok env \<Longrightarrow> eFrom env = i \<Longrightarrow> eType env = TypePresence \<Longrightarrow>
      userID (prUser pr) = i \<Longrightarrow> userRole (prUser pr) = role \<Longrightarrow> P (env\<lparr>ePayload := PPresence pr\<rparr>)"
    and chat: "ok env \<Longrightarrow> eFrom env = i \<Longrightarrow> eType env = TypeChat \<Longrightarrow>
      userID (chUser ch) = i \<Longrightarrow> userRole (chUser ch) = role \<Longrightarrow> P (env\<lparr>ePayload := PChat ch\<rparr>)"
begin

abbreviation emits :: "world \<Rightarrow> world \<Rightarrow> bool" where "emits \<equiv> sends (\<lambda>_. P)"

lemma emits_error [simp]: "emits w (send_error slot st code message c w)"
  by (rule sends_send_error) (simp add: error_envelope_def server)

lemma emits_queue [simp]: "servers_own p \<Longrightarrow> fits t p \<Longrightarrow> emits w (queue_to slot (NewEnvelope st t ''server'' x p) c w)"
  by (rule sends_queue_to) (rule server)

lemma emits_broadcast [simp]:
  "servers_own p \<Longrightarrow> fits t p \<Longrightarrow> emits w (broadcast slot (NewEnvelope st t ''server'' x p) r y w)"
  by (rule sends_broadcast) (rule server)

lemma emits_deliver:
  "(\<And>k. servers_own (p k) \<and> fits t (p k)) \<Longrightarrow>
   emits w (w\<lparr>wClient := snd (deliver slot (\<lambda>k. NewEnvelope (st k) t ''server'' (x k) (p k)) cs (wClient w))\<rparr>)"
  by (rule sends_deliver) (simp add: server)

lemma emits_spawn [simp]: "emits w (spawn j w)"
  by (rule sends_same) (simp add: spawn_def)

lemma emits_forward:
  "ok env \<Longrightarrow> eFrom env = i \<Longrightarrow> forwarded (eType env) (payload_json env) \<Longrightarrow> emits w (Handlers.forward slot c r env w)"
  by (rule sends_forward) (rule forward)

lemma emits_relayed:
  "ok env \<Longrightarrow> eFrom env = i \<Longrightarrow> forwarded (eType env) (payload_json env) \<Longrightarrow> emits w (broadcast slot env r x w)"
  by (rule sends_broadcast) (rule forward)

section \<open>The handlers\<close>

lemma emits_doc_update:
  assumes "ok env" and "eFrom env = i" and "eType env = TypeDocUpdate"
  shows "emits w (handle_doc_update cfg slot st c r env w)"
proof (cases "DecodePayload dec_doc_update zero_doc_update (payload_json env)")
  case (Inr p)
  then have "emits v (broadcast slot env r x v)" for v x
    using assms by (intro emits_relayed) (simp_all add: forwarded_def decodes_def)
  moreover from this have "emits w (broadcast slot env r x (spawn j w))" for x j
    by (rule sends_trans [OF emits_spawn])
  ultimately show ?thesis by (simp add: handle_doc_update_def Let_def split: sum.split option.split)
qed (simp add: handle_doc_update_def)

lemma emits_doc_snapshot: "emits w (handle_doc_snapshot cfg slot st c r env w)"
  by (simp add: handle_doc_snapshot_def split: sum.split)

lemma emits_presence:
  assumes "ok env" and "eFrom env = i" and "eType env = TypePresence"
    and "cID (wClient w c) = i" and "role_of c r w = role"
  shows "emits w (handle_presence slot st now c r env w)"
proof -
  have "emits w (broadcast slot (env\<lparr>ePayload := PPresence (p\<lparr>prUser := u\<lparr>userID := cID (wClient w c), userLastSeen := now,
        userRole := role_of c r w\<rparr>\<rparr>)\<rparr>) r x (set_client c (setUser v (wClient w c)) w))" for p u v x
    using assms by (intro sends_trans [OF sends_client_same sends_broadcast] presence) simp_all
  then show ?thesis by (simp add: handle_presence_def Let_def split: sum.split)
qed

lemma emits_chat:
  assumes "ok env" and "eFrom env = i" and "eType env = TypeChat"
    and "cID (wClient w c) = i" and "role_of c r w = role"
  shows "emits w (handle_chat slot st c r env w)"
proof -
  have "emits w (broadcast slot (env\<lparr>ePayload := PChat (p\<lparr>chUser := u\<lparr>userID := cID (wClient w c),
        userRole := role_of c r w\<rparr>, chText := t\<rparr>)\<rparr>) r x w)" for p u t x
    using assms by (intro sends_broadcast chat) simp_all
  then show ?thesis by (simp add: handle_chat_def Let_def split: sum.split)
qed

lemma emits_signal:
  assumes "ok env" and "eFrom env = i" and "eType env = TypeSignal"
  shows "emits w (handle_signal slot st c r env w)"
proof (cases "DecodePayload dec_signal zero_signal (payload_json env)")
  case (Inr p)
  then have "emits w (Handlers.forward slot c r env w)"
    using assms by (intro emits_forward) (simp_all add: forwarded_def decodes_def)
  with Inr show ?thesis by (simp add: handle_signal_def)
qed (simp add: handle_signal_def)

lemma emits_relay:
  assumes "ok env" and "eFrom env = i" and "eType env = TypeRelay"
  shows "emits w (handle_relay slot st c r env w)"
proof (cases "Option.bind (payload_json env) (\<lambda>v. dec_relay v zero_relay)")
  case (Some p)
  then obtain v where "payload_json env = Some v" "dec_relay v zero_relay = Some p"
    by (cases "payload_json env") auto
  then have ok: "forwarded (eType env) (payload_json env)"
    using assms(3) by (simp add: forwarded_def decodes_def DecodePayload_def)
  then have "emits w (Handlers.forward slot c r env w)" "emits w (broadcast slot env r x w)" for x
    using assms by (simp_all add: emits_forward emits_relayed)
  with Some show ?thesis by (simp add: handle_relay_def)
qed (simp add: handle_relay_def)

lemma emits_join_decision: "emits w (handle_join_decision slot st c r env w)"
  by (simp add: handle_join_decision_def sends_same split: sum.split option.split)

lemma emits_ping: "ok env \<Longrightarrow> emits w (handle_ping slot st c env w)"
  unfolding handle_ping_def by (rule sends_queue_to) (rule pong)

lemma emits_kick: "emits w (handle_peer_kick slot st c r env w)"
proof -
  have "emits w (broadcast slot (NewEnvelope st2 TypePeerLeft ''server'' [] (PClientID x)) r []
    (set_room r y (shutdown_client k (queue_to slot (NewEnvelope st1 TypePeerKicked ''server'' x (PPeerKicked why b)) k w))))"
    (is "emits w (broadcast slot ?left r [] (set_room r y (shutdown_client k ?q)))") for st1 st2 x y k why b
  proof -
    have "emits w ?q" by simp
    moreover have "emits ?q (set_room r y (shutdown_client k ?q))" by (rule sends_same) simp
    ultimately show ?thesis by (rule sends_trans [OF sends_trans emits_broadcast]) simp_all
  qed
  then show ?thesis by (simp add: handle_peer_kick_def Let_def split: sum.split option.split)
qed

lemma emits_handleEnvelope:
  assumes "ok env" and "eFrom env = i" and "cID (wClient w c) = i" and "role_of c r w = role"
  shows "emits w (handleEnvelope cfg slot st now c r env w)"
  using assms emits_forward [OF assms(1,2)]
  by (simp add: handleEnvelope_def emits_doc_update emits_doc_snapshot emits_presence emits_chat emits_signal
      emits_relay emits_join_decision emits_ping emits_kick forwarded_def)

section \<open>Leaving\<close>

lemma emits_leaveRoom: "emits w (leaveRoom_locked slot st c r w)"
  by (rule sends_leaveRoom) (simp add: server)

lemma emits_readLoop:
  assumes "\<And>env. frame = Some env \<Longrightarrow> ok (env\<lparr>eFrom := i, eSentAt := now\<rparr>)"
    and "cID (wClient w c) = i" and "role_of c r w = role"
  shows "emits w (readLoop_iter cfg slot st now allow c r frame w)"
proof -
  have viol: "emits w (set_client c ((wClient w c)\<lparr>cViolations := n\<rparr>) w)" for n
    by (rule sends_client_same) (simp add: stream_def)
  have "emits (set_client c ((wClient w c)\<lparr>cViolations := 0\<rparr>) w)
      (handleEnvelope cfg slot st now c r (env\<lparr>eFrom := i, eSentAt := now\<rparr>) (set_client c ((wClient w c)\<lparr>cViolations := 0\<rparr>) w))"
    if "frame = Some env" for env
    using assms that by (intro emits_handleEnvelope) (simp_all add: role_of_def)
  then have "emits w (handleEnvelope cfg slot st now c r (env\<lparr>eFrom := i, eSentAt := now\<rparr>)
      (set_client c ((wClient w c)\<lparr>cViolations := 0\<rparr>) w))" if "frame = Some env" for env
    using that by (intro sends_trans [OF viol])
  then show ?thesis
    using viol sends_trans [OF viol emits_leaveRoom] emits_leaveRoom
    by (simp add: readLoop_iter_def Let_def assms(2) split: option.split)
qed

end

text \<open>
  First interpretation: what a message of connection \<open>c\<close> may make others receive is issued by the
  server, or is the message itself under the sender's id, with the user it really is and the role
  it really has.
\<close>

definition authentic :: "world \<Rightarrow> nat \<Rightarrow> nat \<Rightarrow> envelope \<Rightarrow> bool" where
  "authentic w c r e \<longleftrightarrow>
     (eFrom e = cID (wClient w c) \<or> eFrom e = ''server'') \<and>
     (eType e = TypePresence \<longrightarrow>
        (\<exists>p. ePayload e = PPresence p \<and> userID (prUser p) = cID (wClient w c) \<and> userRole (prUser p) = role_of c r w)) \<and>
     (eType e = TypeChat \<longrightarrow>
        (\<exists>p. ePayload e = PChat p \<and> userID (chUser p) = cID (wClient w c) \<and> userRole (chUser p) = role_of c r w))"

interpretation authentic: issuing "authentic w c r" "\<lambda>_. True" "cID (wClient w c)" "role_of c r w" for w c r
proof
  fix p t st x
  assume "servers_own p" "fits t p"
  then show "authentic w c r (NewEnvelope st t ''server'' x p)" by (cases p) (auto simp: authentic_def type_defs)
qed (auto simp: authentic_def forwarded_def type_defs)

end
