(* ===== verification/Demo.thy ===== *)
theory Demo
  imports System
begin

text \<open>
  States on which the properties of the hub are witnessed: the one after \<open>a\<close> has created the room
  \<open>r\<close>, reached from the empty server, and two written out, in which \<open>b\<close> is waiting for the host's
  decision and in which \<open>a\<close> and \<open>b\<close> are both in the room.
\<close>

definition demo_sv :: server where
  "demo_sv = \<lparr>svHmac = (\<lambda>_ m. m), svCfg = default_cfg ''s'', svBind = id, svForeignKeys = True\<rparr>"

definition json_frame :: "string \<Rightarrow> (string \<times> json) list \<Rightarrow> envelope" where
  "json_frame t kvs = \<lparr>eVersion = 1, eType = t, eID = ''m'', eFrom = [], eTo = [], eSentAt = [],
     ePayload = Raw (Some (JObj kvs))\<rparr>"

definition auth_frame :: "string \<Rightarrow> envelope" where
  "auth_frame i = json_frame TypeAuth [(''roomId'', JStr ''r''), (''roomKey'', JStr ''k''),
     (''user'', JObj [(''id'', JStr i)])]"

definition approve_frame :: envelope where
  "approve_frame = json_frame TypeJoinDecision [(''requestId'', JStr ''q''), (''approved'', JBool True)]"

definition always :: slots where "always n = True"
definition stamped :: stamps where "stamped n = (None, ''t'')"
definition no_random :: "nat \<Rightarrow> bytes option" where "no_random n = None"
definition no_state :: room_state where "no_state = \<lparr>CompactState = None, Updates = []\<rparr>"

definition demo_auth :: "string \<Rightarrow> time \<Rightarrow> db \<Rightarrow> auth_result \<times> db" where
  "demo_auth i t = handleSocket_auth (svHmac demo_sv) (svCfg demo_sv) (stamped 0) None no_fails no_fails
     ''t1'' t (Some (auth_frame i))"

definition demo_connect :: "string \<Rightarrow> time \<Rightarrow> world \<Rightarrow> world" where
  "demo_connect i t w = (case demo_auth i t (wDB w) of
     (AuthAccepted x s, db) \<Rightarrow> connect x s db w | (_, db) \<Rightarrow> w\<lparr>wDB := db\<rparr>)"

definition demo_join :: "nat \<Rightarrow> world \<Rightarrow> world" where
  "demo_join c w = joinRoom_enter (svCfg demo_sv) always stamped no_random None 1 c 0 no_state
     (joinRoom_lookup (svCfg demo_sv) always stamped c no_state w)"

definition demo_message :: "nat \<Rightarrow> envelope \<Rightarrow> world \<Rightarrow> world" where
  "demo_message c env = readLoop_iter (svCfg demo_sv) always stamped ''t2'' True c 0 (Some env)"

definition approval :: join_decision where "approval = \<lparr>approved = True, reason = []\<rparr>"

definition host_world :: world where
  "host_world = demo_join 0 (demo_connect ''a'' 1 (init_world empty_db))"

definition demo_client :: "string \<Rightarrow> string \<Rightarrow> time \<Rightarrow> client" where
  "demo_client i role t = new_client ''r'' (zero_user\<lparr>userID := i, userRole := role\<rparr>) t"

definition demo_room :: "(string \<times> nat) list \<Rightarrow> (string \<times> nat) list \<Rightarrow> room" where
  "demo_room cs ps = \<lparr>rID = ''r'', rHostID = ''a'', rClosed = False, rClients = cs, rPending = ps\<rparr>"

definition demo_world :: "room \<Rightarrow> phase \<Rightarrow> world" where
  "demo_world room ph =
     \<lparr>wRooms = [(''r'', 0)], wRoom = (\<lambda>_. room), wNextRoom = 1,
      wPending = (\<lambda>_. \<lparr>pjRequestID = ''q'', pjClient = 1, pjState = no_state, pjCreatedAt = 0, pjResult = None\<rparr>),
      wNextPending = 1,
      wClient = (\<lambda>k. if k = 0 then demo_client ''a'' ''host'' 1 else demo_client ''b'' ''collaborator'' 2),
      wPhase = (\<lambda>k. if k = 0 then Reading 0 else ph), wNextClient = 2, wJobs = [], wDB = empty_db\<rparr>"

definition pending_world :: world where
  "pending_world = demo_world (demo_room [(''a'', 0)] [(''b'', 0)]) (Waiting 0 0)"

definition pair_world :: world where
  "pair_world = demo_world (demo_room [(''a'', 0), (''b'', 1)] []) (Reading 0)"

definition approved_world :: world where
  "approved_world = demo_message 0 approve_frame pending_world"

definition decided_world :: world where
  "decided_world = receive_decision 1 0 0 approval approved_world"

definition admitted_world :: world where
  "admitted_world = joinRoom_finish always stamped 1 0 0 approval decided_world"

definition admitted_events :: "event list" where
  "admitted_events = [Message 0 True (Some approve_frame), Decision 1, Finish 1]"

section \<open>The run\<close>

definition accepted :: "auth_result \<times> db \<Rightarrow> bool" where
  "accepted out = (case fst out of AuthAccepted _ _ \<Rightarrow> True | _ \<Rightarrow> False)"

lemma demo_connect_step:
  assumes "accepted (demo_auth i t (wDB w))"
  shows "hub_step demo_sv w Connect (demo_connect i t w)"
proof -
  obtain x s db where auth: "demo_auth i t (wDB w) = (AuthAccepted x s, db)"
    using assms by (cases "demo_auth i t (wDB w)") (auto simp: accepted_def split: auth_result.splits)
  then show ?thesis
    using hub_step.connect [OF auth [unfolded demo_auth_def]] by (simp add: demo_connect_def)
qed

lemma demo_join_steps:
  assumes run: "hub_run demo_sv w0 es w" and c: "c < wNextClient w" and ph: "wPhase w c = Authed no_state"
    and w1: "w1 = joinRoom_lookup (svCfg demo_sv) always stamped c no_state w"
    and ph1: "wPhase w1 c = Entering 0 no_state" "wNextClient w1 = wNextClient w"
    and free: "\<not> id_taken (wRoom w1 0) (uniqueClientIDLocked no_random (wRoom w1 0) (cID (wClient w1 c)))"
  shows "hub_run demo_sv w0 (es @ [Lookup c, Enter c]) (demo_join c w)"
proof -
  have "hub_run demo_sv w0 (es @ [Lookup c]) w1"
    unfolding w1 by (rule hub_run.step [OF run hub_step.lookup [OF c ph]])
  moreover have "hub_step demo_sv w1 (Enter c) (demo_join c w)"
    unfolding demo_join_def w1 [symmetric]
    by (rule hub_step.enter) (use c ph1 free in simp_all)
  ultimately show ?thesis using hub_run.step by fastforce
qed

lemma host_run: "hub_run demo_sv (init_world empty_db) [Connect, Lookup 0, Enter 0] host_world"
proof -
  let ?w = "demo_connect ''a'' 1 (init_world empty_db)"
  have "accepted (demo_auth ''a'' 1 (wDB (init_world empty_db)))" by code_simp
  then have run: "hub_run demo_sv (init_world empty_db) ([] @ [Connect]) ?w"
    by (rule hub_run.step [OF hub_run.start demo_connect_step])
  have "hub_run demo_sv (init_world empty_db) (([] @ [Connect]) @ [Lookup 0, Enter 0]) (demo_join 0 ?w)"
    by (rule demo_join_steps [OF run _ _ refl]) code_simp+
  then show ?thesis by (simp add: host_world_def)
qed

lemma host_reachable: "reachable demo_sv host_world"
  unfolding reachable_def using host_run by blast

lemma host_state:
  "wNextRoom host_world = 1" "rClients (wRoom host_world 0) = [(''a'', 0)]" "wPhase host_world 0 = Reading 0"
  by code_simp+

section \<open>The written states\<close>

lemma demo_world_sel [simp]:
  "wRooms (demo_world room ph) = [(''r'', 0)]" "wRoom (demo_world room ph) = (\<lambda>_. room)"
  "wNextRoom (demo_world room ph) = 1" "wNextPending (demo_world room ph) = 1"
  "wNextClient (demo_world room ph) = 2" "wJobs (demo_world room ph) = []" "wDB (demo_world room ph) = empty_db"
  "pjClient (wPending (demo_world room ph) p) = 1"
  "wPhase (demo_world room ph) k = (if k = 0 then Reading 0 else ph)"
  "wClient (demo_world room ph) k =
     (if k = 0 then demo_client ''a'' ''host'' 1 else demo_client ''b'' ''collaborator'' 2)"
  by (simp_all add: demo_world_def)

lemma demo_client_sel [simp]:
  "cID (demo_client i role t) = i" "cRoomID (demo_client i role t) = ''r''"
  "\<not> cClosed (demo_client i role t)" "cJoinedAt (demo_client i role t) = t"
  "userID (cUser (demo_client i role t)) = i" "userRole (cUser (demo_client i role t)) = role"
  by (simp_all add: demo_client_def new_client_def)

lemma demo_room_sel [simp]:
  "rID (demo_room cs ps) = ''r''" "rHostID (demo_room cs ps) = ''a''" "\<not> rClosed (demo_room cs ps)"
  "rClients (demo_room cs ps) = cs" "rPending (demo_room cs ps) = ps"
  by (simp_all add: demo_room_def)

lemma less_2: "(k :: nat) < 2 \<longleftrightarrow> k = 0 \<or> k = 1"
  by auto

lemma pair_inv: "hub_inv pair_world"
  by (auto simp: hub_inv_def pair_world_def inv_defs entry_defs role_for_def less_2)

lemma pending_inv: "hub_inv pending_world"
  by (auto simp: hub_inv_def pending_world_def inv_defs entry_defs role_for_def less_2)

lemma pair_state:
  "wNextRoom pair_world = 1" "wNextClient pair_world = 2" "wPhase pair_world k = Reading 0"
  "rClients (wRoom pair_world r) = [(''a'', 0), (''b'', 1)]" "rHostID (wRoom pair_world r) = ''a''"
  "\<not> rClosed (wRoom pair_world r)" "cID (wClient pair_world 0) = ''a''" "cID (wClient pair_world 1) = ''b''"
  by (simp_all add: pair_world_def)

lemma admitted_run: "hub_run demo_sv pending_world admitted_events admitted_world"
proof -
  have "hub_step demo_sv pending_world (Message 0 True (Some approve_frame)) approved_world"
    unfolding approved_world_def demo_message_def by (rule hub_step.message) code_simp+
  note run1 = hub_run.step [OF hub_run.start this]
  have "hub_step demo_sv approved_world (Decision 1) decided_world"
    unfolding decided_world_def by (rule hub_step.decision) code_simp+
  note run2 = hub_run.step [OF run1 this]
  have "hub_step demo_sv decided_world (Finish 1) admitted_world"
    unfolding admitted_world_def by (rule hub_step.finish) code_simp+
  note run3 = hub_run.step [OF run2 this]
  then show ?thesis by (simp add: admitted_events_def)
qed

lemma admitted_members: "rClients (wRoom admitted_world 0) = [(''a'', 0), (''b'', 1)]"
  by code_simp

end
