(* ===== verification/Authority.thy ===== *)
theory Authority
  imports Streams Demo
begin

text \<open>
  Who may change a room: what each step can do to a room's members, to the pending decisions and
  to the phase of a connection.
\<close>

section \<open>Members\<close>

abbreviation members :: "world \<Rightarrow> nat \<Rightarrow> (string \<times> nat) set" where
  "members w r \<equiv> set (rClients (wRoom w r))"

lemma quiet_members: "quiet w w' \<Longrightarrow> members w' q = members w q"
  by (simp add: quiet_sel)

lemma members_presence [simp]: "wRoom (handle_presence slot st now c r env w) = wRoom w"
  by (simp add: handle_presence_def Let_def split: sum.split)

lemma members_decision [simp]: "wRoom (handle_join_decision slot st c r env w) = wRoom w"
  by (simp add: handle_join_decision_def split: sum.split option.split)

text \<open>A kick takes out the entry it names, and only the host can do it.\<close>

lemma kick_room:
  "wRoom (handle_peer_kick slot st c r env w) = wRoom w
   \<or> is_host c r w \<and> (\<exists>i. wRoom (handle_peer_kick slot st c r env w) =
        (wRoom w)(r := (wRoom w r)\<lparr>rClients := AList.delete i (rClients (wRoom w r))\<rparr>))"
  by (auto simp: handle_peer_kick_def Let_def split: sum.split option.split)

lemma after_leave_room:
  "q \<noteq> r \<Longrightarrow> wRoom (after_leave slot st c r w) q = wRoom w q"
  "rClients (wRoom (after_leave slot st c r w) r) = AList.delete (cID (wClient w c)) (rClients (wRoom w r))"
proof -
  have other: "wRoom (left_world c r w) q = wRoom w q" "wRoom (snd (tryHostMigrationLocked slot st0 r v)) q = wRoom v q"
    if "q \<noteq> r" for st0 v
    using that by (auto simp: left_world_def tryHostMigrationLocked_def Let_def split: option.split)
  show "q \<noteq> r \<Longrightarrow> wRoom (after_leave slot st c r w) q = wRoom w q"
    by (simp add: after_leave_def Let_def other)
  show "rClients (wRoom (after_leave slot st c r w) r) = AList.delete (cID (wClient w c)) (rClients (wRoom w r))"
    by (simp add: after_leave_def Let_def)
qed

lemma leaveRoom_room:
  "q \<noteq> r \<Longrightarrow> wRoom (leaveRoom_locked slot st c r w) q = wRoom w q"
  "rClients (wRoom (leaveRoom_locked slot st c r w) r) = AList.delete (cID (wClient w c)) (rClients (wRoom w r))"
  "wPhase (leaveRoom_locked slot st c r w) = (wPhase w)(c := wPhase (leaveRoom_locked slot st c r w) c)"
  "\<exists>info. wPhase (leaveRoom_locked slot st c r w) c = Leaving r info"
proof -
  obtain info where eq: "leaveRoom_locked slot st c r w = set_phase c (Leaving r info) (after_leave slot st c r w)"
    using leaveRoom_locked_eq [of slot st c r w] by blast
  show "q \<noteq> r \<Longrightarrow> wRoom (leaveRoom_locked slot st c r w) q = wRoom w q"
    and "rClients (wRoom (leaveRoom_locked slot st c r w) r) = AList.delete (cID (wClient w c)) (rClients (wRoom w r))"
    and "wPhase (leaveRoom_locked slot st c r w) = (wPhase w)(c := wPhase (leaveRoom_locked slot st c r w) c)"
    and "\<exists>info. wPhase (leaveRoom_locked slot st c r w) c = Leaving r info"
    by (simp_all add: eq after_leave_room)
qed

text \<open>The branches of one iteration of \<open>readLoop\<close>.\<close>

lemma readLoop_cases:
  assumes "w' = readLoop_iter cfg slot st now allow c r frame w"
  obtains (eof) "frame = None" "w' = leaveRoom_locked slot st c r w"
  | (flood) n where "\<not> allow" "w' = leaveRoom_locked slot st c r (set_client c ((wClient w c)\<lparr>cViolations := n\<rparr>) w)"
  | (dropped) n where "\<not> allow" "w' = set_client c ((wClient w c)\<lparr>cViolations := n\<rparr>) w"
  | (handled) env where "frame = Some env" "allow"
      "w' = handleEnvelope cfg slot st now c r (env\<lparr>eFrom := cID (wClient w c), eSentAt := now\<rparr>)
         (set_client c ((wClient w c)\<lparr>cViolations := 0\<rparr>) w)"
proof (cases frame)
  case None
  with assms eof show thesis by (simp add: readLoop_iter_def)
next
  case (Some env)
  show thesis
  proof (cases allow)
    case True
    with Some assms handled show thesis by (simp add: readLoop_iter_def Let_def)
  next
    case False
    show thesis
    proof (cases "cViolations (wClient w c) + 1 > rateLimitMaxConsecutiveViolations")
      case True
      with Some False assms show thesis by (intro flood) (simp_all add: readLoop_iter_def Let_def)
    next
      case no: False
      with Some False assms show thesis by (intro dropped) (simp_all add: readLoop_iter_def Let_def)
    qed
  qed
qed

text \<open>One message: what it takes out of the room, and why.\<close>

definition left_by :: "world \<Rightarrow> nat \<Rightarrow> nat \<Rightarrow> envelope option \<Rightarrow> string \<Rightarrow> bool" where
  "left_by w c r frame i \<longleftrightarrow>
     cID (wClient w c) = i \<or>
     is_host c r w \<and> (\<exists>env. frame = Some env \<and> eType env = TypePeerKick)"

definition members_step :: "world \<Rightarrow> world \<Rightarrow> nat \<Rightarrow> (string \<Rightarrow> bool) \<Rightarrow> bool" where
  "members_step w w' r why \<longleftrightarrow>
     (\<forall>q. q \<noteq> r \<longrightarrow> wRoom w' q = wRoom w q) \<and> members w' r \<subseteq> members w r \<and>
     (\<forall>i k. (i, k) \<in> members w r \<longrightarrow> (i, k) \<notin> members w' r \<longrightarrow> why i)"

lemma members_step_same: "wRoom w' = wRoom w \<Longrightarrow> members_step w w' r why"
  by (simp add: members_step_def)

lemma members_leave:
  "wRoom v = wRoom w \<Longrightarrow> wClient v c = wClient w c \<or> cID (wClient v c) = cID (wClient w c) \<Longrightarrow>
   members_step w (leaveRoom_locked slot st c r v) r (left_by w c r frame)"
  by (auto simp: members_step_def leaveRoom_room left_by_def)

lemma message_members:
  assumes "w' = readLoop_iter cfg slot st now allow c r frame w"
  shows "members_step w w' r (left_by w c r frame)"
  using assms
proof (cases rule: readLoop_cases)
  case (handled env)
  let ?v = "set_client c ((wClient w c)\<lparr>cViolations := 0\<rparr>) w"
  let ?e = "env\<lparr>eFrom := cID (wClient w c), eSentAt := now\<rparr>"
  show ?thesis
  proof (cases rule: handleEnvelope_cases [of ?v cfg slot st now c r ?e])
    case 1
    with handled(3) show ?thesis by (intro members_step_same) (simp add: quiet_sel)
  next
    case 4
    have host: "is_host c r ?v = is_host c r w" by (simp add: is_host_def)
    have "wRoom w' = wRoom w \<or> is_host c r w \<and> (\<exists>i. wRoom w' =
        (wRoom w)(r := (wRoom w r)\<lparr>rClients := AList.delete i (rClients (wRoom w r))\<rparr>))"
      using kick_room [of slot st c r ?e ?v] handled(3) 4(2) by (simp add: host)
    with 4(1) handled(1) show ?thesis by (auto simp: members_step_def left_by_def)
  qed (use handled(3) in \<open>simp_all add: members_step_same\<close>)
qed (simp_all add: members_step_same members_leave)

section \<open>Decisions\<close>

text \<open>An approval in a message of the host: the request it names is the one of pending join \<open>p\<close>.\<close>

definition approves :: "world \<Rightarrow> nat \<Rightarrow> nat \<Rightarrow> nat \<Rightarrow> envelope option \<Rightarrow> bool" where
  "approves w c r p frame \<longleftrightarrow> is_host c r w \<and>
     (\<exists>env d. frame = Some env \<and> eType env = TypeJoinDecision \<and>
        DecodePayload dec_join_decision zero_join_decision (payload_json env) = Inr d \<and>
        jdApproved d \<and> pjRequestID (wPending w p) = jdRequestID d \<and>
        p \<in> snd ` set (rPending (wRoom w r)))"

definition decided :: "world \<Rightarrow> nat \<Rightarrow> bool" where
  "decided w p \<longleftrightarrow> (\<exists>d. pjResult (wPending w p) = Some d \<and> approved d)"

lemma decide_result:
  "pjResult (snd (decide d x)) = Some e \<Longrightarrow> pjResult x = Some e \<or> e = d"
  by (auto simp: decide_def split: option.splits)

lemma refuse_results:
  assumes "pjResult (foldl (\<lambda>h p. h(p := snd (decide \<lparr>approved = False, reason = t\<rparr> (h p)))) h ps q) = Some e"
    and "approved e"
  shows "pjResult (h q) = Some e"
  using assms(1)
proof (induction ps arbitrary: h)
  case (Cons p ps)
  have "pjResult ((h(p := snd (decide \<lparr>approved = False, reason = t\<rparr> (h p)))) q) = Some e"
    by (rule Cons.IH) (use Cons.prems in simp)
  then show ?case
    using decide_result [of "\<lparr>approved = False, reason = t\<rparr>" "h p" e] assms(2) by (auto split: if_splits)
qed simp

lemma migration_pending [simp]: "wPending (snd (tryHostMigrationLocked slot s r v)) = wPending v"
  by (simp add: tryHostMigrationLocked_def Let_def split: option.split)

lemma closed_world_decided: "decided (closed_world r v) p \<Longrightarrow> decided v p"
  using refuse_results [of txt_host_left]
  by (force simp: decided_def closed_world_def close_pending_def Let_def)

lemma after_leave_decided:
  assumes "decided (after_leave slot st c r w) p"
  shows "decided w p"
proof -
  have "decided (left_world c r w) p"
  proof (cases "host_leaves c r w")
    case True
    with assms closed_world_decided [of r "left_world c r w" p] show ?thesis
      unfolding after_leave_def Let_def by (auto simp: decided_def split: if_splits)
  qed (use assms in \<open>simp add: after_leave_def\<close>)
  then show ?thesis by (simp add: decided_def)
qed

lemma leaveRoom_decided: "decided (leaveRoom_locked slot st c r w) p \<Longrightarrow> decided w p"
proof -
  obtain info where "leaveRoom_locked slot st c r w = set_phase c (Leaving r info) (after_leave slot st c r w)"
    using leaveRoom_locked_eq [of slot st c r w] by blast
  then have "decided (leaveRoom_locked slot st c r w) p = decided (after_leave slot st c r w) p"
    by (simp add: decided_def)
  with after_leave_decided [of slot st c r w p]
  show "decided (leaveRoom_locked slot st c r w) p \<Longrightarrow> decided w p" by simp
qed

lemma presence_pending [simp]: "wPending (handle_presence slot st now c r env w) = wPending w"
  by (simp add: handle_presence_def Let_def split: sum.split)

lemma kick_pending [simp]: "wPending (handle_peer_kick slot st c r env w) = wPending w"
  by (auto simp: handle_peer_kick_def Let_def split: sum.split option.split)

lemma decision_decided:
  assumes "decided (handle_join_decision slot st c r env w) p" and "eType env = TypeJoinDecision"
  shows "decided w p \<or> approves w c r p (Some env)"
proof (cases "is_host c r w")
  case host: True
  show ?thesis
  proof (cases "DecodePayload dec_join_decision zero_join_decision (payload_json env)")
    case (Inr d)
    show ?thesis
    proof (cases "find (\<lambda>p. pjRequestID (wPending w p) = jdRequestID d) (map snd (rPending (wRoom w r)))")
      case (Some q)
      have q: "pjRequestID (wPending w q) = jdRequestID d" "q \<in> snd ` set (rPending (wRoom w r))"
        using Some by (auto simp: find_Some_iff)
      show ?thesis
      proof (cases "p = q")
        case True
        with assms(1) host Inr Some have "decided w q \<or> jdApproved d"
          by (auto simp: handle_join_decision_def decided_def dest!: decide_result)
        with q True host Inr assms(2) show ?thesis by (auto simp: approves_def)
      qed (use assms(1) host Inr Some in \<open>simp add: handle_join_decision_def decided_def\<close>)
    qed (use assms(1) host Inr in \<open>simp add: handle_join_decision_def\<close>)
  qed (use assms(1) host in \<open>simp add: handle_join_decision_def\<close>)
qed (use assms(1) in \<open>simp add: handle_join_decision_def decided_def\<close>)

lemma approves_stamp:
  "approves (set_client c ((wClient w c)\<lparr>cViolations := n\<rparr>) w) c r p (Some (env\<lparr>eFrom := x, eSentAt := y\<rparr>))
     = approves w c r p (Some env)"
  by (simp add: approves_def is_host_def payload_json_def)

lemma message_decided:
  assumes "w' = readLoop_iter cfg slot st now allow c r frame w" and "decided w' p"
  shows "decided w p \<or> allow \<and> approves w c r p frame"
  using assms(1)
proof (cases rule: readLoop_cases)
  case (flood n)
  then show ?thesis using leaveRoom_decided assms(2) by (fastforce simp: decided_def)
next
  case (handled env)
  let ?v = "set_client c ((wClient w c)\<lparr>cViolations := 0\<rparr>) w"
  let ?e = "env\<lparr>eFrom := cID (wClient w c), eSentAt := now\<rparr>"
  show ?thesis
  proof (cases rule: handleEnvelope_cases [of ?v cfg slot st now c r ?e])
    case 3
    with assms(2) handled(3) decision_decided [of slot st c r ?e ?v p]
    have "decided ?v p \<or> approves ?v c r p (Some ?e)" by simp
    then show ?thesis using handled(1,2) by (auto simp: approves_stamp decided_def)
  qed (use assms(2) handled(3) in \<open>simp_all add: decided_def quiet_sel\<close>)
qed (use assms(2) leaveRoom_decided in \<open>auto simp: decided_def\<close>)

end
