(* ===== verification/Runs.thy ===== *)
theory Runs
  imports Authority
begin

text \<open>
  The steps of the whole system read as rules: how a connection becomes a member of a room, how
  it stops being one, where an approval comes from.  Followed along a run they give the origin of
  every membership.
\<close>

section \<open>One step\<close>

lemma reject_room [simp]: "wRoom (reject slot st c why w) = wRoom w"
  by simp

lemma lookup_rooms:
  "wRoom (joinRoom_lookup cfg slot st c state w) q = wRoom w q \<or>
   rClients (wRoom (joinRoom_lookup cfg slot st c state w) q) = [] \<and> q = wNextRoom w"
  "wPending (joinRoom_lookup cfg slot st c state w) = wPending w"
  "x \<noteq> c \<Longrightarrow> wPhase (joinRoom_lookup cfg slot st c state w) x = wPhase w x"
  "\<not> in_join (wPhase (joinRoom_lookup cfg slot st c state w) c) r p"
  by (auto simp: joinRoom_lookup_def hub_room_def Let_def empty_room_def split: option.split)

lemma enter_rooms:
  fixes w slot st rnd reqrnd now c r state cfg
  assumes w': "w' = joinRoom_enter cfg slot st rnd reqrnd now c r state w"
  shows "q \<noteq> r \<Longrightarrow> wRoom w' q = wRoom w q"
    and "(i, k) \<in> members w' r \<Longrightarrow> (i, k) \<in> members w r \<or> k = c \<and> rHostID (wRoom w r) = []"
    and "rHostID (wRoom w r) \<noteq> [] \<Longrightarrow> members w' r = members w r"
    and "x \<noteq> c \<Longrightarrow> wPhase w' x = wPhase w x"
    and "in_join (wPhase w' c) s p \<Longrightarrow> \<not> decided w' p"
    and "wPhase w' c \<noteq> Decided s p d"
    and "decided w' p \<Longrightarrow> decided w p"
proof -
  let ?i = "uniqueClientIDLocked rnd (wRoom w r) (cID (wClient w c))"
  let ?v = "\<lambda>role. set_client c ((setUser ((getUser (wClient w c))\<lparr>userID := ?i, userRole := role\<rparr>) (wClient w c))
      \<lparr>cID := ?i\<rparr>) w"
  consider (host) "rHostID (wRoom w r) = []" "w' = join_as_host slot st c state r (?v ''host'')"
    | (reject) why where "rHostID (wRoom w r) \<noteq> []" "w' = reject slot (st 0) c why (?v ''collaborator'')"
    | (wait) "rHostID (wRoom w r) \<noteq> []" "w' = join_as_pending slot st reqrnd now c state r (?v ''collaborator'')"
  proof -
    have "rHostID (wRoom w r) = [] \<Longrightarrow> w' = join_as_host slot st c state r (?v ''host'')"
      "rHostID (wRoom w r) \<noteq> [] \<Longrightarrow> rClosed (wRoom w r) \<Longrightarrow>
        w' = reject slot (st 0) c txt_room_closed (?v ''collaborator'')"
      "rHostID (wRoom w r) \<noteq> [] \<Longrightarrow> \<not> rClosed (wRoom w r) \<Longrightarrow> room_full cfg (wRoom w r) \<Longrightarrow>
        w' = reject slot (st 0) c (txt_room_full cfg) (?v ''collaborator'')"
      "rHostID (wRoom w r) \<noteq> [] \<Longrightarrow> \<not> rClosed (wRoom w r) \<Longrightarrow> \<not> room_full cfg (wRoom w r) \<Longrightarrow>
        w' = join_as_pending slot st reqrnd now c state r (?v ''collaborator'')"
      by (simp_all add: w' joinRoom_enter_def Let_def)
    then show thesis using that by blast
  qed
  then have "(q \<noteq> r \<longrightarrow> wRoom w' q = wRoom w q) \<and>
      ((i, k) \<in> members w' r \<longrightarrow> (i, k) \<in> members w r \<or> k = c \<and> rHostID (wRoom w r) = []) \<and>
      (rHostID (wRoom w r) \<noteq> [] \<longrightarrow> members w' r = members w r) \<and>
      (x \<noteq> c \<longrightarrow> wPhase w' x = wPhase w x) \<and>
      (in_join (wPhase w' c) s p \<longrightarrow> \<not> decided w' p) \<and> wPhase w' c \<noteq> Decided s p d \<and>
      (decided w' p \<longrightarrow> decided w p)"
  proof cases
    case host
    then show ?thesis by (auto simp: join_as_host_def Let_def decided_def dest: in_set_updateD)
  next
    case (reject why)
    then show ?thesis by (simp add: decided_def)
  next
    case wait
    have new: "wPending w' p = (if p = wNextPending w
        then \<lparr>pjRequestID = NewID ''join'' reqrnd, pjClient = c, pjState = state, pjCreatedAt = now, pjResult = None\<rparr>
        else wPending w p)"
      unfolding wait(2) join_as_pending_def Let_def by (simp split: option.split)
    note sel = join_pending_sel(5,7) [of slot st reqrnd now c state r "?v ''collaborator''", folded wait(2)]
    show ?thesis
      using wait(1) by (auto simp: sel new decided_def)
  qed
  then show "q \<noteq> r \<Longrightarrow> wRoom w' q = wRoom w q"
    "(i, k) \<in> members w' r \<Longrightarrow> (i, k) \<in> members w r \<or> k = c \<and> rHostID (wRoom w r) = []"
    "rHostID (wRoom w r) \<noteq> [] \<Longrightarrow> members w' r = members w r"
    "x \<noteq> c \<Longrightarrow> wPhase w' x = wPhase w x"
    "in_join (wPhase w' c) s p \<Longrightarrow> \<not> decided w' p" "wPhase w' c \<noteq> Decided s p d"
    "decided w' p \<Longrightarrow> decided w p"
    by blast+
qed

lemma finish_rooms:
  assumes w': "w' = joinRoom_finish slot st c r p d w"
  shows "q \<noteq> r \<Longrightarrow> wRoom w' q = wRoom w q"
    and "(i, k) \<in> members w' r \<Longrightarrow> (i, k) \<in> members w r \<or> k = c \<and> approved d"
    and "fst ` members w r \<subseteq> fst ` members w' r"
    and "cID (wClient w c) \<notin> fst ` members w r \<Longrightarrow> members w r \<subseteq> members w' r"
    and "x \<noteq> c \<Longrightarrow> wPhase w' x = wPhase w x"
    and "\<not> in_join (wPhase w' c) s j"
    and "wPending w' = wPending w"
  unfolding w' joinRoom_finish_def Let_def by (auto simp: update_fresh map_of_eq_None_iff dest: in_set_updateD split: if_splits)

text \<open>How a connection becomes a member.\<close>

definition enters :: "world \<Rightarrow> event \<Rightarrow> nat \<Rightarrow> nat \<Rightarrow> bool" where
  "enters w e c r \<longleftrightarrow> e = Enter c \<and> (\<exists>state. wPhase w c = Entering r state) \<and> rHostID (wRoom w r) = []"

lemma quiet_job: "quiet w (run_job bind cfg slot st acq f1 f2 now j (w\<lparr>wJobs := js\<rparr>))"
  by (rule quiet_trans [OF quiet_jobs quiet_run_job])

lemma rest_sel [simp]:
  "wRoom (leaveRoom_rest slot st f now c r info w) = wRoom w"
  "wPending (leaveRoom_rest slot st f now c r info w) = wPending w"
  "wPhase (leaveRoom_rest slot st f now c r info w) = (wPhase w)(c := Gone)"
  "wNextClient (leaveRoom_rest slot st f now c r info w) = wNextClient w"
  by (simp_all add: leaveRoom_rest_def Let_def)

lemma step_joins:
  assumes "hub_step sv w e w'" and "(i, c) \<in> members w' r"
  shows "(i, c) \<in> members w r \<or> enters w e c r
    \<or> e = Finish c \<and> (\<exists>p d. wPhase w c = Decided r p d \<and> approved d)"
  using assms(1)
proof cases
  case (lookup k state slot sts)
  then show ?thesis using assms(2) lookup_rooms(1) [of "svCfg sv" slot sts k state w r] by auto
next
  case (enter k q state rnds slot sts rnd t)
  show ?thesis
  proof (cases "q = r")
    case True
    with enter_rooms(2) [OF enter(2), of i c] assms(2) enter show ?thesis by (auto simp: enters_def)
  next
    case False
    with enter_rooms(1) [OF enter(2), of r] assms(2) show ?thesis by simp
  qed
next
  case (finish k q p d slot sts)
  show ?thesis
  proof (cases "q = r")
    case True
    with finish_rooms(2) [OF finish(2), of i c] assms(2) finish show ?thesis by auto
  next
    case False
    with finish_rooms(1) [OF finish(2), of r] assms(2) show ?thesis by simp
  qed
next
  case (message k q allow frame slot sts now)
  have m: "members_step w w' q (left_by w k q frame)" by (rule message_members [OF message(2)])
  show ?thesis
  proof (cases "q = r")
    case True
    with m assms(2) show ?thesis by (auto simp: members_step_def)
  next
    case False
    with m assms(2) show ?thesis by (simp add: members_step_def)
  qed
next
  case (job n slot sts acquired f1 f2 now)
  then show ?thesis using assms(2) quiet_members [OF quiet_job] by simp
next
  case (reorder cs q ps)
  then show ?thesis using assms(2) by (auto dest: mset_eq_setD split: if_splits)
qed (use assms(2) in \<open>simp_all add: connect_def Let_def receive_decision_def approval_timeout_def\<close>)

lemma step_leaves:
  assumes "hub_step sv w e w'" and inv: "hub_inv w" and r: "r < wNextRoom w"
    and "(i, k) \<in> members w r" and "(i, k) \<notin> members w' r"
  shows "\<exists>c allow frame. e = Message c allow frame \<and> c < wNextClient w \<and> wPhase w c = Reading r \<and> left_by w c r frame i"
  using assms(1)
proof cases
  case (lookup c state slot sts)
  then show ?thesis using assms(4,5) r lookup_rooms(1) [of "svCfg sv" slot sts c state w r] by auto
next
  case (enter c q state rnds slot sts rnd t)
  have "rHostID (wRoom w r) \<noteq> []"
    using room_okD(2) [OF hub_invD(2) [OF inv r]] assms(4) by (auto simp: host_ok_def)
  then show ?thesis
    using enter_rooms(1,3) [OF enter(2)] assms(4,5) by (cases "q = r") auto
next
  case (finish c q p d slot sts)
  have j: "joining_ok w c q p" by (rule joining_phase [OF inv finish(3)]) (simp add: finish(4))
  show ?thesis
  proof (cases "q = r")
    case True
    have "\<not> rClosed (wRoom w r)"
      using room_okD(2) [OF hub_invD(2) [OF inv r]] assms(4) by (auto simp: host_ok_def)
    then have "cID (wClient w c) \<notin> fst ` members w r"
      using j room_okD(1) [OF hub_invD(2) [OF inv r]] True by (auto simp: joining_ok_def keys_ok_def)
    with finish_rooms(4) [OF finish(2)] assms(4,5) True show ?thesis by auto
  next
    case False
    with finish_rooms(1) [OF finish(2)] assms(4,5) show ?thesis by simp
  qed
next
  case (message c q allow frame slot sts now)
  have m: "members_step w w' q (left_by w c q frame)" by (rule message_members [OF message(2)])
  show ?thesis
  proof (cases "q = r")
    case True
    with m assms(4,5) message show ?thesis unfolding members_step_def by blast
  next
    case False
    with m assms(4,5) show ?thesis by (simp add: members_step_def)
  qed
next
  case (job n slot sts acquired f1 f2 now)
  then show ?thesis using assms(4,5) quiet_members [OF quiet_job] by simp
next
  case (reorder cs q ps)
  then show ?thesis using assms(4,5) by (auto dest: mset_eq_setD split: if_splits)
qed (use assms(4,5) in \<open>simp_all add: connect_def Let_def receive_decision_def approval_timeout_def\<close>)

section \<open>Where an approval comes from\<close>

lemma leaveRoom_phase: "\<exists>info. wPhase (leaveRoom_locked slot st c r w) = (wPhase w)(c := Leaving r info)"
  using leaveRoom_room(3,4) [of slot st c r w] by metis

text \<open>A message leaves its connection in the read loop, or takes it out of it.\<close>

lemma message_phases:
  assumes "w' = readLoop_iter cfg slot st now allow c r frame w"
  shows "wPhase w' = wPhase w \<or> (\<exists>info. wPhase w' = (wPhase w)(c := Leaving r info))"
  using assms
proof (cases rule: readLoop_cases)
  case (handled env)
  let ?v = "set_client c ((wClient w c)\<lparr>cViolations := 0\<rparr>) w"
  let ?e = "env\<lparr>eFrom := cID (wClient w c), eSentAt := now\<rparr>"
  have "wPhase w' = wPhase w"
  proof (cases rule: handleEnvelope_cases [of ?v cfg slot st now c r ?e])
    case 2
    then show ?thesis using handled(3) by (simp add: handle_presence_def Let_def split: sum.split)
  next
    case 3
    then show ?thesis using handled(3) by (simp add: handle_join_decision_def split: sum.split option.split)
  next
    case 4
    then show ?thesis using handled(3) by (auto simp: handle_peer_kick_def Let_def split: sum.split option.split)
  qed (simp add: handled(3) quiet_sel)
  then show ?thesis ..
next
  case (flood n)
  then show ?thesis using leaveRoom_phase [of slot st c r "set_client c ((wClient w c)\<lparr>cViolations := n\<rparr>) w"] by simp
qed (simp_all add: leaveRoom_phase)

lemma message_phase:
  assumes "w' = readLoop_iter cfg slot st now allow c r frame w" and "wPhase w c = Reading r"
  shows "(x \<noteq> c \<longrightarrow> wPhase w' x = wPhase w x) \<and> \<not> in_join (wPhase w' c) q p"
  using message_phases [OF assms(1)] assms(2) by (auto simp: in_join_def)

lemma step_decided:
  assumes "hub_step sv w e w'" and "decided w' p"
  shows "decided w p \<or> (\<exists>h frame r. e = Message h True frame \<and> h < wNextClient w \<and> wPhase w h = Reading r \<and>
     approves w h r p frame)"
  using assms(1)
proof cases
  case (message h r allow frame slot sts now)
  with message_decided [OF message(2) assms(2)] show ?thesis by auto
next
  case (enter k q state rnds slot sts rnd t)
  with enter_rooms(7) [OF enter(2) assms(2)] show ?thesis by simp
next
  case (job n slot sts acquired f1 f2 now)
  with assms(2) quiet_sel(4) [OF quiet_job] show ?thesis by (simp add: decided_def)
qed (use assms(2) in \<open>auto simp: decided_def lookup_rooms(2) finish_rooms(7) [OF refl] connect_def Let_def
       receive_decision_def approval_timeout_def split: if_splits\<close>)

lemma step_in_join:
  assumes "hub_step sv w e w'" and "in_join (wPhase w' c) r p" and "decided w' p"
  shows "in_join (wPhase w c) r p"
  using assms(1)
proof cases
  case (lookup k state slot sts)
  with assms(2) lookup_rooms(3) [of c k "svCfg sv" slot sts state w] lookup_rooms(4) [of "svCfg sv" slot sts k state w] show ?thesis
    by (cases "c = k") auto
next
  case (enter k q state rnds slot sts rnd t)
  with assms(2,3) enter_rooms(4,5) [OF enter(2)] show ?thesis
    by (cases "c = k") auto
next
  case (finish k q s d slot sts)
  with assms(2) finish_rooms(5,6) [OF finish(2)] show ?thesis
    by (cases "c = k") auto
next
  case (message k q allow frame slot sts now)
  with assms(2) message_phase [OF message(2)] show ?thesis
    by (cases "c = k") auto
next
  case (job n slot sts acquired f1 f2 now)
  with assms(2) quiet_sel(6) [OF quiet_job] show ?thesis by simp
qed (use assms(2) in \<open>auto simp: connect_def Let_def receive_decision_def approval_timeout_def split: if_splits\<close>)

lemma step_holds_approval:
  assumes "hub_step sv w e w'" and "wPhase w' c = Decided r p d" and "approved d"
  shows "wPhase w c = Decided r p d \<or> wPhase w c = Waiting r p \<and> decided w p"
  using assms(1)
proof cases
  case (lookup k state slot sts)
  with assms(2) lookup_rooms(3) [of c k "svCfg sv" slot sts state w] lookup_rooms(4) [of "svCfg sv" slot sts k state w] show ?thesis
    by (cases "c = k") (auto simp: in_join_def)
next
  case (enter k q state rnds slot sts rnd t)
  with assms(2) enter_rooms(4,6) [OF enter(2)] show ?thesis
    by (cases "c = k") auto
next
  case (finish k q s d slot sts)
  with assms(2) finish_rooms(5,6) [OF finish(2)] show ?thesis
    by (cases "c = k") (auto simp: in_join_def)
next
  case (message k q allow frame slot sts now)
  with assms(2) message_phase [OF message(2)] show ?thesis
    by (cases "c = k") (auto simp: in_join_def)
next
  case (job n slot sts acquired f1 f2 now)
  with assms(2) quiet_sel(6) [OF quiet_job] show ?thesis by simp
qed (use assms(2,3) in \<open>auto simp: connect_def Let_def receive_decision_def approval_timeout_def decided_def
       split: if_splits\<close>)

section \<open>Allocation\<close>

lemma lookup_next [simp]: "wNextClient (joinRoom_lookup cfg slot st c state w) = wNextClient w"
  by (auto simp: joinRoom_lookup_def hub_room_def Let_def split: option.split)

lemma enter_next [simp]: "wNextClient (joinRoom_enter cfg slot st rnd reqrnd now c r state w) = wNextClient w"
  by (auto simp: joinRoom_enter_def Let_def join_as_host_def join_pending_sel)

lemma finish_next [simp]: "wNextClient (joinRoom_finish slot st c r p d w) = wNextClient w"
  by (auto simp: joinRoom_finish_def Let_def)

lemma message_next [simp]: "wNextClient (readLoop_iter cfg slot st now allow c r frame w) = wNextClient w"
proof -
  have leave: "wNextClient (leaveRoom_locked slot st c r v) = wNextClient v" for v
    using leaveRoom_locked_eq [of slot st c r v] by auto
  have "wNextClient (handleEnvelope cfg slot st now c r env v) = wNextClient v" for env v
    by (cases rule: handleEnvelope_cases [of v cfg slot st now c r env])
       (auto simp: quiet_sel(7) handle_presence_def handle_join_decision_def handle_peer_kick_def Let_def
         split: sum.split option.split)
  with leave show ?thesis by (simp add: readLoop_iter_def Let_def split: option.split)
qed

lemma step_alloc:
  assumes "hub_step sv w e w'" and "c < wNextClient w'" and "in_join (wPhase w' c) r p"
  shows "c < wNextClient w"
  using assms
proof cases
  case (connect st rnd f1 f2 now t frame x state db)
  with assms(2,3) show ?thesis by (auto simp: connect_def Let_def less_Suc_eq)
next
  case (job n slot sts acquired f1 f2 now)
  with assms(2) quiet_sel(7) [OF quiet_job] show ?thesis by simp
qed (auto simp: receive_decision_def approval_timeout_def)

end
