(* ===== verification/HubProps.thy ===== *)
theory HubProps
  imports Runs
begin

text \<open>
  The properties of rooms: who is in them, who decides, what a message can do, what leaving does.
\<close>

section \<open>Membership\<close>



definition host_approved :: "server \<Rightarrow> world \<Rightarrow> event list \<Rightarrow> nat \<Rightarrow> nat \<Rightarrow> nat \<Rightarrow> bool" where
  "host_approved sv w0 es c r p \<longleftrightarrow>
     (\<exists>pre h frame post w. es = pre @ Message h True frame # post \<and> hub_run sv w0 pre w \<and>
        wPhase w h = Reading r \<and> approves w h r p frame \<and> pjClient (wPending w p) = c)"

definition founded :: "server \<Rightarrow> world \<Rightarrow> event list \<Rightarrow> nat \<Rightarrow> nat \<Rightarrow> bool" where
  "founded sv w0 es c r \<longleftrightarrow>
     (\<exists>pre post w. es = pre @ Enter c # post \<and> hub_run sv w0 pre w \<and> enters w (Enter c) c r)"

definition undecided :: "world \<Rightarrow> bool" where
  "undecided w \<longleftrightarrow> (\<forall>p. \<not> decided w p) \<and> (\<forall>c r p d. wPhase w c = Decided r p d \<longrightarrow> \<not> approved d)"

lemma host_approved_mono: "host_approved sv w0 es c r p \<Longrightarrow> host_approved sv w0 (es @ [e]) c r p"
  unfolding host_approved_def by (metis append_Cons append_assoc)

lemma founded_mono: "founded sv w0 es c r \<Longrightarrow> founded sv w0 (es @ [e]) c r"
  unfolding founded_def by (metis append_Cons append_assoc)

lemma origin_run:
  assumes "hub_run sv w0 es w" and inv0: "hub_inv w0" and und: "undecided w0"
  shows "(\<forall>c r p. c < wNextClient w \<longrightarrow> in_join (wPhase w c) r p \<longrightarrow> decided w p \<longrightarrow> host_approved sv w0 es c r p)
    \<and> (\<forall>c r p d. c < wNextClient w \<longrightarrow> wPhase w c = Decided r p d \<longrightarrow> approved d \<longrightarrow> host_approved sv w0 es c r p)
    \<and> (\<forall>c i r. (i, c) \<in> members w r \<longrightarrow> (i, c) \<in> members w0 r \<or> founded sv w0 es c r \<or>
         (\<exists>p. host_approved sv w0 es c r p))"
  using assms(1)
proof (induction rule: hub_run.induct)
  case start
  then show ?case using und by (auto simp: undecided_def)
next
  case (step es w e w')
  have inv: "hub_inv w" by (rule inv_run [OF step.hyps(1) inv0])
  have pend: "host_approved sv w0 (es @ [e]) c r p"
    if c: "c < wNextClient w'" and j': "in_join (wPhase w' c) r p" and d': "decided w' p" for c r p
  proof -
    have j: "in_join (wPhase w c) r p" by (rule step_in_join [OF step.hyps(2) j' d'])
    have c0: "c < wNextClient w" by (rule step_alloc [OF step.hyps(2) c j'])
    have jo: "joining_ok w c r p" by (rule joining_phase [OF inv c0 j])
    show ?thesis
    proof (cases "decided w p")
      case True
      with step.IH j c0 show ?thesis by (blast intro: host_approved_mono)
    next
      case False
      then obtain h frame q where e: "e = Message h True frame" "h < wNextClient w" "wPhase w h = Reading q"
        and ap: "approves w h q p frame"
        using step_decided [OF step.hyps(2) d'] by blast
      have q: "q < wNextRoom w" using hub_invD(3) [OF inv e(2)] e(3) by (simp add: phase_ok_def in_room_def)
      obtain i where "(i, p) \<in> set (rPending (wRoom w q))" using ap by (auto simp: approves_def)
      then have "pending_ok w q i p" by (rule room_okD(4) [OF hub_invD(2) [OF inv q]])
      with jo j have "q = r" by (auto simp: pending_ok_def joining_ok_def in_join_def)
      with e ap jo step.hyps(1) show ?thesis
        unfolding host_approved_def joining_ok_def by blast
    qed
  qed
  moreover have "host_approved sv w0 (es @ [e]) c r p"
    if c: "c < wNextClient w'" and ph: "wPhase w' c = Decided r p d" and d: "approved d" for c r p d
  proof -
    have c0: "c < wNextClient w" by (rule step_alloc [OF step.hyps(2) c, of r p]) (simp add: ph)
    consider "wPhase w c = Decided r p d" | "wPhase w c = Waiting r p" "decided w p"
      using step_holds_approval [OF step.hyps(2) ph d] by blast
    then show ?thesis
      using step.IH c0 d by cases (force intro: host_approved_mono)+
  qed
  moreover have "(i, c) \<in> members w0 r \<or> founded sv w0 (es @ [e]) c r \<or> (\<exists>p. host_approved sv w0 (es @ [e]) c r p)"
    if m: "(i, c) \<in> members w' r" for i c r
  proof -
    consider "(i, c) \<in> members w r" | "enters w e c r"
      | p d where "e = Finish c" "wPhase w c = Decided r p d" "approved d"
      using step_joins [OF step.hyps(2) m] by blast
    then show ?thesis
    proof cases
      case 1
      with step.IH show ?thesis by (blast intro: host_approved_mono founded_mono)
    next
      case 2
      then have "e = Enter c" by (simp add: enters_def)
      with 2 step.hyps(1) show ?thesis unfolding founded_def by blast
    next
      case 3
      then have "c < wNextClient w" using step.hyps(2) by (auto elim: finish_stepE)
      with 3 step.IH show ?thesis by (blast intro: host_approved_mono)
    qed
  qed
  ultimately show ?case by blast
qed

text \<open>
  C1: Nobody gets into a room past its host.  However the server is run, each member of a room was
  there from the start, or entered when the room had no host yet (and so became its host), or was
  approved: at some point of the run the connection that then held the room's host id sent a join
  decision that approved the pending request of that very connection.
\<close>

theorem members_admitted:
  assumes "hub_run sv w0 es w" and "hub_inv w0" and "undecided w0" and "(i, c) \<in> members w r"
  shows "(i, c) \<in> members w0 r \<or> founded sv w0 es c r \<or> (\<exists>p. host_approved sv w0 es c r p)"
  using origin_run [OF assms(1-3)] assms(4) by blast

theorem members_admitted_witness:
  "(''b'', 1) \<in> members pending_world 0 \<or> founded demo_sv pending_world admitted_events 1 0
    \<or> (\<exists>p. host_approved demo_sv pending_world admitted_events 1 0 p)"
  by (rule members_admitted [OF admitted_run pending_inv])
     (simp_all add: undecided_def decided_def pending_world_def demo_world_def admitted_members)

text \<open>
  C23: Nobody is put out of a room but by itself or by its host.  When a step removes an entry
  from a room's client map, the step is a message (or the end of the read loop) of a connection
  of that room which either bears the entry's id, or bears the room's host id and sent a kick.
\<close>

theorem members_removed_only_by:
  assumes "reachable sv w" and "hub_step sv w e w'" and "r < wNextRoom w"
    and "(i, k) \<in> members w r" and "(i, k) \<notin> members w' r"
  shows "\<exists>c allow frame. e = Message c allow frame \<and> wPhase w c = Reading r \<and>
    (cID (wClient w c) = i \<or>
     cID (wClient w c) = rHostID (wRoom w r) \<and> (\<exists>env. frame = Some env \<and> eType env = TypePeerKick))"
  using step_leaves [OF assms(2) reachable_inv [OF assms(1)] assms(3,4,5)]
  unfolding left_by_def is_host_def by blast

definition host_left_world :: world where
  "host_left_world = readLoop_iter (svCfg demo_sv) always stamped ''t'' True 0 0 None host_world"

lemma host_left_step: "hub_step demo_sv host_world (Message 0 True None) host_left_world"
  unfolding host_left_world_def by (rule hub_step.message) code_simp+

theorem members_removed_only_by_witness:
  "\<exists>c allow frame. Message 0 True None = Message c allow frame \<and> wPhase host_world c = Reading 0 \<and>
    (cID (wClient host_world c) = ''a'' \<or>
     cID (wClient host_world c) = rHostID (wRoom host_world 0) \<and>
       (\<exists>env. frame = Some env \<and> eType env = TypePeerKick))"
  by (rule members_removed_only_by [OF host_reachable host_left_step, where k = 0])
    (simp_all add: host_state, simp_all add: host_left_world_def readLoop_iter_def leaveRoom_room host_state,
     code_simp)

section \<open>Closing and handing over\<close>

lemma step_closed:
  assumes "hub_step sv w e w'" and inv: "hub_inv w" and r: "r < wNextRoom w" and closed: "rClosed (wRoom w r)"
  shows "rClosed (wRoom w' r) \<and> r < wNextRoom w'"
  using assms(1)
proof cases
  case (lookup c state slot sts)
  then show ?thesis
    using closed r by (auto simp: joinRoom_lookup_def hub_room_def Let_def split: option.split)
next
  case (enter c q state rnds slot sts rnd t)
  have "rHostID (wRoom w r) \<noteq> []"
    using room_okD(2) [OF hub_invD(2) [OF inv r]] closed by (auto simp: host_ok_def)
  then show ?thesis
    using closed r enter(2) enter_rooms(1) [OF enter(2), of r]
    by (cases "q = r") (simp_all add: joinRoom_enter_def Let_def join_as_host_def join_pending_sel)
next
  case (finish c q p d slot sts)
  then show ?thesis
    using closed r finish_rooms(1) [OF finish(2), of r]
    by (cases "q = r") (auto simp: joinRoom_finish_def Let_def)
next
  case (message c q allow frame slot sts now)
  have empty: "rClients (wRoom w r) = []"
    using room_okD(2) [OF hub_invD(2) [OF inv r]] closed by (simp add: host_ok_def)
  have m: "members_step w w' q (left_by w c q frame)" by (rule message_members [OF message(2)])
  have leave: "rClosed (wRoom (leaveRoom_locked slot sts c q v) r) \<and> wNextRoom (leaveRoom_locked slot sts c q v) = wNextRoom v"
    if v: "wRoom v = wRoom w" for v
  proof -
    obtain info where "leaveRoom_locked slot sts c q v = set_phase c (Leaving q info) (after_leave slot sts c q v)"
      using leaveRoom_locked_eq [of slot sts c q v] by blast
    moreover have "wNextRoom (after_leave slot sts c q v) = wNextRoom v"
      by (simp add: after_leave_def Let_def tryHostMigrationLocked_def split: option.split)
    moreover have "rClosed (wRoom (after_leave slot sts c q v) r)"
    proof (cases "q = r")
      case True
      then have "\<not> host_leaves c r v" using closed v by (simp add: host_leaves_def)
      then show ?thesis using closed v True by (simp add: after_leave_def)
    qed (simp add: after_leave_room closed v)
    ultimately show ?thesis by simp
  qed
  show ?thesis
    using message(2)
  proof (cases rule: readLoop_cases)
    case (handled env)
    let ?v = "set_client c ((wClient w c)\<lparr>cViolations := 0\<rparr>) w"
    let ?e = "env\<lparr>eFrom := cID (wClient w c), eSentAt := now\<rparr>"
    show ?thesis
    proof (cases rule: handleEnvelope_cases [of ?v "svCfg sv" slot sts now c q ?e])
      case 1
      then show ?thesis using handled(3) closed r by (simp add: quiet_sel)
    next
      case 2
      then show ?thesis
        using handled(3) closed r by (simp add: handle_presence_def Let_def split: sum.split)
    next
      case 3
      then show ?thesis
        using handled(3) closed r by (simp add: handle_join_decision_def split: sum.split option.split)
    next
      case 4
      then show ?thesis
        using handled(3) closed r by (auto simp: handle_peer_kick_def Let_def split: sum.split option.split)
    qed
  qed (use closed r leave in simp_all)
next
  case (job n slot sts acquired f1 f2 now)
  then show ?thesis using closed r by (simp add: quiet_sel [OF quiet_job])
qed (use closed r in \<open>auto simp: connect_def Let_def receive_decision_def approval_timeout_def leaveRoom_rest_def\<close>)

lemma run_closed:
  "hub_run sv w es w' \<Longrightarrow> hub_inv w \<Longrightarrow> r < wNextRoom w \<Longrightarrow> rClosed (wRoom w r) \<Longrightarrow>
   rClosed (wRoom w' r) \<and> r < wNextRoom w'"
  by (induction rule: hub_run.induct) (auto dest: step_closed inv_run)

text \<open>
  C22: A room without clients that is closed stays so: from the moment its last host has left,
  through every later step, the room has no members, nobody waits for it and nobody enters it.
\<close>

theorem closed_room_stays_empty:
  assumes "reachable sv w" and "r < wNextRoom w" and "rClosed (wRoom w r)" and "hub_run sv w es w'"
  shows "rClosed (wRoom w' r) \<and> rClients (wRoom w' r) = [] \<and> rPending (wRoom w' r) = []"
proof -
  have inv: "hub_inv w" by (rule reachable_inv [OF assms(1)])
  note closed = run_closed [OF assms(4) inv assms(2,3)]
  have "host_ok (wRoom w' r)"
    using room_okD(2) [OF hub_invD(2) [OF inv_run [OF assms(4) inv]]] closed by blast
  with closed show ?thesis by (simp add: host_ok_def)
qed

lemma host_left_reachable: "reachable demo_sv host_left_world"
  unfolding reachable_def using hub_run.step [OF host_run host_left_step] by blast

theorem closed_room_stays_empty_witness:
  "rClosed (wRoom host_left_world 0) \<and> rClients (wRoom host_left_world 0) = [] \<and> rPending (wRoom host_left_world 0) = []"
  by (rule closed_room_stays_empty [OF host_left_reachable _ _ hub_run.start]) code_simp+

end
