(* ===== verification/LeaveProps.thy ===== *)
theory LeaveProps
  imports HubProps
begin

text \<open>
  The properties of leaving: what becomes of the host's role, who is told, and the state in which
  a room has a host id but no host.
\<close>

section \<open>The host\<close>

definition host_present :: "room \<Rightarrow> bool" where
  "host_present room \<longleftrightarrow> rHostID room = [] \<or> rClosed room \<or> has_key (rClients room) (rHostID room)"

text \<open>What a step may do to a room's host: keep it, set the first one, or hand over.\<close>

lemma migration_room:
  assumes "rClients (wRoom w r) \<noteq> []"
  shows "\<exists>i e. (i, e) \<in> members w r \<and> (\<forall>(j, k) \<in> members w r. cJoinedAt (wClient w e) \<le> cJoinedAt (wClient w k))
    \<and> wRoom (snd (tryHostMigrationLocked slot st r w)) = (wRoom w)(r := (wRoom w r)\<lparr>rHostID := cID (wClient w e)\<rparr>)
    \<and> userRole (cUser (wClient (snd (tryHostMigrationLocked slot st r w)) e)) = ''host''
    \<and> snd (tryHostMigrationLocked slot st r w) =
        (let w2 = set_client e (setUser ((getUser (wClient w e))\<lparr>userRole := ''host''\<rparr>) (wClient w e))
                    (set_room r ((wRoom w r)\<lparr>rHostID := cID (wClient w e)\<rparr>) w)
         in w2\<lparr>wClient := snd (deliver slot (\<lambda>_. NewEnvelope st TypeHostChanged ''server'' []
              (PHostChanged (cID (wClient w e)) (rHostID (wRoom w r)))) (map snd (rClients (wRoom w r))) (wClient w2))\<rparr>)"
proof -
  obtain e where e: "earliest (wClient w) None (map snd (rClients (wRoom w r))) = Some e"
    using assms earliest_None [of "wClient w" None "map snd (rClients (wRoom w r))"] by auto
  from earliest_props [OF e] obtain i where "(i, e) \<in> members w r"
    "\<forall>(j, k) \<in> members w r. cJoinedAt (wClient w e) \<le> cJoinedAt (wClient w k)" by (auto simp: split_beta)
  with e show ?thesis
    by (intro exI [of _ i] exI [of _ e]) (simp add: tryHostMigrationLocked_def Let_def)
qed

lemma after_leave_host:
  assumes inv: "hub_inv w" and c: "c < wNextClient w" and ph: "wPhase w c = Reading r"
    and "host_present (wRoom w r)"
  shows "host_present (wRoom (after_leave slot st c r w) r)"
proof -
  let ?v = "left_world c r w"
  have inv1: "hub_inv ?v" by (rule inv_left_world [OF inv c ph])
  have r: "r < wNextRoom ?v" using hub_invD(3) [OF inv c] ph by (simp add: phase_ok_def in_room_def)
  show ?thesis
  proof (cases "host_leaves c r w")
    case False
    with assms(4) show ?thesis
      by (auto simp: after_leave_def host_present_def host_leaves_def)
  next
    case host: True
    show ?thesis
    proof (cases "rClients (wRoom ?v r) = []")
      case True
      with host show ?thesis
        unfolding after_leave_def Let_def host_present_def by simp
    next
      case False
      obtain i e where e: "(i, e) \<in> members ?v r"
        "wRoom (snd (tryHostMigrationLocked slot (st 0) r ?v)) = (wRoom ?v)(r := (wRoom ?v r)\<lparr>rHostID := cID (wClient ?v e)\<rparr>)"
        using migration_room [OF False, of slot "st 0"] by blast
      have "cID (wClient ?v e) = i"
        using room_okD(3) [OF hub_invD(2) [OF inv1 r] e(1)] by (simp only: member_ok_def)
      then have "has_key (rClients (wRoom ?v r)) (cID (wClient ?v e))"
        using has_key_memI [OF e(1)] by simp
      with host False e(2) show ?thesis
        unfolding after_leave_def Let_def host_present_def by (simp del: left_world_sel)
    qed
  qed
qed

lemma leaveRoom_host:
  assumes "hub_inv w" "c < wNextClient w" "wPhase w c = Reading q" "host_present (wRoom w r)"
  shows "host_present (wRoom (leaveRoom_locked slot st c q w) r)"
proof -
  obtain info where "leaveRoom_locked slot st c q w = set_phase c (Leaving q info) (after_leave slot st c q w)"
    using leaveRoom_locked_eq [of slot st c q w] by blast
  moreover have "host_present (wRoom (after_leave slot st c q w) r)"
    using after_leave_host [OF assms(1-3)] assms(4) by (cases "r = q") (simp_all add: after_leave_room)
  ultimately show ?thesis by simp
qed

text \<open>A kick that names the kicking host itself.\<close>

definition self_kick :: "world \<Rightarrow> nat \<Rightarrow> event \<Rightarrow> bool" where
  "self_kick w r e \<longleftrightarrow> (\<exists>c env k. e = Message c True (Some env) \<and> wPhase w c = Reading r \<and> is_host c r w \<and>
     eType env = TypePeerKick \<and> DecodePayload dec_peer_kick zero_peer_kick (payload_json env) = Inr k \<and>
     pkClientID k = rHostID (wRoom w r))"

lemma kick_host:
  assumes "host_present (wRoom w r)"
  shows "host_present (wRoom (handle_peer_kick slot st c q env w) r) \<or>
    q = r \<and> is_host c r w \<and> (\<exists>k. DecodePayload dec_peer_kick zero_peer_kick (payload_json env) = Inr k \<and>
      pkClientID k = rHostID (wRoom w r))"
  using assms unfolding handle_peer_kick_def
  by (auto simp: Let_def host_present_def map_of_eq_None_iff split: sum.split option.split)

lemma message_host:
  assumes inv: "hub_inv w" and c: "c < wNextClient w" "wPhase w c = Reading q" and host: "host_present (wRoom w r)"
    and "w' = readLoop_iter cfg slot st now allow c q frame w"
  shows "host_present (wRoom w' r) \<or> self_kick w r (Message c allow frame)"
  using assms(5)
proof (cases rule: readLoop_cases)
  case eof
  then show ?thesis using leaveRoom_host [OF inv c host] by simp
next
  case (flood n)
  have "hub_inv (set_client c ((wClient w c)\<lparr>cViolations := n\<rparr>) w)"
    by (rule inv_quiet [OF inv quiet_violations])
  from leaveRoom_host [OF this, of c q r slot st] show ?thesis using c host flood by simp
next
  case (dropped n)
  then show ?thesis using host by simp
next
  case (handled env)
  let ?v = "set_client c ((wClient w c)\<lparr>cViolations := 0\<rparr>) w"
  let ?e = "env\<lparr>eFrom := cID (wClient w c), eSentAt := now\<rparr>"
  have host': "host_present (wRoom ?v r)" using host by simp
  show ?thesis
  proof (cases rule: handleEnvelope_cases [of ?v cfg slot st now c q ?e])
    case 4
    have "is_host c r ?v = is_host c r w" "payload_json ?e = payload_json env"
      by (simp_all add: is_host_def payload_json_def)
    with kick_host [OF host', of slot st c q ?e] handled 4 c(2) show ?thesis
      by (auto simp: self_kick_def)
  qed (use handled(3) host in \<open>simp_all add: quiet_sel\<close>)
qed

lemma step_host:
  assumes "hub_step sv w e w'" and inv: "hub_inv w" and r: "r < wNextRoom w" and host: "host_present (wRoom w r)"
  shows "host_present (wRoom w' r) \<or> self_kick w r e"
  using assms(1)
proof cases
  case (lookup c state slot sts)
  then show ?thesis
    using host r lookup_rooms(1) [of "svCfg sv" slot sts c state w r] by auto
next
  case (enter c q state rnds slot sts rnd t)
  then show ?thesis
    using host enter_rooms(1) [OF enter(2), of r]
    by (cases "q = r") (auto simp: joinRoom_enter_def Let_def join_as_host_def join_pending_sel host_present_def)
next
  case (finish c q p d slot sts)
  then show ?thesis
    using host finish_rooms(1) [OF finish(2), of r]
    by (cases "q = r") (auto simp: joinRoom_finish_def Let_def host_present_def)
next
  case (message c q allow frame slot sts now)
  with message_host [OF inv _ _ host] show ?thesis by blast
next
  case (job n slot sts acquired f1 f2 now)
  then show ?thesis using host by (simp add: quiet_sel [OF quiet_job])
next
  case (reorder cs q ps)
  then have "set (map fst cs) = set (map fst (rClients (wRoom w q)))"
    by (auto dest: mset_eq_setD)
  then have "has_key cs i = has_key (rClients (wRoom w q)) i" for i
    by (simp add: map_of_eq_None_iff)
  then show ?thesis using reorder host by (auto simp: host_present_def)
qed (use host in \<open>auto simp: connect_def Let_def receive_decision_def approval_timeout_def\<close>)

text \<open>
  C25: A room that has had a host and is not closed keeps having one: the host id names a member
  of the room, whatever step is taken, unless the step is the host kicking itself.
\<close>

theorem host_stays_present:
  assumes "reachable sv w" and "hub_step sv w e w'" and "r < wNextRoom w"
    and "rHostID (wRoom w r) = [] \<or> rClosed (wRoom w r) \<or> has_key (rClients (wRoom w r)) (rHostID (wRoom w r))"
    and "\<not> self_kick w r e"
  shows "rHostID (wRoom w' r) = [] \<or> rClosed (wRoom w' r) \<or> has_key (rClients (wRoom w' r)) (rHostID (wRoom w' r))"
  using step_host [OF assms(2) reachable_inv [OF assms(1)] assms(3)] assms(4,5) by (simp add: host_present_def)

theorem host_stays_present_witness:
  "rHostID (wRoom host_left_world 0) = [] \<or> rClosed (wRoom host_left_world 0)
    \<or> has_key (rClients (wRoom host_left_world 0)) (rHostID (wRoom host_left_world 0))"
proof (rule host_stays_present [OF host_reachable host_left_step])
  show "rHostID (wRoom host_world 0) = [] \<or> rClosed (wRoom host_world 0)
    \<or> has_key (rClients (wRoom host_world 0)) (rHostID (wRoom host_world 0))"
    by code_simp
qed (simp_all add: host_state self_kick_def)

definition self_kick_frame :: envelope where
  "self_kick_frame = json_frame TypePeerKick [(''clientId'', JStr ''a'')]"

definition headless_world :: world where
  "headless_world = demo_message 0 self_kick_frame pair_world"

lemma headless_step: "hub_step demo_sv pair_world (Message 0 True (Some self_kick_frame)) headless_world"
  unfolding headless_world_def demo_message_def by (rule hub_step.message) (simp_all add: pair_state)

lemma headless_facts:
  "rClients (wRoom headless_world 0) = [(''b'', 1)]" "rHostID (wRoom headless_world 0) = ''a''"
  "\<not> rClosed (wRoom headless_world 0)"
  by code_simp+




text \<open>
  Leaving never disconnects anybody else and never delivers the message that a room was
  closed: a room is closed only when its last member leaves, so the branch of the code that tells
  the members of a closed room has nobody to tell.
\<close>

lemma room_closed_never_sent:
  assumes "w' = leaveRoom_locked slot st c r w"
  shows "(\<forall>k e. e \<in> set (stream (wClient w' k)) \<longrightarrow> e \<in> set (stream (wClient w k)) \<or> eType e \<noteq> TypeRoomClosed)
    \<and> (\<forall>k. k \<noteq> c \<longrightarrow> cClosed (wClient w' k) = cClosed (wClient w k))
    \<and> (rClosed (wRoom w' r) \<longrightarrow> rClosed (wRoom w r) \<or> rClients (wRoom w' r) = [])"
proof (intro conjI allI impI)
  obtain info where w': "w' = set_phase c (Leaving r info) (after_leave slot st c r w)"
    using leaveRoom_locked_eq [of slot st c r w] assms by blast
  have "sends (\<lambda>_ env. eType env = TypeHostChanged) w w'"
    unfolding assms by (rule sends_leaveRoom) simp
  then show "e \<in> set (stream (wClient w k)) \<or> eType e \<noteq> TypeRoomClosed"
    if "e \<in> set (stream (wClient w' k))" for k e
    using sendsD [OF _ that] by (fastforce simp: type_defs)
  show "cClosed (wClient w' k) = cClosed (wClient w k)" if "k \<noteq> c" for k
    using that by (simp add: w')
  show "rClosed (wRoom w r) \<or> rClients (wRoom w' r) = []" if "rClosed (wRoom w' r)"
  proof (cases "host_leaves c r w \<and> rClients (wRoom (left_world c r w) r) \<noteq> []")
    case True
    then obtain e where "wRoom (after_leave slot st c r w) =
        (wRoom (left_world c r w))(r := (wRoom (left_world c r w) r)\<lparr>rHostID := e\<rparr>)"
      using migration_room [of "left_world c r w" r slot "st 0"] unfolding after_leave_def Let_def by auto
    with that show ?thesis by (simp add: w')
  next
    case False
    then have "after_leave slot st c r w = left_world c r w \<or> rClients (wRoom (after_leave slot st c r w) r) = []"
      unfolding after_leave_def Let_def by auto
    with that show ?thesis by (auto simp: w')
  qed
qed

lemma room_closed_never_sent_example:
  "cClosed (wClient (leaveRoom_locked always stamped 0 0 pair_world) 1) = cClosed (wClient pair_world 1)"
  using room_closed_never_sent [OF refl, of always stamped 0 0 pair_world] by (metis one_neq_zero)

end
