(* ===== verification/StoreSpec.thy ===== *)
theory StoreSpec
  imports Store "HOL-Library.Sublist"
begin

text \<open>
  What the persistence interface promises, as a map from room ids to abstract rooms, and the
  proof that the SQLite implementation keeps the promise: \<open>abs\<close> is the abstraction function,
  \<open>store_inv\<close> the invariant of the tables.  The contract is the locale \<open>room_store\<close>; its client
  lemmas follow a run of operations, any of which may fail in the driver.
\<close>

section \<open>The abstract store\<close>

record aroom =
  aKeyHash :: string
  aClosed :: bool
  aSnapshot :: "bytes option"
  aLog :: "(int \<times> bytes) list"
  aSeq :: int
  aTouched :: string

type_synonym astore = "string \<rightharpoonup> aroom"

definition ensure_spec :: "string \<Rightarrow> string \<Rightarrow> string \<Rightarrow> astore \<Rightarrow> (store_error, unit) result \<times> astore" where
  "ensure_spec now rid h m =
     (case m rid of
        None \<Rightarrow> (Inr (), m(rid \<mapsto> \<lparr>aKeyHash = h, aClosed = False, aSnapshot = None, aLog = [],
                                   aSeq = 0, aTouched = now\<rparr>))
      | Some a \<Rightarrow>
          if aClosed a then (Inl ErrRoomClosed, m)
          else if aKeyHash a \<noteq> h then (Inl ErrRoomKeyMismatch, m)
          else (Inr (), m(rid \<mapsto> a\<lparr>aTouched := now\<rparr>)))"

definition append_spec :: "string \<Rightarrow> string \<Rightarrow> bytes \<Rightarrow> astore \<Rightarrow> (store_error, int) result \<times> astore" where
  "append_spec now rid u m =
     (case m rid of
        None \<Rightarrow> (Inl ErrNoRows, m)
      | Some a \<Rightarrow>
          if aClosed a then (Inl ErrRoomClosed, m)
          else (Inr (aSeq a + 1),
                m(rid \<mapsto> a\<lparr>aLog := aLog a @ [(aSeq a + 1, u)], aSeq := aSeq a + 1, aTouched := now\<rparr>)))"

definition log_after :: "int \<Rightarrow> (int \<times> bytes) list \<Rightarrow> (int \<times> bytes) list" where
  "log_after base l = (if base > 0 then filter (\<lambda>(s, _). base < s) l else [])"

definition save_spec ::
  "string \<Rightarrow> string \<Rightarrow> bytes option \<Rightarrow> int \<Rightarrow> astore \<Rightarrow> (store_error, unit) result \<times> astore" where
  "save_spec now rid blob base m =
     (case m rid of
        None \<Rightarrow> (Inl ErrRoomClosed, m)
      | Some a \<Rightarrow>
          if aClosed a then (Inl ErrRoomClosed, m)
          else (case blob of
              None \<Rightarrow> (Inl ErrConstraint, m)
            | Some b \<Rightarrow>
                (Inr (), m(rid \<mapsto> a\<lparr>aSnapshot := Some b, aLog := log_after base (aLog a), aTouched := now\<rparr>))))"

definition close_spec :: "string \<Rightarrow> string \<Rightarrow> astore \<Rightarrow> (store_error, unit) result \<times> astore" where
  "close_spec now rid m =
     (Inr (), case m rid of
        None \<Rightarrow> m
      | Some a \<Rightarrow> if aClosed a then m else m(rid \<mapsto> a\<lparr>aClosed := True, aTouched := now\<rparr>))"

definition purge_spec :: "string \<Rightarrow> astore \<Rightarrow> astore" where
  "purge_spec cutoff m =
     (\<lambda>rid. case m rid of None \<Rightarrow> None | Some a \<Rightarrow> if text_less (aTouched a) cutoff then None else Some a)"

lemmas spec_defs =
  ensure_spec_def append_spec_def save_spec_def close_spec_def purge_spec_def

section \<open>The contract\<close>

text \<open>
  An operation either fails in the driver and changes nothing, or does what the abstract
  operation does.
\<close>

definition refines_or_fails ::
  "('s \<Rightarrow> astore) \<Rightarrow> 's \<Rightarrow> (store_error, 'a) result \<times> 's \<Rightarrow> (store_error, 'a) result \<times> astore \<Rightarrow> bool" where
  "refines_or_fails \<alpha> s out spec \<longleftrightarrow>
     out = (Inl ErrDriver, s) \<or> (fst out = fst spec \<and> \<alpha> (snd out) = snd spec)"

locale room_store =
  fixes ensure :: "fails \<Rightarrow> string \<Rightarrow> string \<Rightarrow> string \<Rightarrow> 's \<Rightarrow> (store_error, unit) result \<times> 's"
    and append :: "fails \<Rightarrow> string \<Rightarrow> string \<Rightarrow> bytes \<Rightarrow> 's \<Rightarrow> (store_error, int) result \<times> 's"
    and save :: "fails \<Rightarrow> string \<Rightarrow> string \<Rightarrow> bytes option \<Rightarrow> int \<Rightarrow> 's \<Rightarrow> (store_error, unit) result \<times> 's"
    and close :: "fails \<Rightarrow> string \<Rightarrow> string \<Rightarrow> 's \<Rightarrow> (store_error, unit) result \<times> 's"
    and purge :: "fails \<Rightarrow> string \<Rightarrow> 's \<Rightarrow> (store_error, nat) result \<times> 's"
    and bind :: "bytes option \<Rightarrow> bytes option"
    and \<alpha> :: "'s \<Rightarrow> astore"
    and invar :: "'s \<Rightarrow> bool"
  assumes ensure_refines:
      "invar s \<Longrightarrow> now \<noteq> [] \<Longrightarrow> refines_or_fails \<alpha> s (ensure f now rid h s) (ensure_spec now rid h (\<alpha> s))"
    and append_refines:
      "invar s \<Longrightarrow> now \<noteq> [] \<Longrightarrow> refines_or_fails \<alpha> s (append f now rid u s) (append_spec now rid u (\<alpha> s))"
    and save_refines:
      "invar s \<Longrightarrow> now \<noteq> [] \<Longrightarrow>
       refines_or_fails \<alpha> s (save f now rid st base s) (save_spec now rid (bind st) base (\<alpha> s))"
    and close_refines:
      "invar s \<Longrightarrow> now \<noteq> [] \<Longrightarrow> refines_or_fails \<alpha> s (close f now rid s) (close_spec now rid (\<alpha> s))"
    and purge_refines:
      "invar s \<Longrightarrow> snd (purge f cutoff s) = s \<or> \<alpha> (snd (purge f cutoff s)) = purge_spec cutoff (\<alpha> s)"
    and invar_ensure: "invar s \<Longrightarrow> now \<noteq> [] \<Longrightarrow> invar (snd (ensure f now rid h s))"
    and invar_append: "invar s \<Longrightarrow> now \<noteq> [] \<Longrightarrow> invar (snd (append f now rid u s))"
    and invar_save: "invar s \<Longrightarrow> now \<noteq> [] \<Longrightarrow> invar (snd (save f now rid st base s))"
    and invar_close: "invar s \<Longrightarrow> now \<noteq> [] \<Longrightarrow> invar (snd (close f now rid s))"
    and invar_purge: "invar s \<Longrightarrow> invar (snd (purge f cutoff s))"

text \<open>Runs of operations, on the abstract store and on an implementation.\<close>

datatype store_op =
    OpEnsure string string string \<comment> \<open>clock, room, key hash\<close>
  | OpAppend string string bytes
  | OpSave string string "bytes option" int
  | OpClose string string
  | OpPurge string \<comment> \<open>cutoff\<close>

fun op_clock :: "store_op \<Rightarrow> string" where
  "op_clock (OpEnsure now _ _) = now"
| "op_clock (OpAppend now _ _) = now"
| "op_clock (OpSave now _ _ _) = now"
| "op_clock (OpClose now _) = now"
| "op_clock (OpPurge cutoff) = cutoff"

fun spec_step :: "(bytes option \<Rightarrow> bytes option) \<Rightarrow> astore \<Rightarrow> store_op \<Rightarrow> astore" where
  "spec_step bind m (OpEnsure now rid h) = snd (ensure_spec now rid h m)"
| "spec_step bind m (OpAppend now rid u) = snd (append_spec now rid u m)"
| "spec_step bind m (OpSave now rid st base) = snd (save_spec now rid (bind st) base m)"
| "spec_step bind m (OpClose now rid) = snd (close_spec now rid m)"
| "spec_step bind m (OpPurge cutoff) = purge_spec cutoff m"

context room_store
begin

fun step :: "'s \<Rightarrow> fails \<times> store_op \<Rightarrow> 's" where
  "step s (f, OpEnsure now rid h) = snd (ensure f now rid h s)"
| "step s (f, OpAppend now rid u) = snd (append f now rid u s)"
| "step s (f, OpSave now rid st base) = snd (save f now rid st base s)"
| "step s (f, OpClose now rid) = snd (close f now rid s)"
| "step s (f, OpPurge cutoff) = snd (purge f cutoff s)"

lemma step_simulates:
  assumes "invar s" and "op_clock op \<noteq> []"
  shows "invar (step s (f, op)) \<and> (step s (f, op) = s \<or> \<alpha> (step s (f, op)) = spec_step bind (\<alpha> s) op)"
proof (cases op)
  case (OpEnsure now rid h)
  then show ?thesis
    using assms ensure_refines [of s now f rid h] invar_ensure [of s now f rid h]
    by (auto simp: refines_or_fails_def)
next
  case (OpAppend now rid u)
  then show ?thesis
    using assms append_refines [of s now f rid u] invar_append [of s now f rid u]
    by (auto simp: refines_or_fails_def)
next
  case (OpSave now rid st base)
  then show ?thesis
    using assms save_refines [of s now f rid st base] invar_save [of s now f rid st base]
    by (auto simp: refines_or_fails_def)
next
  case (OpClose now rid)
  then show ?thesis
    using assms close_refines [of s now f rid] invar_close [of s now f rid]
    by (auto simp: refines_or_fails_def)
next
  case (OpPurge cutoff)
  then show ?thesis
    using assms purge_refines [of s f cutoff] invar_purge [of s f cutoff] by auto
qed

text \<open>Forward simulation: a run is a run of the abstract store without the failed operations.\<close>

lemma run_simulates:
  assumes "invar s" and "\<forall>(f, op) \<in> set ops. op_clock op \<noteq> []"
  shows "invar (foldl step s ops) \<and>
    (\<exists>done. subseq done (map snd ops) \<and> \<alpha> (foldl step s ops) = foldl (spec_step bind) (\<alpha> s) done)"
  using assms
proof (induction ops arbitrary: s)
  case Nil
  then show ?case by (auto intro: exI [of _ "[]"])
next
  case (Cons fop ops)
  obtain f op where fop: "fop = (f, op)" by (cases fop)
  let ?s = "step s (f, op)"
  have one: "invar ?s" "?s = s \<or> \<alpha> ?s = spec_step bind (\<alpha> s) op"
    using step_simulates [of s op f] Cons.prems fop by auto
  then obtain rest where rest: "subseq rest (map snd ops)"
    "\<alpha> (foldl step ?s ops) = foldl (spec_step bind) (\<alpha> ?s) rest" and inv: "invar (foldl step ?s ops)"
    using Cons.IH [of ?s] Cons.prems(2) by auto
  from one(2) show ?case
  proof
    assume "?s = s"
    with rest inv fop show ?thesis by (auto intro!: exI [of _ rest])
  next
    assume "\<alpha> ?s = spec_step bind (\<alpha> s) op"
    with rest inv fop show ?thesis by (auto intro!: exI [of _ "op # rest"])
  qed
qed

end

section \<open>Properties of the abstract store\<close>

text \<open>A room's log is strictly increasing and numbered within its sequence counter.\<close>

definition log_ok :: "aroom \<Rightarrow> bool" where
  "log_ok a \<longleftrightarrow> sorted_wrt (<) (map fst (aLog a)) \<and> (\<forall>(s, u) \<in> set (aLog a). 0 < s \<and> s \<le> aSeq a)
     \<and> 0 \<le> aSeq a"

definition astore_ok :: "astore \<Rightarrow> bool" where
  "astore_ok m \<longleftrightarrow> (\<forall>rid a. m rid = Some a \<longrightarrow> log_ok a)"

lemma astore_okD: "astore_ok m \<Longrightarrow> m rid = Some a \<Longrightarrow> log_ok a"
  by (auto simp: astore_ok_def)

lemma astore_ok_upd: "astore_ok m \<Longrightarrow> log_ok a \<Longrightarrow> astore_ok (m(rid \<mapsto> a))"
  by (auto simp: astore_ok_def)

lemma sorted_wrt_map_filter:
  "sorted_wrt (<) (map f xs) \<Longrightarrow> sorted_wrt (<) (map f (filter P xs))"
  by (induction xs) auto

lemma log_ok_after: "log_ok a \<Longrightarrow> log_ok (a\<lparr>aSnapshot := s, aLog := log_after base (aLog a), aTouched := t\<rparr>)"
  by (auto simp: log_ok_def log_after_def sorted_wrt_map_filter)

lemma log_ok_append:
  "log_ok a \<Longrightarrow> log_ok (a\<lparr>aLog := aLog a @ [(aSeq a + 1, u)], aSeq := aSeq a + 1, aTouched := t\<rparr>)"
  by (fastforce simp: log_ok_def sorted_wrt_append)

lemma log_ok_touch [simp]: "log_ok (a\<lparr>aTouched := t\<rparr>) = log_ok a" "log_ok (a\<lparr>aClosed := c\<rparr>) = log_ok a"
  by (simp_all add: log_ok_def)

lemma log_ok_new:
  "log_ok \<lparr>aKeyHash = h, aClosed = c, aSnapshot = s, aLog = [], aSeq = 0, aTouched = t\<rparr>"
  by (simp add: log_ok_def)

lemma spec_step_ok: "astore_ok m \<Longrightarrow> astore_ok (spec_step bind m op)"
proof (cases op)
  case (OpPurge cutoff)
  then show "astore_ok m \<Longrightarrow> ?thesis"
    by (auto simp: purge_spec_def astore_ok_def split: option.splits if_splits)
qed (auto simp: spec_defs log_ok_new split: option.splits
     intro!: astore_ok_upd log_ok_after log_ok_append dest: astore_okD)

lemma spec_run_ok: "astore_ok m \<Longrightarrow> astore_ok (foldl (spec_step bind) m ops)"
  by (induction ops arbitrary: m) (auto simp: spec_step_ok)

text \<open>A closed room stays closed, with its key and its document, until it is purged.\<close>

lemma spec_step_closed:
  assumes "m rid = Some a" and "aClosed a"
  shows "spec_step bind m op rid = Some a \<or> spec_step bind m op rid = None"
  using assms by (cases op) (auto simp: spec_defs split: option.splits)

text \<open>The key hash of a room never changes while the room exists.\<close>

lemma spec_step_key:
  assumes "m rid = Some a" and "spec_step bind m op rid = Some b"
  shows "aKeyHash b = aKeyHash a"
  using assms by (cases op) (auto simp: spec_defs split: option.splits if_splits)

end
