(* ===== verification/Sqlite.thy ===== *)
theory Sqlite
  imports StoreSpec
begin

text \<open>
  The SQLite store keeps the contract of \<open>StoreSpec\<close>: the tables' invariant, the abstraction
  function, the refinement of every operation, and the interpretation of the locale.  The last
  section is about what the contract does not say: the two counter columns.
\<close>

section \<open>Statements\<close>

lemma select_update_rooms [store_simps]:
  "(\<And>r. rwID (f r) = rwID r) \<Longrightarrow>
   select_room (update_rooms p f db) rid = map_option (\<lambda>r. if p r then f r else r) (select_room db rid)"
proof -
  assume f: "\<And>r. rwID (f r) = rwID r"
  have "find (\<lambda>r. rwID r = rid) (map (\<lambda>r. if p r then f r else r) rs) =
      map_option (\<lambda>r. if p r then f r else r) (find (\<lambda>r. rwID r = rid) rs)" for rs
    by (induction rs) (auto simp: f)
  then show ?thesis by (simp add: select_room_def update_rooms_def)
qed

lemma updates_update_rooms [store_simps]: "room_updates (update_rooms p f db) rid = room_updates db rid"
  by (simp add: room_updates_def update_rooms_def)

lemma select_delete_updates [store_simps]: "select_room (delete_updates p db) rid = select_room db rid"
  by (simp add: select_room_def delete_updates_def)

lemma updates_delete_updates [store_simps]:
  "room_updates (delete_updates p db) rid = filter (\<lambda>u. \<not> p u) (room_updates db rid)"
  by (simp add: room_updates_def delete_updates_def conj_commute)

lemma select_SomeD: "select_room db rid = Some r \<Longrightarrow> r \<in> set (dbRooms db) \<and> rwID r = rid"
  by (auto simp: select_room_def find_Some_iff)

lemma select_NoneD: "select_room db rid = None \<Longrightarrow> r \<in> set (dbRooms db) \<Longrightarrow> rwID r \<noteq> rid"
  by (auto simp: select_room_def find_None_iff)

lemma select_unique:
  "distinct (map rwID (dbRooms db)) \<Longrightarrow> r \<in> set (dbRooms db) \<Longrightarrow> select_room db (rwID r) = Some r"
proof -
  have "distinct (map rwID rs) \<Longrightarrow> r \<in> set rs \<Longrightarrow> find (\<lambda>x. rwID x = rwID r) rs = Some r" for rs
    by (induction rs) (auto simp: image_iff)
  then show "distinct (map rwID (dbRooms db)) \<Longrightarrow> r \<in> set (dbRooms db) \<Longrightarrow> ?thesis"
    by (simp add: select_room_def)
qed

section \<open>Invariant and abstraction\<close>

definition store_inv :: "db \<Rightarrow> bool" where
  "store_inv db \<longleftrightarrow>
     distinct (map rwID (dbRooms db))
   \<and> (\<forall>u \<in> set (dbUpdates db). \<exists>r. select_room db (urRoomID u) = Some r \<and> 0 < urSeq u \<and> urSeq u \<le> rwUpdateSeq r)
   \<and> (\<forall>rid. sorted_wrt (<) (map urSeq (room_updates db rid)))
   \<and> (\<forall>r \<in> set (dbRooms db). rwClosedAt r \<noteq> Some [] \<and> 0 \<le> rwUpdateSeq r)"

lemma store_invD:
  assumes "store_inv db"
  shows "distinct (map rwID (dbRooms db))"
    and "u \<in> set (room_updates db rid) \<Longrightarrow> select_room db rid = Some r \<Longrightarrow> 0 < urSeq u \<and> urSeq u \<le> rwUpdateSeq r"
    and "select_room db rid = None \<Longrightarrow> room_updates db rid = []"
    and "sorted_wrt (<) (map urSeq (room_updates db rid))"
    and "r \<in> set (dbRooms db) \<Longrightarrow> rwClosedAt r \<noteq> Some []"
    and "r \<in> set (dbRooms db) \<Longrightarrow> 0 \<le> rwUpdateSeq r"
  using assms by (fastforce simp: store_inv_def room_updates_def filter_empty_conv)+

lemma store_inv_updateE:
  assumes "store_inv db" and "u \<in> set (dbUpdates db)"
  obtains r where "select_room db (urRoomID u) = Some r" "0 < urSeq u" "urSeq u \<le> rwUpdateSeq r"
  using assms unfolding store_inv_def by blast

lemma store_inv_empty: "store_inv empty_db"
  by (simp add: store_inv_def empty_db_def room_updates_def)

definition log_of :: "db \<Rightarrow> string \<Rightarrow> (int \<times> bytes) list" where
  "log_of db rid = map (\<lambda>u. (urSeq u, urBlob u)) (sort_key urSeq (room_updates db rid))"

definition abs_room :: "db \<Rightarrow> room_row \<Rightarrow> aroom" where
  "abs_room db r = \<lparr>aKeyHash = rwKeyHash r, aClosed = is_closed r, aSnapshot = rwCompact r,
     aLog = log_of db (rwID r), aSeq = rwUpdateSeq r, aTouched = rwUpdatedAt r\<rparr>"

definition abs :: "db \<Rightarrow> astore" where
  "abs db rid = map_option (abs_room db) (select_room db rid)"

lemma abs_room_sel [simp]:
  "aKeyHash (abs_room db r) = rwKeyHash r" "aClosed (abs_room db r) = is_closed r"
  "aSnapshot (abs_room db r) = rwCompact r" "aLog (abs_room db r) = log_of db (rwID r)"
  "aSeq (abs_room db r) = rwUpdateSeq r" "aTouched (abs_room db r) = rwUpdatedAt r"
  by (simp_all add: abs_room_def)

lemma abs_sel:
  "select_room db rid = Some r \<Longrightarrow> abs db rid = Some (abs_room db r)"
  "select_room db rid = None \<Longrightarrow> abs db rid = None"
  by (simp_all add: abs_def)

text \<open>The rows of a room are stored in sequence order, so sorting them changes nothing.\<close>

lemma sort_key_sorted: "sorted_wrt (<) (map f xs) \<Longrightarrow> sort_key (f :: _ \<Rightarrow> int) xs = xs"
proof -
  assume a: "sorted_wrt (<) (map f xs)"
  have "sorted (map f xs)" by (rule sorted_wrt_mono_rel [OF _ a]) simp
  then show ?thesis by (rule sort_key_id_if_sorted)
qed

lemma log_of_eq: "store_inv db \<Longrightarrow> log_of db rid = map (\<lambda>u. (urSeq u, urBlob u)) (room_updates db rid)"
  using store_invD(4) [of db rid] by (simp add: log_of_def sort_key_sorted)

lemma closed_iff: "store_inv db \<Longrightarrow> r \<in> set (dbRooms db) \<Longrightarrow> is_closed r \<longleftrightarrow> rwClosedAt r \<noteq> None"
  using store_invD(5) [of db r] by (auto simp: is_closed_def split: option.splits)

section \<open>Each statement keeps the invariant\<close>

lemma inv_update_rooms:
  assumes "store_inv db" and "\<And>r. rwID (f r) = rwID r"
    and "\<And>r. p r \<Longrightarrow> rwUpdateSeq r \<le> rwUpdateSeq (f r)"
    and "\<And>r. p r \<Longrightarrow> rwClosedAt r \<noteq> Some [] \<Longrightarrow> rwClosedAt (f r) \<noteq> Some []"
  shows "store_inv (update_rooms p f db)"
proof -
  have ids: "map rwID (dbRooms (update_rooms p f db)) = map rwID (dbRooms db)"
    using assms(2) by (simp add: update_rooms_def)
  have sel: "select_room (update_rooms p f db) rid = map_option (\<lambda>r. if p r then f r else r) (select_room db rid)" for rid
    using assms(2) by (rule select_update_rooms)
  have upd: "dbUpdates (update_rooms p f db) = dbUpdates db"
    by (simp add: update_rooms_def)
  have u: "\<exists>r. select_room (update_rooms p f db) (urRoomID u) = Some r \<and> 0 < urSeq u \<and> urSeq u \<le> rwUpdateSeq r"
    if v: "u \<in> set (dbUpdates db)" for u
  proof -
    obtain r where "select_room db (urRoomID u) = Some r" "0 < urSeq u" "urSeq u \<le> rwUpdateSeq r"
      using store_inv_updateE [OF assms(1) v] .
    then show ?thesis using assms(3) [of r] by (auto simp: sel)
  qed
  have r: "rwClosedAt r \<noteq> Some [] \<and> 0 \<le> rwUpdateSeq r" if "r \<in> set (dbRooms (update_rooms p f db))" for r
  proof -
    obtain r0 where "r0 \<in> set (dbRooms db)" "r = (if p r0 then f r0 else r0)"
      using \<open>r \<in> _\<close> by (auto simp: update_rooms_def)
    then show ?thesis
      using store_invD(5,6) [OF assms(1), of r0] assms(3,4) [of r0] by (auto split: if_splits)
  qed
  show ?thesis
    using assms(1) ids u r upd by (simp add: store_inv_def updates_update_rooms)
qed

lemma inv_delete_updates: "store_inv db \<Longrightarrow> store_inv (delete_updates p db)"
  by (auto simp: store_inv_def select_delete_updates updates_delete_updates sorted_wrt_map_filter)
     (auto simp: delete_updates_def)

lemma inv_insert_room:
  assumes "store_inv db" and "insert_room (new_room_row now rid h) db = Some db'"
  shows "store_inv db'"
proof -
  have none: "select_room db rid = None" and db': "db' = db\<lparr>dbRooms := dbRooms db @ [new_room_row now rid h]\<rparr>"
    using assms(2) by (auto simp: insert_room_def new_room_row_def split: if_splits)
  have sel: "select_room db' x = (case select_room db x of None \<Rightarrow> if x = rid then Some (new_room_row now rid h) else None | Some r \<Rightarrow> Some r)" for x
  proof -
    have "find P (xs @ [y]) = (case find P xs of None \<Rightarrow> if P y then Some y else None | Some z \<Rightarrow> Some z)"
      for P and xs :: "room_row list" and y by (induction xs) auto
    then show ?thesis by (auto simp: db' select_room_def new_room_row_def split: option.split)
  qed
  have "rid \<notin> rwID ` set (dbRooms db)" using none by (auto dest: select_NoneD)
  then show ?thesis
    using assms(1) sel unfolding store_inv_def
    by (fastforce simp: db' new_room_row_def room_updates_def)
qed

lemma inv_insert_update:
  assumes inv: "store_inv db" and r: "select_room db rid = Some r"
  shows "insert_update \<lparr>urRoomID = rid, urSeq = rwUpdateSeq r + 1, urBlob = b, urCreatedAt = t\<rparr> db =
      Some (db\<lparr>dbUpdates := dbUpdates db @ [\<lparr>urRoomID = rid, urSeq = rwUpdateSeq r + 1, urBlob = b, urCreatedAt = t\<rparr>]\<rparr>)"
proof -
  have "urSeq u \<noteq> rwUpdateSeq r + 1" if "u \<in> set (room_updates db rid)" for u
    using store_invD(2) [OF inv that r] by simp
  then show ?thesis by (simp add: insert_update_def)
qed

lemma updates_append:
  "room_updates (db\<lparr>dbUpdates := dbUpdates db @ [u]\<rparr>) x = room_updates db x @ (if urRoomID u = x then [u] else [])"
  by (simp add: room_updates_def)

lemma inv_append:
  assumes inv: "store_inv db" and r: "select_room db rid = Some r"
    and f: "\<And>r. rwID (f r) = rwID r" "\<And>r. rwClosedAt (f r) = rwClosedAt r" "\<And>r. rwUpdateSeq (f r) = q"
    and q: "q = rwUpdateSeq r + 1"
  shows "store_inv (update_rooms (\<lambda>r. rwID r = rid) f
     (db\<lparr>dbUpdates := dbUpdates db @ [\<lparr>urRoomID = rid, urSeq = q, urBlob = b, urCreatedAt = t\<rparr>]\<rparr>))" (is "store_inv ?db")
proof -
  have sel: "select_room ?db x = map_option (\<lambda>r. if rwID r = rid then f r else r) (select_room db x)" for x
    by (simp add: select_update_rooms f(1)) (simp add: select_room_def)
  have ups: "dbUpdates ?db = dbUpdates db @ [\<lparr>urRoomID = rid, urSeq = q, urBlob = b, urCreatedAt = t\<rparr>]"
    by (simp add: update_rooms_def)
  have rooms: "dbRooms ?db = map (\<lambda>r. if rwID r = rid then f r else r) (dbRooms db)"
    by (simp add: update_rooms_def)
  have ids: "map rwID (dbRooms ?db) = map rwID (dbRooms db)" by (simp add: rooms f(1))
  have uniq: "x = r" if "x \<in> set (dbRooms db)" "rwID x = rid" for x
    using select_unique [OF store_invD(1) [OF inv] that(1)] that(2) r by simp
  have q0: "0 \<le> rwUpdateSeq r" using store_invD(6) [OF inv] select_SomeD [OF r] by simp
  have q1: "0 \<le> q" using q0 q by simp
  have old: "\<exists>x. select_room ?db (urRoomID u) = Some x \<and> 0 < urSeq u \<and> urSeq u \<le> rwUpdateSeq x"
    if u: "u \<in> set (dbUpdates db)" for u
  proof -
    obtain x where x: "select_room db (urRoomID u) = Some x" "0 < urSeq u" "urSeq u \<le> rwUpdateSeq x"
      using store_inv_updateE [OF inv u] .
    have "rwUpdateSeq x \<le> rwUpdateSeq (if rwID x = rid then f x else x)"
      using uniq [of x] select_SomeD [OF x(1)] by (auto simp: f(3) q)
    then show ?thesis using x by (auto simp: sel)
  qed
  have new: "\<exists>x. select_room ?db rid = Some x \<and> 0 < q \<and> q \<le> rwUpdateSeq x"
  proof -
    have "select_room ?db rid = Some (f r)"
      using select_SomeD [OF r] by (simp add: sel r)
    then show ?thesis using q0 q by (simp add: f(3))
  qed
  have srt: "sorted_wrt (<) (map urSeq (room_updates ?db x))" for x
    using store_invD(4) [OF inv, of x] store_invD(2) [OF inv _ r] q
    by (auto simp: updates_update_rooms updates_append sorted_wrt_append)
  have row: "rwClosedAt x \<noteq> Some [] \<and> 0 \<le> rwUpdateSeq x" if "x \<in> set (dbRooms ?db)" for x
    using that store_invD(5,6) [OF inv] q1 by (auto simp: rooms f(2,3))
  show ?thesis
    unfolding store_inv_def using store_invD(1) [OF inv] ids old new srt row by (auto simp: ups)
qed

section \<open>Refinement\<close>

text \<open>How the abstraction changes when one room's row and log change.\<close>

lemma abs_upd:
  assumes "\<And>x. select_room db' x = (if x = rid then Some r' else select_room db x)"
    and "\<And>x. x \<noteq> rid \<Longrightarrow> log_of db' x = log_of db x"
  shows "abs db' = (abs db)(rid \<mapsto> abs_room db' r')"
proof
  fix x
  show "abs db' x = ((abs db)(rid \<mapsto> abs_room db' r')) x"
  proof (cases "x = rid")
    case False
    have "abs_room db' r = abs_room db r" if "select_room db x = Some r" for r
      using select_SomeD [OF that] assms(2) [OF False] by (simp add: abs_room_def)
    then show ?thesis
      using False by (cases "select_room db x") (simp_all add: abs_def assms(1))
  qed (simp add: abs_def assms(1))
qed

lemma select_update_one:
  assumes "\<And>r. rwID (f r) = rwID r" and "select_room db rid = Some r" and "p r"
    and "\<And>x. p x \<Longrightarrow> rwID x = rid"
  shows "select_room (update_rooms p f db) x = (if x = rid then Some (f r) else select_room db x)"
proof (cases "x = rid")
  case False
  have "(if p y then f y else y) = y" if "select_room db x = Some y" for y
    using select_SomeD [OF that] assms(4) [of y] False by auto
  then show ?thesis
    using False assms(1) by (cases "select_room db x") (simp_all add: select_update_rooms)
qed (simp add: assms select_update_rooms)

lemma log_of_cong: "room_updates db' x = room_updates db x \<Longrightarrow> log_of db' x = log_of db x"
  by (simp add: log_of_def)

lemma log_of_update_rooms [simp]: "log_of (update_rooms p f db) x = log_of db x"
  by (rule log_of_cong) (rule updates_update_rooms)

lemma abs_closed: "store_inv db \<Longrightarrow> select_room db rid = Some r \<Longrightarrow> aClosed (abs_room db r) \<longleftrightarrow> rwClosedAt r \<noteq> None"
  using closed_iff [of db r] select_SomeD [of db rid r] by (simp add: abs_room_def)

lemma new_room_row_sel [simp]:
  "rwID (new_room_row now rid h) = rid" "rwKeyHash (new_room_row now rid h) = h"
  "rwCompact (new_room_row now rid h) = None" "rwUpdateSeq (new_room_row now rid h) = 0"
  "rwUpdatedAt (new_room_row now rid h) = now" "\<not> is_closed (new_room_row now rid h)"
  "rwStorageBytes (new_room_row now rid h) = 0" "rwUpdateCount (new_room_row now rid h) = 0"
  by (simp_all add: new_room_row_def is_closed_def)

lemma touch_room:
  assumes "store_inv db" and "select_room db rid = Some r"
  shows "abs (update_rooms (\<lambda>r. rwID r = rid) (\<lambda>r. r\<lparr>rwUpdatedAt := now\<rparr>) db)
       = (abs db)(rid \<mapsto> (abs_room db r)\<lparr>aTouched := now\<rparr>)"
proof -
  have id: "rwID r = rid" using select_SomeD [OF assms(2)] by simp
  show ?thesis
    by (subst abs_upd [where rid = rid and r' = "r\<lparr>rwUpdatedAt := now\<rparr>" and db = db])
       (simp_all add: select_update_one [OF _ assms(2)] id abs_room_def is_closed_def)
qed

lemma ensure_refines:
  assumes inv: "store_inv db" and "now \<noteq> []"
  shows "store_inv (snd (EnsureRoom fail now rid h db)) \<and>
    refines_or_fails abs db (EnsureRoom fail now rid h db) (ensure_spec now rid h (abs db))"
proof (cases "select_room db rid")
  case (Some r)
  have inv': "store_inv (update_rooms (\<lambda>r. rwID r = rid) (\<lambda>r. r\<lparr>rwUpdatedAt := now\<rparr>) db)"
    by (rule inv_update_rooms [OF inv]) simp_all
  show ?thesis
    using inv inv' touch_room [OF inv Some, of now]
    by (simp add: EnsureRoom_def ensure_spec_def refines_or_fails_def Some abs_sel(1) [OF Some])
next
  case None
  let ?row = "new_room_row now rid h"
  have ins: "insert_room ?row db = Some (db\<lparr>dbRooms := dbRooms db @ [?row]\<rparr>)" (is "_ = Some ?db'")
    using None by (simp add: insert_room_def new_room_row_def)
  have sel: "select_room ?db' x = (if x = rid then Some ?row else select_room db x)" for x
  proof -
    have "find P (xs @ [y]) = (case find P xs of None \<Rightarrow> if P y then Some y else None | Some z \<Rightarrow> Some z)"
      for P and xs :: "room_row list" and y by (induction xs) auto
    then show ?thesis
      using None by (auto simp: select_room_def new_room_row_def split: option.split)
  qed
  have ups: "room_updates ?db' x = room_updates db x" for x by (simp add: room_updates_def)
  have log: "log_of ?db' x = log_of db x" for x by (rule log_of_cong) (rule ups)
  have "abs ?db' = (abs db)(rid \<mapsto> abs_room ?db' ?row)"
    by (rule abs_upd) (rule sel, rule log)
  moreover have "abs_room ?db' ?row = \<lparr>aKeyHash = h, aClosed = False, aSnapshot = None, aLog = [],
      aSeq = 0, aTouched = now\<rparr>"
    using log [of rid] store_invD(3) [OF inv None] by (simp add: abs_room_def log_of_def)
  ultimately show ?thesis
    using inv inv_insert_room [OF inv ins]
    by (simp add: EnsureRoom_def ensure_spec_def refines_or_fails_def None abs_sel(2) [OF None] ins)
qed

lemma append_refines:
  assumes inv: "store_inv db" and "now \<noteq> []"
  shows "store_inv (snd (AppendUpdate fail now rid u db)) \<and>
    refines_or_fails abs db (AppendUpdate fail now rid u db) (append_spec now rid u (abs db))"
proof (cases "select_room db rid")
  case None
  then show ?thesis
    using inv by (simp add: AppendUpdate_def append_spec_def refines_or_fails_def abs_sel(2))
next
  case (Some r)
  define q where "q = rwUpdateSeq r + 1"
  define row where "row = \<lparr>urRoomID = rid, urSeq = q, urBlob = u, urCreatedAt = now\<rparr>"
  define f where "f = (\<lambda>x :: room_row. x\<lparr>rwUpdateSeq := q, rwStorageBytes := rwStorageBytes x + int (length u),
    rwUpdateCount := rwUpdateCount x + 1, rwUpdatedAt := now\<rparr>)"
  define db' where "db' = update_rooms (\<lambda>r. rwID r = rid) f (db\<lparr>dbUpdates := dbUpdates db @ [row]\<rparr>)"
  have id: "rwID r = rid" using select_SomeD [OF Some] by simp
  have inv': "store_inv db'"
    unfolding db'_def row_def by (rule inv_append [OF inv Some]) (simp_all add: f_def q_def)
  have sel0: "select_room (db\<lparr>dbUpdates := v\<rparr>) x = select_room db x" for v x
    by (simp add: select_room_def)
  have sel: "select_room db' x = (if x = rid then Some (f r) else select_room db x)" for x
    unfolding db'_def
    using select_update_one [of f "db\<lparr>dbUpdates := dbUpdates db @ [row]\<rparr>" rid r "\<lambda>r. rwID r = rid" x] Some id
    by (simp add: sel0 f_def)
  have ups: "room_updates db' x = room_updates db x @ (if x = rid then [row] else [])" for x
    by (simp add: db'_def updates_update_rooms updates_append row_def)
  have log: "log_of db' rid = log_of db rid @ [(q, u)]"
    by (simp add: log_of_eq inv inv' ups) (simp add: row_def)
  have log': "log_of db' x = log_of db x" if "x \<noteq> rid" for x
    by (rule log_of_cong) (simp add: ups that)
  have "abs db' = (abs db)(rid \<mapsto> abs_room db' (f r))"
    by (rule abs_upd) (rule sel, rule log')
  moreover have "abs_room db' (f r) = (abs_room db r)\<lparr>aLog := log_of db rid @ [(q, u)], aSeq := q, aTouched := now\<rparr>"
    using log by (simp add: abs_room_def f_def is_closed_def id)
  moreover have "AppendUpdate fail now rid u db =
    (if fail 0 \<or> fail 1 then (Inl ErrDriver, db) else if is_closed r then (Inl ErrRoomClosed, db)
     else if fail 2 \<or> fail 3 \<or> fail 4 then (Inl ErrDriver, db) else (Inr q, db'))"
    using inv_insert_update [OF inv Some, of u now]
    by (auto simp: AppendUpdate_def Some Let_def q_def row_def f_def db'_def)
  ultimately show ?thesis
    using inv inv' by (simp add: append_spec_def refines_or_fails_def abs_sel(1) [OF Some] q_def [symmetric] id)
qed

text \<open>The rows an UPDATE with \<open>closed_at IS NULL\<close> reaches: the room's, if it is open.\<close>

lemma open_target:
  assumes "store_inv db" and "select_room db rid = Some r"
  shows "(\<exists>x \<in> set (dbRooms db). rwID x = rid \<and> rwClosedAt x = None) \<longleftrightarrow> \<not> is_closed r"
proof -
  have "r \<in> set (dbRooms db)" "rwID r = rid" using select_SomeD [OF assms(2)] by simp_all
  moreover have "x = r" if "x \<in> set (dbRooms db)" "rwID x = rid" for x
    using select_unique [OF store_invD(1) [OF assms(1)] that(1)] that(2) assms(2) by simp
  ultimately have "(\<exists>x \<in> set (dbRooms db). rwID x = rid \<and> rwClosedAt x = None) \<longleftrightarrow> rwClosedAt r = None"
    by blast
  then show ?thesis
    using closed_iff [OF assms(1), of r] select_SomeD [OF assms(2)] by simp
qed

lemma no_target:
  "select_room db rid = None \<Longrightarrow> \<not> (\<exists>x \<in> set (dbRooms db). rwID x = rid \<and> rwClosedAt x = None)"
  by (auto dest: select_NoneD)

lemma log_of_filter:
  "store_inv db \<Longrightarrow> log_of (delete_updates p db) rid
     = map (\<lambda>u. (urSeq u, urBlob u)) (filter (\<lambda>u. \<not> p u) (room_updates db rid))"
  by (simp add: log_of_eq inv_delete_updates updates_delete_updates)

text \<open>What a successful \<open>SaveSnapshot\<close> writes.\<close>

definition covered :: "string \<Rightarrow> int \<Rightarrow> update_row \<Rightarrow> bool" where
  "covered rid base u \<longleftrightarrow> urRoomID u = rid \<and> (base > 0 \<longrightarrow> urSeq u \<le> base)"

definition saved_db :: "string \<Rightarrow> string \<Rightarrow> bytes \<Rightarrow> int \<Rightarrow> db \<Rightarrow> db" where
  "saved_db now rid blob base db =
     delete_updates (covered rid base)
       (update_rooms (\<lambda>r. rwID r = rid \<and> rwClosedAt r = None)
         (\<lambda>r. r\<lparr>rwCompact := Some blob, rwStorageBytes := int (length blob), rwUpdateCount := 0,
                rwUpdatedAt := now\<rparr>) db)"

lemma SaveSnapshot_eq:
  assumes "store_inv db" and "select_room db rid = Some r"
  shows "SaveSnapshot bind fail now rid st base db =
    (if fail 0 \<or> fail 1 then (Inl ErrDriver, db) else if is_closed r then (Inl ErrRoomClosed, db)
     else case bind st of None \<Rightarrow> (Inl ErrConstraint, db)
       | Some blob \<Rightarrow> if fail 2 \<or> fail 3 then (Inl ErrDriver, db) else (Inr (), saved_db now rid blob base db))"
proof -
  have "covered rid base = (\<lambda>u. urRoomID u = rid \<and> urSeq u \<le> base)" if "base > 0"
    using that by (simp add: covered_def fun_eq_iff)
  moreover have "covered rid base = (\<lambda>u. urRoomID u = rid)" if "\<not> base > 0"
    using that by (simp add: covered_def fun_eq_iff)
  ultimately show ?thesis
    unfolding SaveSnapshot_def Let_def open_target [OF assms]
    by (simp add: saved_db_def split: option.split)
qed

lemma inv_saved: "store_inv db \<Longrightarrow> store_inv (saved_db now rid blob base db)"
  unfolding saved_db_def by (intro inv_delete_updates inv_update_rooms) simp_all

lemma saved_log:
  assumes "store_inv db"
  shows "log_of (saved_db now rid blob base db) x = (if x = rid then log_after base (log_of db rid) else log_of db x)"
proof -
  have inv: "store_inv (update_rooms (\<lambda>r. rwID r = rid \<and> rwClosedAt r = None)
         (\<lambda>r. r\<lparr>rwCompact := Some blob, rwStorageBytes := int (length blob), rwUpdateCount := 0,
                rwUpdatedAt := now\<rparr>) db)"
    by (rule inv_update_rooms [OF assms]) simp_all
  have ours: "u \<in> set (room_updates db x) \<Longrightarrow> urRoomID u = x" for u
    by (simp add: room_updates_def)
  have "filter (\<lambda>u. \<not> covered rid base u) (room_updates db x)
      = (if x = rid then if base > 0 then filter (\<lambda>u. base < urSeq u) (room_updates db rid) else []
         else room_updates db x)"
  proof (cases "x = rid")
    case True
    then show ?thesis
      using ours by (simp add: covered_def not_le filter_empty_conv cong: filter_cong)
  next
    case False
    then show ?thesis
      using ours by (simp add: covered_def cong: filter_cong)
  qed
  then show ?thesis
    unfolding saved_db_def
    by (simp add: log_of_filter [OF inv] updates_update_rooms log_of_eq assms log_after_def filter_map comp_def)
qed

lemma saved_select:
  assumes "store_inv db" and "select_room db rid = Some r" and "\<not> is_closed r"
  shows "select_room (saved_db now rid blob base db) x = (if x = rid
     then Some (r\<lparr>rwCompact := Some blob, rwStorageBytes := int (length blob), rwUpdateCount := 0, rwUpdatedAt := now\<rparr>)
     else select_room db x)"
proof -
  have "rwID r = rid \<and> rwClosedAt r = None"
    using select_SomeD [OF assms(2)] closed_iff [OF assms(1)] assms(3) by simp
  then show ?thesis
    unfolding saved_db_def select_delete_updates
    by (intro select_update_one) (simp_all add: assms(2))
qed

lemma save_refines:
  assumes inv: "store_inv db" and "now \<noteq> []"
  shows "store_inv (snd (SaveSnapshot bind fail now rid st base db)) \<and>
    refines_or_fails abs db (SaveSnapshot bind fail now rid st base db) (save_spec now rid (bind st) base (abs db))"
proof (cases "select_room db rid")
  case None
  then show ?thesis
    using inv no_target [OF None]
    by (simp add: SaveSnapshot_def save_spec_def refines_or_fails_def abs_sel(2))
next
  case (Some r)
  have id: "rwID r = rid" using select_SomeD [OF Some] by simp
  have abs: "abs (saved_db now rid blob base db) = (abs db)(rid \<mapsto>
      (abs_room db r)\<lparr>aSnapshot := Some blob, aLog := log_after base (log_of db rid), aTouched := now\<rparr>)"
    if "\<not> is_closed r" for blob
    by (subst abs_upd [OF saved_select [OF inv Some that]])
       (simp_all add: saved_log inv, simp add: abs_room_def saved_log inv id is_closed_def)
  show ?thesis
    using inv inv_saved [OF inv]
    by (simp add: SaveSnapshot_eq [OF inv Some] save_spec_def refines_or_fails_def abs_sel(1) [OF Some] abs id
        split: option.split)
qed

lemma close_refines:
  assumes inv: "store_inv db" and now: "now \<noteq> []"
  shows "store_inv (snd (CloseRoom fail now rid db)) \<and>
    refines_or_fails abs db (CloseRoom fail now rid db) (close_spec now rid (abs db))"
proof -
  let ?f = "\<lambda>r :: room_row. r\<lparr>rwClosedAt := Some now, rwUpdatedAt := now\<rparr>"
  let ?p = "\<lambda>r. rwID r = rid \<and> rwClosedAt r = None"
  let ?db = "update_rooms ?p ?f db"
  have inv': "store_inv ?db"
    by (rule inv_update_rooms [OF inv]) (simp_all add: now)
  have same: "?db = db" if "\<not> (\<exists>x \<in> set (dbRooms db). ?p x)"
  proof -
    have "map (\<lambda>r. if ?p r then ?f r else r) (dbRooms db) = map (\<lambda>r. r) (dbRooms db)"
      using that by (intro map_cong) auto
    then show ?thesis by (simp add: update_rooms_def)
  qed
  show ?thesis
  proof (cases "select_room db rid")
    case None
    then show ?thesis
      using inv same [OF no_target [OF None]]
      by (simp add: CloseRoom_def close_spec_def refines_or_fails_def abs_sel(2))
  next
    case (Some r)
    have id: "rwID r = rid" using select_SomeD [OF Some] by simp
    have "abs ?db = (abs db)(rid \<mapsto> (abs_room db r)\<lparr>aClosed := True, aTouched := now\<rparr>)" if "\<not> is_closed r"
    proof -
      have "?p r" using id closed_iff [OF inv] select_SomeD [OF Some] that by simp
      then have "select_room ?db x = (if x = rid then Some (?f r) else select_room db x)" for x
        using Some by (intro select_update_one) simp_all
      then have "abs ?db = (abs db)(rid \<mapsto> abs_room ?db (?f r))"
        by (rule abs_upd) (rule log_of_update_rooms)
      then show ?thesis using now by (simp add: abs_room_def is_closed_def)
    qed
    moreover have "?db = db" if "is_closed r"
      using same open_target [OF inv Some] that by blast
    ultimately show ?thesis
      using inv inv'
      by (simp add: CloseRoom_def close_spec_def refines_or_fails_def abs_sel(1) [OF Some])
  qed
qed

section \<open>Purging inactive rooms\<close>

text \<open>Whether foreign keys are enforced makes no difference: the updates are deleted first.\<close>

lemma purge_foreign_keys: "DeleteInactiveRooms fk fail cutoff db = DeleteInactiveRooms False fail cutoff db"
  by (simp add: DeleteInactiveRooms_def delete_rooms_def delete_updates_def Let_def)

definition purged_db :: "string \<Rightarrow> db \<Rightarrow> db" where
  "purged_db cutoff db =
     \<lparr>dbRooms = filter (\<lambda>r. \<not> text_less (rwUpdatedAt r) cutoff) (dbRooms db),
      dbUpdates = filter (\<lambda>u. \<not> (\<exists>r \<in> set (dbRooms db). text_less (rwUpdatedAt r) cutoff \<and> rwID r = urRoomID u))
        (dbUpdates db)\<rparr>"

lemma DeleteInactiveRooms_eq:
  "DeleteInactiveRooms fk fail cutoff db =
    (if fail 0 \<or> fail 1 \<or> fail 2 \<or> fail 3 then (Inl ErrDriver, db)
     else (Inr (length (filter (\<lambda>r. text_less (rwUpdatedAt r) cutoff) (dbRooms db))), purged_db cutoff db))"
  by (subst purge_foreign_keys)
     (simp add: DeleteInactiveRooms_def delete_rooms_def delete_updates_def purged_db_def Let_def)

lemma purged_select:
  assumes "store_inv db"
  shows "select_room (purged_db cutoff db) rid =
    (case select_room db rid of None \<Rightarrow> None
      | Some r \<Rightarrow> if text_less (rwUpdatedAt r) cutoff then None else Some r)"
proof -
  have "distinct (map rwID rs) \<Longrightarrow> find (\<lambda>r. rwID r = rid) (filter P rs) =
      (case find (\<lambda>r. rwID r = rid) rs of None \<Rightarrow> None | Some r \<Rightarrow> if P r then Some r else None)"
    for P and rs :: "room_row list"
  proof (induction rs)
    case (Cons a rs)
    have "rwID x \<noteq> rwID a" if "x \<in> set rs" for x
      using Cons.prems imageI [OF that, of rwID] by auto
    then have "find (\<lambda>r. rwID r = rwID a) (filter P rs) = None"
      by (simp add: find_None_iff)
    with Cons show ?case by (cases "rwID a = rid") auto
  qed simp
  then show ?thesis
    using store_invD(1) [OF assms] by (auto simp: select_room_def purged_db_def split: option.split)
qed

lemma purged_updates:
  assumes "store_inv db"
  shows "room_updates (purged_db cutoff db) rid =
    (case select_room (purged_db cutoff db) rid of None \<Rightarrow> [] | Some r \<Rightarrow> room_updates db rid)"
proof (cases "select_room db rid")
  case None
  then show ?thesis
    using store_invD(3) [OF assms None]
    by (simp add: purged_select [OF assms]) (auto simp: room_updates_def purged_db_def filter_empty_conv)
next
  case (Some r)
  have r: "r \<in> set (dbRooms db)" "rwID r = rid" using select_SomeD [OF Some] by simp_all
  have "(\<exists>x \<in> set (dbRooms db). text_less (rwUpdatedAt x) cutoff \<and> rwID x = rid)
      \<longleftrightarrow> text_less (rwUpdatedAt r) cutoff"
    using r select_unique [OF store_invD(1) [OF assms]] Some by (metis option.inject)
  moreover have "room_updates (purged_db cutoff db) rid = filter (\<lambda>u. \<not> (\<exists>x \<in> set (dbRooms db).
      text_less (rwUpdatedAt x) cutoff \<and> rwID x = rid)) (room_updates db rid)"
    by (auto simp: room_updates_def purged_db_def intro!: filter_cong)
  ultimately show ?thesis
    by (simp add: purged_select [OF assms] Some)
qed

lemma inv_purged: "store_inv db \<Longrightarrow> store_inv (purged_db cutoff db)"
proof -
  assume inv: "store_inv db"
  have ids: "distinct (map rwID (dbRooms (purged_db cutoff db)))"
    using store_invD(1) [OF inv] by (simp add: purged_db_def distinct_map_filter)
  have upd: "\<exists>r. select_room (purged_db cutoff db) (urRoomID u) = Some r \<and> 0 < urSeq u \<and> urSeq u \<le> rwUpdateSeq r"
    if u: "u \<in> set (dbUpdates (purged_db cutoff db))" for u
  proof -
    have "u \<in> set (dbUpdates db)" using u by (simp add: purged_db_def)
    then obtain r where r: "select_room db (urRoomID u) = Some r" "0 < urSeq u" "urSeq u \<le> rwUpdateSeq r"
      using store_inv_updateE [OF inv] by blast
    then have "\<not> text_less (rwUpdatedAt r) cutoff"
      using u select_SomeD [OF r(1)] by (auto simp: purged_db_def)
    with r show ?thesis by (simp add: purged_select [OF inv])
  qed
  have "sorted_wrt (<) (map urSeq (room_updates (purged_db cutoff db) rid))" for rid
    using store_invD(4) [OF inv] by (simp add: purged_updates [OF inv] split: option.split)
  then show ?thesis
    unfolding store_inv_def using ids upd store_invD(5,6) [OF inv] by (auto simp: purged_db_def)
qed

lemma purge_refines:
  assumes inv: "store_inv db"
  shows "store_inv (snd (DeleteInactiveRooms fk fail cutoff db)) \<and>
    (snd (DeleteInactiveRooms fk fail cutoff db) = db
     \<or> abs (snd (DeleteInactiveRooms fk fail cutoff db)) = purge_spec cutoff (abs db))"
proof -
  have "abs (purged_db cutoff db) rid = purge_spec cutoff (abs db) rid" for rid
  proof (cases "select_room db rid")
    case (Some r)
    have "\<not> text_less (rwUpdatedAt r) cutoff \<Longrightarrow> log_of (purged_db cutoff db) (rwID r) = log_of db (rwID r)"
      using select_SomeD [OF Some] Some
      by (intro log_of_cong) (simp add: purged_updates [OF inv] purged_select [OF inv])
    then show ?thesis
      by (simp add: abs_def purge_spec_def purged_select [OF inv] Some abs_room_def)
  qed (simp add: abs_def purge_spec_def purged_select [OF inv])
  then show ?thesis
    using inv inv_purged [OF inv] by (auto simp: DeleteInactiveRooms_eq)
qed

section \<open>The store keeps the contract\<close>

interpretation sqlite: room_store EnsureRoom AppendUpdate "SaveSnapshot bind" CloseRoom
    "DeleteInactiveRooms fk" bind abs store_inv for bind fk
  by unfold_locales
     (simp_all add: ensure_refines append_refines save_refines close_refines purge_refines)

text \<open>One operation on the database, and a run of them.\<close>

fun sqlite_step :: "(bytes option \<Rightarrow> bytes option) \<Rightarrow> bool \<Rightarrow> db \<Rightarrow> fails \<times> store_op \<Rightarrow> db" where
  "sqlite_step bind fk db (f, OpEnsure now rid h) = snd (EnsureRoom f now rid h db)"
| "sqlite_step bind fk db (f, OpAppend now rid u) = snd (AppendUpdate f now rid u db)"
| "sqlite_step bind fk db (f, OpSave now rid st base) = snd (SaveSnapshot bind f now rid st base db)"
| "sqlite_step bind fk db (f, OpClose now rid) = snd (CloseRoom f now rid db)"
| "sqlite_step bind fk db (f, OpPurge cutoff) = snd (DeleteInactiveRooms fk f cutoff db)"

lemma sqlite_step_eq: "sqlite.step bind fk = sqlite_step bind fk"
proof (intro ext)
  fix db
  fix fop :: "fails \<times> store_op"
  obtain f op where "fop = (f, op)" by (cases fop)
  then show "sqlite.step bind fk db fop = sqlite_step bind fk db fop" by (cases op) simp_all
qed

definition clocked :: "(fails \<times> store_op) list \<Rightarrow> bool" where
  "clocked ops \<longleftrightarrow> (\<forall>(f, op) \<in> set ops. op_clock op \<noteq> [])"

lemma abs_empty: "abs empty_db = Map.empty"
  by (simp add: abs_def empty_db_def select_room_def fun_eq_iff)

lemma sqlite_run:
  assumes "clocked ops"
  shows "store_inv (foldl (sqlite_step bind fk) empty_db ops)"
    and "\<exists>done. subseq done (map snd ops) \<and>
      abs (foldl (sqlite_step bind fk) empty_db ops) = foldl (spec_step bind) Map.empty done"
  using sqlite.run_simulates [OF store_inv_empty, of ops bind fk] assms
  by (simp_all add: clocked_def sqlite_step_eq abs_empty)

lemma sqlite_run_ok:
  assumes "clocked ops"
  shows "astore_ok (abs (foldl (sqlite_step bind fk) empty_db ops))"
proof -
  obtain ops' where "abs (foldl (sqlite_step bind fk) empty_db ops) = foldl (spec_step bind) Map.empty ops'"
    using sqlite_run(2) [OF assms] by blast
  moreover have "astore_ok Map.empty" by (simp add: astore_ok_def)
  ultimately show ?thesis using spec_run_ok by metis
qed

section \<open>The counters\<close>

text \<open>What a room really stores, and whether its counter columns say so.\<close>

definition blob_bytes :: "update_row list \<Rightarrow> int" where
  "blob_bytes us = (\<Sum>u\<leftarrow>us. int (length (urBlob u)))"

definition stored_bytes :: "db \<Rightarrow> room_row \<Rightarrow> int" where
  "stored_bytes db r =
     (case rwCompact r of None \<Rightarrow> 0 | Some b \<Rightarrow> int (length b)) + blob_bytes (room_updates db (rwID r))"

definition counters_exact :: "db \<Rightarrow> string \<Rightarrow> bool" where
  "counters_exact db rid =
     (case select_room db rid of
        None \<Rightarrow> True
      | Some r \<Rightarrow> rwStorageBytes r = stored_bytes db r
                \<and> rwUpdateCount r = int (length (room_updates db rid)))"

lemma blob_bytes_simps [simp]:
  "blob_bytes [] = 0" "blob_bytes (u # us) = int (length (urBlob u)) + blob_bytes us"
  "blob_bytes (us @ vs) = blob_bytes us + blob_bytes vs"
  by (simp_all add: blob_bytes_def)

lemma blob_bytes_nonneg: "0 \<le> blob_bytes us"
  by (induction us) simp_all

lemma blob_bytes_filter:
  "blob_bytes us = blob_bytes (filter P us) + blob_bytes (filter (\<lambda>u. \<not> P u) us)"
  by (induction us) simp_all

end
