(* ===== verification/StoreProps.thy ===== *)
theory StoreProps
  imports Sqlite
begin

text \<open>
  The properties of the persistence layer.  The witnesses run the operations on a small
  database: a room \<open>r\<close> with key hash \<open>k\<close>.
\<close>

section \<open>Lemmas\<close>

lemma load_eq:
  "LoadRoomState no_fails db db rid = Inr \<lparr>CompactState =
     (case select_room db rid of None \<Rightarrow> None | Some r \<Rightarrow> rwCompact r), Updates = log_of db rid\<rparr>"
  by (simp add: LoadRoomState_def no_fails_def log_of_def)

lemma run_seqs:
  assumes "clocked ops" and "db = foldl (sqlite_step bind fk) empty_db ops"
  shows "sorted_wrt (<) (map fst (log_of db rid)) \<and> (\<forall>(s, u) \<in> set (log_of db rid). 0 < s)"
proof (cases "select_room db rid")
  case None
  then have "room_updates db rid = []"
    using store_invD(3) sqlite_run(1) [OF assms(1)] assms(2) by blast
  then show ?thesis by (simp add: log_of_def)
next
  case (Some r)
  then have "log_ok (abs_room db r)" "rwID r = rid"
    using sqlite_run_ok [OF assms(1), of bind fk] assms(2) abs_sel(1) [OF Some] select_SomeD [OF Some]
    by (auto simp: astore_ok_def)
  then show ?thesis by (auto simp: log_ok_def)
qed

text \<open>The refinement lemmas read for one successful operation.\<close>

lemma append_success:
  assumes "store_inv db" "now \<noteq> []" "AppendUpdate f now rid u db = (Inr seq, db')"
  shows "\<exists>a. abs db rid = Some a \<and> \<not> aClosed a \<and> seq = aSeq a + 1 \<and>
     abs db' = (abs db)(rid \<mapsto> a\<lparr>aLog := aLog a @ [(seq, u)], aSeq := seq, aTouched := now\<rparr>)"
  using append_refines [OF assms(1,2), of f rid u] assms(3)
  by (auto simp: refines_or_fails_def append_spec_def split: option.splits if_splits)

lemma save_success:
  assumes "store_inv db" "now \<noteq> []" "SaveSnapshot bind f now rid st base db = (Inr (), db')"
  shows "\<exists>a b. abs db rid = Some a \<and> \<not> aClosed a \<and> bind st = Some b \<and>
     abs db' = (abs db)(rid \<mapsto> a\<lparr>aSnapshot := Some b, aLog := log_after base (aLog a), aTouched := now\<rparr>)"
  using save_refines [OF assms(1,2), of bind f rid st base] assms(3)
  by (auto simp: refines_or_fails_def save_spec_def split: option.splits if_splits)

lemma load_abs:
  assumes "store_inv db"
  shows "LoadRoomState no_fails db db rid = Inr (case abs db rid of
     None \<Rightarrow> \<lparr>CompactState = None, Updates = []\<rparr>
   | Some a \<Rightarrow> \<lparr>CompactState = aSnapshot a, Updates = aLog a\<rparr>)"
proof (cases "select_room db rid")
  case None
  then show ?thesis
    using store_invD(3) [OF assms None] by (simp add: load_eq abs_def log_of_def)
next
  case (Some r)
  then show ?thesis using select_SomeD [OF Some] by (simp add: load_eq abs_def)
qed

definition atomic :: "'s \<Rightarrow> ('e, 'a) result \<times> 's \<Rightarrow> bool" where
  "atomic s out \<longleftrightarrow> (\<forall>e. fst out = Inl e \<longrightarrow> snd out = s)"

definition no_purge :: "(fails \<times> store_op) list \<Rightarrow> bool" where
  "no_purge ops \<longleftrightarrow> (\<forall>(f, op) \<in> set ops. case op of OpPurge _ \<Rightarrow> False | _ \<Rightarrow> True)"

lemma closed_step:
  assumes inv: "store_inv db" and a: "abs db rid = Some a" "aClosed a" and op: "op_clock op \<noteq> []"
    and np: "case op of OpPurge _ \<Rightarrow> False | _ \<Rightarrow> True"
  shows "store_inv (sqlite_step bind fk db (f, op)) \<and> abs (sqlite_step bind fk db (f, op)) rid = Some a"
proof -
  note sim = sqlite.step_simulates [OF inv op, of bind fk f, unfolded sqlite_step_eq]
  have "spec_step bind (abs db) op rid = Some a"
    using a np by (cases op) (auto simp: spec_defs split: option.splits)
  with sim a show ?thesis by metis
qed

lemma closed_run:
  assumes "store_inv db" "abs db rid = Some a" "aClosed a" "clocked ops" "no_purge ops"
  shows "abs (foldl (sqlite_step bind fk) db ops) rid = Some a"
  using assms
proof (induction ops arbitrary: db)
  case (Cons fop ops)
  obtain f op where fop: "fop = (f, op)" by (cases fop)
  then have op: "op_clock op \<noteq> []" "case op of OpPurge _ \<Rightarrow> False | _ \<Rightarrow> True" "clocked ops" "no_purge ops"
    using Cons.prems(4,5) by (auto simp: clocked_def no_purge_def)
  note one = closed_step [OF Cons.prems(1,2,3) op(1,2), of bind fk f]
  from Cons.IH [OF conjunct1 [OF one] conjunct2 [OF one] Cons.prems(3) op(3,4)]
  show ?case unfolding fop by simp
qed simp

text \<open>Without driver failures \<open>EnsureRoom\<close> does what the abstract operation does.\<close>

lemma ensure_outcome:
  assumes "store_inv db" and "now \<noteq> []" and "\<not> f 0" "\<not> f 1" "\<not> f 2" "\<not> f 3"
  shows "fst (EnsureRoom f now rid h db) = fst (ensure_spec now rid h (abs db))"
    and "abs (snd (EnsureRoom f now rid h db)) = snd (ensure_spec now rid h (abs db))"
proof -
  have "fst (EnsureRoom f now rid h db) \<noteq> Inl ErrDriver"
    using assms(3-) by (simp add: EnsureRoom_def split: option.split)
  then show "fst (EnsureRoom f now rid h db) = fst (ensure_spec now rid h (abs db))"
    and "abs (snd (EnsureRoom f now rid h db)) = snd (ensure_spec now rid h (abs db))"
    using ensure_refines [OF assms(1,2), of f rid h] by (auto simp: refines_or_fails_def)
qed

text \<open>A room that is open under a key hash stays so until it is closed or purged.\<close>

definition open_with :: "db \<Rightarrow> string \<Rightarrow> string \<Rightarrow> bool" where
  "open_with db rid h \<longleftrightarrow> (case abs db rid of None \<Rightarrow> False | Some a \<Rightarrow> aKeyHash a = h \<and> \<not> aClosed a)"

lemma ensure_accepts:
  assumes "store_inv db" and "now \<noteq> []" and "EnsureRoom f now rid h db = (Inr x, db')"
  shows "store_inv db' \<and> open_with db' rid h \<and> (abs db rid = None \<or> open_with db rid h)"
proof -
  from ensure_refines [OF assms(1,2), of f rid h] assms(3)
  have "fst (ensure_spec now rid h (abs db)) = Inr x" and "abs db' = snd (ensure_spec now rid h (abs db))"
    and "store_inv db'"
    by (auto simp: refines_or_fails_def)
  then show ?thesis by (auto simp: open_with_def ensure_spec_def split: option.splits if_splits)
qed

fun keeps_open :: "string \<Rightarrow> fails \<times> store_op \<Rightarrow> bool" where
  "keeps_open rid (f, OpClose now rid') \<longleftrightarrow> rid' \<noteq> rid"
| "keeps_open rid (f, OpPurge cutoff) \<longleftrightarrow> False"
| "keeps_open rid (f, op) \<longleftrightarrow> True"

lemma open_step:
  assumes inv: "store_inv db" and "open_with db rid h" and op: "op_clock op \<noteq> []" and "keeps_open rid (f, op)"
  shows "store_inv (sqlite_step bind fk db (f, op)) \<and> open_with (sqlite_step bind fk db (f, op)) rid h"
proof -
  note sim = sqlite.step_simulates [OF inv op, of bind fk f, unfolded sqlite_step_eq]
  have "case spec_step bind (abs db) op rid of None \<Rightarrow> False | Some a \<Rightarrow> aKeyHash a = h \<and> \<not> aClosed a"
    using assms(2,4) by (cases op) (auto simp: open_with_def spec_defs split: option.splits)
  with sim assms(2) show ?thesis unfolding open_with_def by metis
qed

lemma open_run:
  assumes "store_inv db" "open_with db rid h" "clocked ops" "list_all (keeps_open rid) ops"
  shows "store_inv (foldl (sqlite_step bind fk) db ops) \<and> open_with (foldl (sqlite_step bind fk) db ops) rid h"
  using assms
proof (induction ops arbitrary: db)
  case (Cons fop ops)
  obtain f op where fop: "fop = (f, op)" by (cases fop)
  then have op: "op_clock op \<noteq> []" "keeps_open rid (f, op)" "clocked ops" "list_all (keeps_open rid) ops"
    using Cons.prems(3,4) by (auto simp: clocked_def)
  note one = open_step [OF Cons.prems(1,2) op(1,2), of bind fk]
  from Cons.IH [OF conjunct1 [OF one] conjunct2 [OF one] op(3,4)]
  show ?case unfolding fop by simp
qed simp

text \<open>A document: what clients make of a snapshot and the updates after it.\<close>

definition document :: "(bytes option \<Rightarrow> 'd) \<Rightarrow> ('d \<Rightarrow> bytes \<Rightarrow> 'd) \<Rightarrow> room_state \<Rightarrow> 'd" where
  "document load app s = foldl app (load (CompactState s)) (map snd (Updates s))"

lemma log_after_split:
  assumes "sorted_wrt (<) (map fst l)" and "base > 0"
  shows "l = filter (\<lambda>(s, _). s \<le> base) l @ log_after base l"
  using assms(1)
proof (induction l)
  case (Cons x l)
  then have tail: "l = filter (\<lambda>(s, _). s \<le> base) l @ log_after base l" by simp
  show ?case
  proof (cases "fst x \<le> base")
    case True
    then show ?thesis using tail assms(2) by (cases x) (simp add: log_after_def)
  next
    case False
    then have "\<forall>y \<in> set l. \<not> fst y \<le> base" using Cons.prems by fastforce
    then have "filter (\<lambda>(s, _). s \<le> base) l = []" "filter (\<lambda>(s, _). base < s) l = l"
      by (auto simp: filter_empty_conv filter_id_conv)
    then show ?thesis using False assms(2) by (cases x) (simp add: log_after_def)
  qed
qed (simp add: log_after_def)

text \<open>Two updates, the database holding them, and one with the room closed.\<close>

definition demo_ops :: "(fails \<times> store_op) list" where
  "demo_ops = [(no_fails, OpEnsure ''t1'' ''r'' ''k''), (no_fails, OpAppend ''t2'' ''r'' [1, 2]),
     (no_fails, OpAppend ''t3'' ''r'' [3])]"

definition demo_db :: db where
  "demo_db = foldl (sqlite_step id True) empty_db demo_ops"

definition closed_db :: db where
  "closed_db = snd (CloseRoom no_fails ''t4'' ''r'' demo_db)"

lemmas store_eval =
  demo_db_def demo_ops_def closed_db_def empty_db_def no_fails_def select_room_def room_updates_def
  EnsureRoom_def AppendUpdate_def SaveSnapshot_def CloseRoom_def DeleteInactiveRooms_def
  LoadRoomState_def UpdateCount_def RoomStorageBytes_def
  insert_room_def insert_update_def update_rooms_def delete_updates_def delete_rooms_def
  new_room_row_def is_closed_def Let_def

lemma demo_clocked: "clocked demo_ops"
  by (simp add: clocked_def demo_ops_def)

lemma demo_inv: "store_inv demo_db"
  unfolding demo_db_def by (rule sqlite_run(1) [OF demo_clocked])

lemma demo_closed_inv: "store_inv closed_db"
  unfolding closed_db_def by (rule conjunct1 [OF close_refines [OF demo_inv]]) simp

section \<open>Properties\<close>

text \<open>
  C5: Any sequence of store operations, with any pattern of driver failures, leaves the SQLite
  tables in a state that the abstract store reaches by the operations that took effect, in order:
  the implementation refines the interface, and a failed operation is as if it never ran.
\<close>

theorem store_run_refines:
  assumes "clocked ops"
  shows "\<exists>done. subseq done (map snd ops) \<and>
    abs (foldl (sqlite_step bind fk) empty_db ops) = foldl (spec_step bind) Map.empty done"
  by (rule sqlite_run(2) [OF assms])

theorem store_run_refines_witness:
  "\<exists>done. subseq done (map snd demo_ops) \<and>
    abs (foldl (sqlite_step id True) empty_db demo_ops) = foldl (spec_step id) Map.empty done"
  by (rule store_run_refines [OF demo_clocked])

text \<open>
  After any run of operations, \<open>LoadRoomState\<close> returns a room's updates in strictly increasing
  sequence order, all numbered from one: no number is used twice or reused after a snapshot.
\<close>

lemma load_increasing:
  assumes "clocked ops"
    and "LoadRoomState no_fails (foldl (sqlite_step bind fk) empty_db ops)
      (foldl (sqlite_step bind fk) empty_db ops) rid = Inr s"
  shows "sorted_wrt (<) (map fst (Updates s)) \<and> (\<forall>(q, u) \<in> set (Updates s). 0 < q)"
  using run_seqs [OF assms(1) refl, of bind fk rid] assms(2) by (auto simp: load_eq)

lemma load_increasing_example:
  "sorted_wrt (<) (map fst [(1 :: int, [1, 2 :: byte]), (2, [3])])"
proof -
  have "LoadRoomState no_fails (foldl (sqlite_step id True) empty_db demo_ops)
      (foldl (sqlite_step id True) empty_db demo_ops) ''r''
    = Inr \<lparr>CompactState = None, Updates = [(1, [1, 2]), (2, [3])]\<rparr>"
    by (simp add: store_eval)
  from load_increasing [OF demo_clocked this] show ?thesis by simp
qed

text \<open>
  C18: A successful \<open>AppendUpdate\<close> makes the update the last one that \<open>LoadRoomState\<close> returns, under
  a sequence number above all others of the room, keeps the snapshot and the earlier updates,
  and touches no other room.
\<close>

theorem append_then_load:
  assumes "store_inv db" and "now \<noteq> []" and "astore_ok (abs db)"
    and "AppendUpdate f now rid u db = (Inr seq, db')"
  shows "\<exists>s. LoadRoomState no_fails db db rid = Inr s
     \<and> LoadRoomState no_fails db' db' rid = Inr (s\<lparr>Updates := Updates s @ [(seq, u)]\<rparr>)
     \<and> (\<forall>(q, v) \<in> set (Updates s). q < seq)
     \<and> (\<forall>other. other \<noteq> rid \<longrightarrow> abs db' other = abs db other)"
proof -
  obtain a where a: "abs db rid = Some a" "seq = aSeq a + 1"
    "abs db' = (abs db)(rid \<mapsto> a\<lparr>aLog := aLog a @ [(seq, u)], aSeq := seq, aTouched := now\<rparr>)"
    using append_success [OF assms(1,2,4)] by blast
  have inv': "store_inv db'"
    using append_refines [OF assms(1,2), of f rid u] assms(4) by simp
  have "log_ok a" using assms(3) a(1) by (rule astore_okD)
  then show ?thesis
    using a by (auto simp: load_abs [OF assms(1)] load_abs [OF inv'] log_ok_def)
qed

theorem append_then_load_witness:
  "\<exists>s. LoadRoomState no_fails demo_db demo_db ''r'' = Inr s
     \<and> LoadRoomState no_fails (snd (AppendUpdate no_fails ''t4'' ''r'' [9] demo_db))
         (snd (AppendUpdate no_fails ''t4'' ''r'' [9] demo_db)) ''r'' = Inr (s\<lparr>Updates := Updates s @ [(3, [9])]\<rparr>)
     \<and> (\<forall>(q, v) \<in> set (Updates s). q < 3)
     \<and> (\<forall>other. other \<noteq> ''r'' \<longrightarrow>
          abs (snd (AppendUpdate no_fails ''t4'' ''r'' [9] demo_db)) other = abs demo_db other)"
proof (rule append_then_load [where f = no_fails and now = "''t4''", OF demo_inv])
  show "astore_ok (abs demo_db)"
    unfolding demo_db_def by (rule sqlite_run_ok [OF demo_clocked])
  show "AppendUpdate no_fails ''t4'' ''r'' [9] demo_db = (Inr 3, snd (AppendUpdate no_fails ''t4'' ''r'' [9] demo_db))"
    by (simp add: store_eval)
qed simp

text \<open>
  C10: Compaction loses nothing.  If a client folded the stored snapshot and all updates numbered
  up to \<open>baseSeq\<close> into a snapshot, then storing that snapshot leaves the document of the room
  unchanged: what a later client builds from the new snapshot and the updates still stored is
  what it would have built before, updates that arrived in the meantime included.
\<close>

theorem snapshot_preserves_document:
  assumes inv: "store_inv db" and "now \<noteq> []" and ok: "astore_ok (abs db)"
    and base: "baseSeq > 0"
    and saved: "SaveSnapshot bind f now rid (Some blob) baseSeq db = (Inr (), db')"
    and bound: "bind (Some blob) = Some blob"
    and before: "LoadRoomState no_fails db db rid = Inr s"
    and folded: "load (Some blob) = document load app (s\<lparr>Updates := filter (\<lambda>(q, u). q \<le> baseSeq) (Updates s)\<rparr>)"
  shows "\<exists>s'. LoadRoomState no_fails db' db' rid = Inr s' \<and> document load app s' = document load app s"
proof -
  obtain a where a: "abs db rid = Some a"
    "abs db' = (abs db)(rid \<mapsto> a\<lparr>aSnapshot := Some blob, aLog := log_after baseSeq (aLog a), aTouched := now\<rparr>)"
    using save_success [OF inv assms(2) saved] bound by auto
  have inv': "store_inv db'"
    using save_refines [OF inv assms(2), of bind f rid "Some blob" baseSeq] saved by simp
  have s: "s = \<lparr>CompactState = aSnapshot a, Updates = aLog a\<rparr>"
    using before a(1) by (simp add: load_abs [OF inv])
  have "sorted_wrt (<) (map fst (aLog a))"
    using astore_okD [OF ok a(1)] by (simp add: log_ok_def)
  note split = log_after_split [OF this base]
  have "document load app s = foldl app (load (Some blob)) (map snd (log_after baseSeq (aLog a)))"
    using folded unfolding s document_def by (subst split) simp
  then show ?thesis
    using a(2) by (simp add: load_abs [OF inv'] document_def)
qed

theorem snapshot_preserves_document_witness:
  "\<exists>s'. LoadRoomState no_fails (snd (SaveSnapshot id no_fails ''t4'' ''r'' (Some [1, 2]) 1 demo_db))
      (snd (SaveSnapshot id no_fails ''t4'' ''r'' (Some [1, 2]) 1 demo_db)) ''r'' = Inr s'
    \<and> document (case_option [] id) (@) s' =
      document (case_option [] id) (@) \<lparr>CompactState = None, Updates = [(1, [1, 2]), (2, [3])]\<rparr>"
proof (rule snapshot_preserves_document [where f = no_fails and now = "''t4''" and bind = id
      and baseSeq = 1 and blob = "[1, 2]" and db = demo_db and rid = "''r''", OF demo_inv])
  show "astore_ok (abs demo_db)"
    unfolding demo_db_def by (rule sqlite_run_ok [OF demo_clocked])
qed (simp_all add: store_eval document_def)

text \<open>
  C19: A closed room is final: whatever operations follow, short of the purge that removes it, its
  key, snapshot, updates and sequence stay as they were, and no update or snapshot is accepted.
\<close>

theorem closed_room_final:
  assumes "store_inv db" and "select_room db rid = Some r" and "is_closed r"
    and "clocked ops" and "no_purge ops"
  shows "abs (foldl (sqlite_step bind fk) db ops) rid = Some (abs_room db r)
    \<and> (\<exists>e. fst (AppendUpdate f now rid u db) = Inl e)
    \<and> (\<exists>e. fst (SaveSnapshot bind f now rid st base db) = Inl e)
    \<and> (\<exists>e. fst (EnsureRoom f now rid h db) = Inl e)"
proof (intro conjI)
  have a: "abs db rid = Some (abs_room db r)" "aClosed (abs_room db r)"
    using abs_sel(1) [OF assms(2)] assms(3) by simp_all
  show "abs (foldl (sqlite_step bind fk) db ops) rid = Some (abs_room db r)"
    by (rule closed_run [OF assms(1) a assms(4,5)])
  show "\<exists>e. fst (AppendUpdate f now rid u db) = Inl e"
    using assms(2,3) by (auto simp: AppendUpdate_def)
  show "\<exists>e. fst (SaveSnapshot bind f now rid st base db) = Inl e"
    using assms(3) by (simp add: SaveSnapshot_eq [OF assms(1,2)])
  show "\<exists>e. fst (EnsureRoom f now rid h db) = Inl e"
    using assms(2,3) by (auto simp: EnsureRoom_def)
qed

theorem closed_room_final_witness:
  "abs (foldl (sqlite_step id True) closed_db demo_ops) ''r''
     = Some (abs_room closed_db \<lparr>rwID = ''r'', rwKeyHash = ''k'', rwCompact = None, rwUpdateSeq = 2,
         rwCreatedAt = ''t1'', rwUpdatedAt = ''t4'', rwClosedAt = Some ''t4'', rwStorageBytes = 3,
         rwUpdateCount = 2\<rparr>)
   \<and> (\<exists>e. fst (AppendUpdate no_fails ''t5'' ''r'' [1] closed_db) = Inl e)
   \<and> (\<exists>e. fst (SaveSnapshot id no_fails ''t5'' ''r'' (Some [1]) 0 closed_db) = Inl e)
   \<and> (\<exists>e. fst (EnsureRoom no_fails ''t5'' ''r'' ''k'' closed_db) = Inl e)"
  by (rule closed_room_final [OF demo_closed_inv _ _ demo_clocked])
     (simp_all add: store_eval no_purge_def)

text \<open>
  Operations are atomic: one that reports an error has not changed the database, wherever in
  the sequence of driver calls it failed.
\<close>

lemma failed_unchanged:
  "atomic db (EnsureRoom f now rid h db) \<and> atomic db (AppendUpdate f now rid u db)
   \<and> atomic db (SaveSnapshot bind f now rid st base db) \<and> atomic db (CloseRoom f now rid db)
   \<and> atomic db (DeleteInactiveRooms fk f cutoff db)"
  by (simp add: atomic_def EnsureRoom_def AppendUpdate_def SaveSnapshot_def CloseRoom_def
      DeleteInactiveRooms_def Let_def split: option.split)

text \<open>
  \<open>DeleteInactiveRooms\<close> removes exactly the rooms whose last change is older than the cutoff,
  open or closed, with their updates, reports how many, and leaves every other room as it was;
  whether the connection enforces foreign keys makes no difference.
\<close>

lemma purge_exact:
  assumes "store_inv db" and "DeleteInactiveRooms fk f cutoff db = (Inr n, db')"
  shows "abs db' rid = (case abs db rid of None \<Rightarrow> None
      | Some a \<Rightarrow> if text_less (aTouched a) cutoff then None else Some a)
    \<and> (abs db' rid = None \<longrightarrow> room_updates db' rid = [])
    \<and> n = length (dbRooms db) - length (dbRooms db')
    \<and> DeleteInactiveRooms (\<not> fk) f cutoff db = (Inr n, db')"
proof (intro conjI impI)
  have eq: "db' = purged_db cutoff db" "n = length (filter (\<lambda>r. text_less (rwUpdatedAt r) cutoff) (dbRooms db))"
    "\<not> (f 0 \<or> f 1 \<or> f 2 \<or> f 3)"
    using assms(2) by (auto simp: DeleteInactiveRooms_eq split: if_splits)
  have "abs db' = purge_spec cutoff (abs db) \<or> db' = db"
    using purge_refines [OF assms(1), of fk f cutoff] assms(2) by auto
  moreover have "abs db' = purge_spec cutoff (abs db)" if "db' = db"
  proof
    fix x
    show "abs db' x = purge_spec cutoff (abs db) x"
    proof (cases "select_room db x")
      case (Some r)
      then have "\<not> text_less (rwUpdatedAt r) cutoff"
        using purged_select [OF assms(1), of cutoff x] eq(1) that by (auto split: if_splits)
      with Some that show ?thesis by (simp add: purge_spec_def abs_def)
    qed (simp add: that purge_spec_def abs_def)
  qed
  ultimately show "abs db' rid = (case abs db rid of None \<Rightarrow> None
      | Some a \<Rightarrow> if text_less (aTouched a) cutoff then None else Some a)"
    by (metis purge_spec_def)
  show "room_updates db' rid = []" if "abs db' rid = None"
    using that by (simp add: eq(1) purged_updates [OF assms(1)] abs_def split: option.split)
  show "n = length (dbRooms db) - length (dbRooms db')"
    using sum_length_filter_compl [of "\<lambda>r. text_less (rwUpdatedAt r) cutoff" "dbRooms db"]
    by (simp add: eq purged_db_def)
  show "DeleteInactiveRooms (\<not> fk) f cutoff db = (Inr n, db')"
    using eq by (simp add: DeleteInactiveRooms_eq)
qed

lemma purge_exact_example:
  "abs (purged_db ''t4'' demo_db) ''r'' = None \<and> room_updates (purged_db ''t4'' demo_db) ''r'' = []
    \<and> DeleteInactiveRooms False no_fails ''t4'' demo_db = (Inr 1, purged_db ''t4'' demo_db)"
proof -
  have "DeleteInactiveRooms True no_fails ''t4'' demo_db = (Inr 1, purged_db ''t4'' demo_db)"
    by (simp add: DeleteInactiveRooms_eq store_eval)
  moreover have "abs demo_db ''r'' = Some (abs_room demo_db \<lparr>rwID = ''r'', rwKeyHash = ''k'', rwCompact = None,
      rwUpdateSeq = 2, rwCreatedAt = ''t1'', rwUpdatedAt = ''t3'', rwClosedAt = None, rwStorageBytes = 3,
      rwUpdateCount = 2\<rparr>)"
    by (simp add: abs_def store_eval)
  ultimately show ?thesis
    using purge_exact [OF demo_inv, of True no_fails "''t4''" 1 _ "''r''"] by (simp add: abs_room_def)
qed

text \<open>
  \<open>EnsureRoom\<close> decides who may enter: it creates an unknown room with the given key hash,
  accepts an open room only under the hash it was created with, and refuses a closed room and a
  wrong key with their own errors; the hash of an existing room never changes.
\<close>

lemma ensure_room_checks_key:
  assumes "store_inv db" and "now \<noteq> []" and "\<not> f 0" "\<not> f 1" "\<not> f 2" "\<not> f 3"
  shows "fst (EnsureRoom f now rid h db) = (case abs db rid of
      None \<Rightarrow> Inr ()
    | Some a \<Rightarrow> if aClosed a then Inl ErrRoomClosed
        else if aKeyHash a \<noteq> h then Inl ErrRoomKeyMismatch else Inr ())
    \<and> (fst (EnsureRoom f now rid h db) = Inr () \<longrightarrow>
        (\<exists>a. abs (snd (EnsureRoom f now rid h db)) rid = Some a \<and> aKeyHash a = h \<and> \<not> aClosed a))
    \<and> (\<forall>a. abs db rid = Some a \<longrightarrow>
        (\<exists>b. abs (snd (EnsureRoom f now rid h db)) rid = Some b \<and> aKeyHash b = aKeyHash a))"
proof -
  note ref = ensure_outcome [OF assms]
  show ?thesis
    unfolding ref by (simp add: ensure_spec_def split: option.split)
qed

lemma ensure_room_checks_key_example:
  "fst (EnsureRoom no_fails ''t4'' ''r'' ''wrong'' demo_db) = Inl ErrRoomKeyMismatch"
proof -
  have "abs demo_db ''r'' = Some \<lparr>aKeyHash = ''k'', aClosed = False, aSnapshot = None,
      aLog = [(1, [1, 2]), (2, [3])], aSeq = 2, aTouched = ''t3''\<rparr>"
    by (simp add: abs_def abs_room_def log_of_def store_eval)
  with ensure_room_checks_key [OF demo_inv, of "''t4''" no_fails "''r''" "''wrong''"]
  show ?thesis by (simp add: no_fails_def)
qed

lemma counters_touch:
  assumes "\<And>r. rwID (g r) = rwID r" "\<And>r. rwStorageBytes (g r) = rwStorageBytes r"
    "\<And>r. rwUpdateCount (g r) = rwUpdateCount r" "\<And>r. rwCompact (g r) = rwCompact r"
  shows "counters_exact (update_rooms p g db) x = counters_exact db x"
  using assms
  by (simp add: counters_exact_def select_update_rooms updates_update_rooms stored_bytes_def split: option.split)

lemma counters_new_room:
  assumes inv: "store_inv db" and none: "select_room db rid = None" and c: "counters_exact db x"
  shows "counters_exact (db\<lparr>dbRooms := dbRooms db @ [new_room_row now rid h]\<rparr>) x" (is "counters_exact ?db x")
proof -
  have "find P (xs @ [y]) = (case find P xs of None \<Rightarrow> if P y then Some y else None | Some z \<Rightarrow> Some z)"
    for P and xs :: "room_row list" and y by (induction xs) auto
  then have "select_room ?db x = (if x = rid then Some (new_room_row now rid h) else select_room db x)"
    using none by (auto simp: select_room_def split: option.split)
  moreover have "room_updates ?db x = room_updates db x" for x by (simp add: room_updates_def)
  ultimately show ?thesis
    using c store_invD(3) [OF inv none] by (auto simp: counters_exact_def stored_bytes_def split: option.splits)
qed

lemma counters_append:
  assumes inv: "store_inv db" and r: "select_room db rid = Some r" and c: "counters_exact db x"
  shows "counters_exact (update_rooms (\<lambda>r. rwID r = rid)
      (\<lambda>r. r\<lparr>rwUpdateSeq := q, rwStorageBytes := rwStorageBytes r + int (length u),
             rwUpdateCount := rwUpdateCount r + 1, rwUpdatedAt := now\<rparr>)
      (db\<lparr>dbUpdates := dbUpdates db @ [\<lparr>urRoomID = rid, urSeq = q, urBlob = u, urCreatedAt = now\<rparr>]\<rparr>)) x"
proof -
  have "select_room (db\<lparr>dbUpdates := us\<rparr>) x = select_room db x" for us
    by (simp add: select_room_def)
  with c show ?thesis
    using select_SomeD [of db x]
    by (auto simp: counters_exact_def select_update_rooms updates_update_rooms updates_append stored_bytes_def
        split: option.splits)
qed

text \<open>
  The counters \<open>storage_bytes\<close> and \<open>update_count\<close>, from which quotas and compaction are
  decided, stay exact under \<open>EnsureRoom\<close>, \<open>AppendUpdate\<close> and \<open>CloseRoom\<close>, for every room and whether
  the operation succeeds or fails: they equal the bytes and the number of the rows stored.
\<close>

lemma counters_kept:
  assumes inv: "store_inv db" and c: "counters_exact db x"
  shows "counters_exact (snd (EnsureRoom f now rid h db)) x
    \<and> counters_exact (snd (AppendUpdate f now rid u db)) x
    \<and> counters_exact (snd (CloseRoom f now rid db)) x"
proof (intro conjI)
  show "counters_exact (snd (EnsureRoom f now rid h db)) x"
    using c counters_new_room [OF inv _ c, of rid now h]
    by (simp add: EnsureRoom_def counters_touch insert_room_def split: option.split)
  show "counters_exact (snd (AppendUpdate f now rid u db)) x"
  proof (cases "select_room db rid")
    case (Some r)
    with c counters_append [OF inv Some c] inv_insert_update [OF inv Some, of u now] show ?thesis
      by (simp add: AppendUpdate_def Let_def)
  qed (simp add: AppendUpdate_def c)
  show "counters_exact (snd (CloseRoom f now rid db)) x"
    using c by (simp add: CloseRoom_def counters_touch)
qed

lemma counters_kept_example:
  "counters_exact (snd (EnsureRoom no_fails ''t9'' ''r'' ''k'' demo_db)) ''r''
    \<and> counters_exact (snd (AppendUpdate no_fails ''t9'' ''r'' [4] demo_db)) ''r''
    \<and> counters_exact (snd (CloseRoom no_fails ''t9'' ''r'' demo_db)) ''r''"
  by (rule counters_kept [OF demo_inv]) (simp add: counters_exact_def stored_bytes_def blob_bytes_def store_eval)

text \<open>
  C26: A snapshot sets the counters to the size of the snapshot and to zero updates.  That is
  exact when it covers every stored update; when updates after its \<open>baseSeq\<close> remain, both
  counters are too low by the size and the number of those updates.
\<close>

theorem counters_after_snapshot:
  assumes "store_inv db" and "select_room db rid = Some r"
    and "SaveSnapshot bind f now rid st base db = (Inr (), db')"
  shows "RoomStorageBytes no_fails rid db' = Inr (stored_bytes db' (the (select_room db' rid))
        - blob_bytes (filter (\<lambda>u. \<not> covered rid base u) (room_updates db rid)))
    \<and> UpdateCount no_fails rid db' = Inr 0
    \<and> length (room_updates db' rid) = length (filter (\<lambda>u. \<not> covered rid base u) (room_updates db rid))
    \<and> (counters_exact db' rid \<longleftrightarrow> filter (\<lambda>u. \<not> covered rid base u) (room_updates db rid) = [])"
proof -
  obtain b where b: "db' = saved_db now rid b base db" "\<not> is_closed r"
    using assms(3) by (auto simp: SaveSnapshot_eq [OF assms(1,2)] split: if_splits option.splits)
  let ?row = "r\<lparr>rwCompact := Some b, rwStorageBytes := int (length b), rwUpdateCount := 0, rwUpdatedAt := now\<rparr>"
  have sel: "select_room db' rid = Some ?row"
    unfolding b(1) using saved_select [OF assms(1,2) b(2)] by simp
  have ups: "room_updates db' rid = filter (\<lambda>u. \<not> covered rid base u) (room_updates db rid)"
    unfolding b(1) saved_db_def updates_delete_updates updates_update_rooms by (rule refl)
  have id: "rwID r = rid" using select_SomeD [OF assms(2)] by simp
  show ?thesis
    by (auto simp: RoomStorageBytes_def UpdateCount_def no_fails_def sel stored_bytes_def ups id counters_exact_def)
qed

theorem counters_after_snapshot_witness:
  "RoomStorageBytes no_fails ''r'' (snd (SaveSnapshot id no_fails ''t4'' ''r'' (Some [5]) 1 demo_db)) = Inr (2 - 1)
   \<and> \<not> counters_exact (snd (SaveSnapshot id no_fails ''t4'' ''r'' (Some [5]) 1 demo_db)) ''r''"
proof -
  have "SaveSnapshot id no_fails ''t4'' ''r'' (Some [5]) 1 demo_db
      = (Inr (), snd (SaveSnapshot id no_fails ''t4'' ''r'' (Some [5]) 1 demo_db))"
    by (simp add: store_eval)
  from counters_after_snapshot [OF demo_inv _ this] show ?thesis
    by (simp add: store_eval covered_def stored_bytes_def blob_bytes_def)
qed

text \<open>
  \<open>LoadRoomState\<close> reads the snapshot and the updates in two queries without a transaction.  A
  compaction between them makes a joining client miss an update that was stored all the time:
  neither the snapshot it gets nor the list of updates contains it.
\<close>

lemma load_skew_loses_update:
  "\<exists>db db' s. store_inv db
     \<and> SaveSnapshot id no_fails ''t4'' ''r'' (Some [1, 2]) 1 db = (Inr (), db')
     \<and> LoadRoomState no_fails db db' ''r'' = Inr s
     \<and> document (case_option [] id) (@) s = [3]
     \<and> (\<exists>t. LoadRoomState no_fails db db ''r'' = Inr t
          \<and> document (case_option [] id) (@) t = [1, 2, 3])
     \<and> (\<exists>t. LoadRoomState no_fails db' db' ''r'' = Inr t
          \<and> document (case_option [] id) (@) t = [1, 2, 3])"
  by (rule exI [of _ demo_db], rule exI [of _ "snd (SaveSnapshot id no_fails ''t4'' ''r'' (Some [1, 2]) 1 demo_db)"],
      rule exI [of _ "\<lparr>CompactState = None, Updates = [(2, [3])]\<rparr>"])
    (simp add: demo_inv, simp add: store_eval document_def)

end
