(* ===== verification/Codec.thy ===== *)
theory Codec
  imports Protocol
begin

text \<open>
  The contract of an encoder and its decoder, and its instances: base64 on byte slices, and the
  JSON of cursors, users, presence and chat payloads, which the server decodes, changes and
  encodes again before it relays them.
\<close>

section \<open>The interface\<close>

locale codec =
  fixes enc :: "'a \<Rightarrow> 'b" and decode :: "'b \<Rightarrow> 'a option" and valid :: "'a \<Rightarrow> bool"
  assumes decode_enc: "valid x \<Longrightarrow> decode (enc x) = Some x"
begin

lemma enc_inj: "valid x \<Longrightarrow> valid y \<Longrightarrow> enc x = enc y \<Longrightarrow> x = y"
  by (metis decode_enc option.inject)

lemma decode_enc_list: "list_all valid xs \<Longrightarrow> map decode (map enc xs) = map Some xs"
  by (induction xs) (simp_all add: decode_enc)

lemma enc_list_inj:
  "list_all valid xs \<Longrightarrow> list_all valid ys \<Longrightarrow> map enc xs = map enc ys \<Longrightarrow> xs = ys"
  by (metis decode_enc_list list.inj_map_strong option.inject)

end

text \<open>A JSON codec decodes into the zero value of the Go type.\<close>

locale json_codec = codec enc "\<lambda>v. d v zero" valid
  for enc :: "'a \<Rightarrow> json" and d :: "'a dec" and zero :: 'a and valid :: "'a \<Rightarrow> bool"
begin

lemma decode_payload: "valid x \<Longrightarrow> DecodePayload d zero (Some (enc x)) = Inr x"
  by (simp add: DecodePayload_def decode_enc)

end

section \<open>Base64\<close>

interpretation base64: codec b64_encode b64_decode "\<lambda>_. True"
  by unfold_locales (rule b64_decode_encode)

lemma DecodeBytes_EncodeBytes [wire_simps]:
  "DecodeBytes (EncodeBytes data) = Inr (if data = [] then None else Some data)"
  by (simp add: DecodeBytes_def EncodeBytes_def wire_simps)

section \<open>Users, presence and chat\<close>

definition valid_cursor :: "cursor \<Rightarrow> bool" where
  "valid_cursor c \<longleftrightarrow> valid_utf8 (cursorPageID c)"

definition valid_user :: "user \<Rightarrow> bool" where
  "valid_user u \<longleftrightarrow> valid_utf8 (userID u) \<and> valid_utf8 (userName u) \<and> valid_utf8 (userColor u)
     \<and> valid_utf8 (userPageID u) \<and> valid_utf8 (userSelectedElementID u)
     \<and> valid_utf8 (userEditingElementID u) \<and> pred_option valid_cursor (userCursor u)
     \<and> valid_utf8 (userTransport u) \<and> valid_utf8 (userLastSeen u) \<and> valid_utf8 (userRole u)"

definition valid_presence :: "presence \<Rightarrow> bool" where
  "valid_presence p \<longleftrightarrow> valid_user (prUser p)"

definition valid_chat :: "chat \<Rightarrow> bool" where
  "valid_chat p \<longleftrightarrow> valid_utf8 (chMessageID p) \<and> valid_utf8 (chText p) \<and> valid_user (chUser p)"

lemma dec_members_Cons [wire_simps]:
  "find_field fs k = Some d \<Longrightarrow> d v r = Some r' \<Longrightarrow> dec_members fs ((k, v) # kvs) r = dec_members fs kvs r'"
  by simp

lemma dec_enc_string [wire_simps]: "valid_utf8 s \<Longrightarrow> dec_string (enc_string s) old = Some s"
  by (simp add: enc_string_def coerce_utf8_valid)

text \<open>A member that may be omitted, in front of other members, when the field is empty so far.\<close>

lemma dec_members_omit_string:
  assumes "find_field fs k = Some (field sel upd dec_string)" and "valid_utf8 s"
    and "s = [] \<Longrightarrow> upd (\<lambda>_. s) r = r"
  shows "dec_members fs (omit_string k s @ kvs) r = dec_members fs kvs (upd (\<lambda>_. s) r)"
  using assms by (cases "s = []") (simp_all add: omit_string_def field_def dec_enc_string)

lemma user_field_lookup [wire_simps]:
  "find_field user_fields ''id'' = Some (field userID userID_update dec_string)"
  "find_field user_fields ''name'' = Some (field userName userName_update dec_string)"
  "find_field user_fields ''color'' = Some (field userColor userColor_update dec_string)"
  "find_field user_fields ''pageId'' = Some (field userPageID userPageID_update dec_string)"
  "find_field user_fields ''selectedElementId'' =
     Some (field userSelectedElementID userSelectedElementID_update dec_string)"
  "find_field user_fields ''editingElementId'' =
     Some (field userEditingElementID userEditingElementID_update dec_string)"
  "find_field user_fields ''cursor'' =
     Some (field userCursor userCursor_update (dec_ptr (dec_struct cursor_fields) zero_cursor))"
  "find_field user_fields ''transport'' = Some (field userTransport userTransport_update dec_string)"
  "find_field user_fields ''lastSeen'' = Some (field userLastSeen userLastSeen_update dec_string)"
  "find_field user_fields ''role'' = Some (field userRole userRole_update dec_string)"
  by (simp_all add: user_fields_def find_field_def)

lemma dec_enc_cursor:
  "valid_cursor c \<Longrightarrow> dec_struct cursor_fields (enc_cursor c) zero_cursor = Some c"
  by (simp add: enc_cursor_def cursor_fields_def find_field_def field_def dec_enc_string
      zero_cursor_def valid_cursor_def)

lemma dec_enc_cursor_ptr:
  assumes "pred_option valid_cursor c"
  shows "dec_ptr (dec_struct cursor_fields) zero_cursor
           (case c of None \<Rightarrow> JNull | Some x \<Rightarrow> enc_cursor x) None = Some c"
proof (cases c)
  case (Some x)
  then have "dec_struct cursor_fields (enc_cursor x) zero_cursor = Some x"
    using assms dec_enc_cursor by simp
  then show ?thesis using Some by (simp add: enc_cursor_def)
qed simp

lemma dec_enc_user: "valid_user u \<Longrightarrow> dec_user (enc_user u) zero_user = Some u"
  unfolding enc_user_def dec_user_def valid_user_def zero_user_def
  by (simp add: user_field_lookup dec_members_omit_string field_def dec_enc_string
      dec_enc_cursor_ptr
      dec_members_omit_string [where kvs = "[]", simplified])

lemma dec_enc_presence: "valid_presence p \<Longrightarrow> dec_presence (enc_presence p) zero_presence = Some p"
  by (cases "prRelay p")
     (simp_all add: enc_presence_def dec_presence_def presence_fields_def find_field_def field_def
       dec_enc_user zero_presence_def valid_presence_def omit_bool_def)

lemma dec_enc_chat: "valid_chat p \<Longrightarrow> dec_chat (enc_chat p) zero_chat = Some p"
  by (cases "chRelay p")
     (simp_all add: enc_chat_def dec_chat_def chat_fields_def find_field_def field_def
       dec_enc_user dec_enc_string zero_chat_def valid_chat_def omit_bool_def)

interpretation user_json: json_codec enc_user dec_user zero_user valid_user
  by unfold_locales (rule dec_enc_user)

interpretation presence_json: json_codec enc_presence dec_presence zero_presence valid_presence
  by unfold_locales (rule dec_enc_presence)

interpretation chat_json: json_codec enc_chat dec_chat zero_chat valid_chat
  by unfold_locales (rule dec_enc_chat)

end
