(* ===== verification/NetAddr.thy ===== *)
theory NetAddr
  imports GoText
begin

text \<open>
  What the server uses of Go's \<open>net\<close> package: addresses as byte slices of any length (\<open>net.IP\<close>),
  their text, parsing of addresses, networks and listen addresses.  Errors carry no information
  the server looks at and are None.  On top of it, \<open>addrIsLoopback\<close> of \<open>config.go\<close> and
  \<open>isTrustedProxy\<close> and \<open>clientIP\<close> of \<open>internal/server/hub.go\<close>.
\<close>

unbundle bit_operations_syntax

section \<open>net.IP\<close>

definition v4_prefix :: bytes where
  "v4_prefix = replicate 10 0 @ [0xFF, 0xFF]"

definition To4 :: "bytes \<Rightarrow> bytes option" where
  "To4 ip =
     (if length ip = 4 then Some ip
      else if length ip = 16 \<and> take 12 ip = v4_prefix then Some (drop 12 ip)
      else None)"

definition To16 :: "bytes \<Rightarrow> bytes option" where
  "To16 ip =
     (if length ip = 4 then Some (v4_prefix @ ip)
      else if length ip = 16 then Some ip
      else None)"

definition IsLoopback :: "bytes \<Rightarrow> bool" where
  "IsLoopback ip =
     (case To4 ip of
        Some ip4 \<Rightarrow> hd ip4 = 127
      | None \<Rightarrow> ip = replicate 15 0 @ [1])"

lemma To4_length: "To4 ip = Some x \<Longrightarrow> length x = 4"
  by (auto simp: To4_def split: if_splits)

lemma To16_length: "To16 ip = Some x \<Longrightarrow> length x = 16"
  by (auto simp: To16_def v4_prefix_def split: if_splits)

lemma To16_None: "To16 ip = None \<longleftrightarrow> length ip \<noteq> 4 \<and> length ip \<noteq> 16"
  by (simp add: To16_def)

lemma To4_To16: "To16 ip = Some x \<Longrightarrow> To4 x = To4 ip"
  by (auto simp: To16_def To4_def v4_prefix_def split: if_splits)

section \<open>Text of an address\<close>

definition show_byte :: "byte \<Rightarrow> string" where
  "show_byte b = show_nat (unat b)"

fun join_with :: "string \<Rightarrow> string list \<Rightarrow> string" where
  "join_with sep [] = []"
| "join_with sep [x] = x"
| "join_with sep (x # y # xs) = x @ sep @ join_with sep (y # xs)"

definition show_v4 :: "bytes \<Rightarrow> string" where
  "show_v4 ip = join_with ''.'' (map show_byte ip)"

fun show_hex :: "nat \<Rightarrow> string" where
  "show_hex n = (if n < 16 then [hex_digits ! n] else show_hex (n div 16) @ [hex_digits ! (n mod 16)])"

declare show_hex.simps [simp del]

fun groups16 :: "bytes \<Rightarrow> nat list" where
  "groups16 (a # b # r) = (unat a * 256 + unat b) # groups16 r"
| "groups16 _ = []"

text \<open>The first longest run of at least two zero groups: its start and its end.\<close>

fun zero_run :: "nat \<Rightarrow> nat list \<Rightarrow> nat \<times> nat \<Rightarrow> nat \<times> nat" where
  "zero_run i [] best = best"
| "zero_run i (g # gs) best =
     (let l = length (takeWhile (\<lambda>x. x = 0) (g # gs))
      in zero_run (Suc i) gs (if 2 \<le> l \<and> snd best - fst best < l then (i, i + l) else best))"

definition show_v6 :: "bytes \<Rightarrow> string" where
  "show_v6 ip =
     (let gs = groups16 ip; (s, e) = zero_run 0 gs (0, 0); hex = (\<lambda>l. join_with '':'' (map show_hex l))
      in if s = e then hex gs else hex (take s gs) @ ''::'' @ hex (drop e gs))"

definition IP_String :: "bytes \<Rightarrow> string" where
  "IP_String ip =
     (if ip = [] then ''<nil>''
      else if length ip \<noteq> 4 \<and> length ip \<noteq> 16 then ''?'' @ hex_encode ip
      else case To4 ip of Some ip4 \<Rightarrow> show_v4 ip4 | None \<Rightarrow> show_v6 ip)"

section \<open>Parsing\<close>

definition digit_val :: "char \<Rightarrow> nat option" where
  "digit_val c = (let n = of_char c :: nat in if 48 \<le> n \<and> n \<le> 57 then Some (n - 48) else None)"

definition hex_val :: "char \<Rightarrow> nat option" where
  "hex_val c =
     (let n = of_char c :: nat
      in if 48 \<le> n \<and> n \<le> 57 then Some (n - 48)
         else if 97 \<le> n \<and> n \<le> 102 then Some (n - 87)
         else if 65 \<le> n \<and> n \<le> 70 then Some (n - 55) else None)"

text \<open>A number in base \<open>b\<close>, all of whose characters are digits.\<close>

fun read_digits :: "(char \<Rightarrow> nat option) \<Rightarrow> nat \<Rightarrow> nat \<Rightarrow> string \<Rightarrow> nat option" where
  "read_digits dv b acc [] = Some acc"
| "read_digits dv b acc (c # s) =
     (case dv c of None \<Rightarrow> None | Some d \<Rightarrow> read_digits dv b (acc * b + d) s)"

text \<open>One field of a dotted address: digits without a leading zero, at most 255.\<close>

definition read_octet :: "string \<Rightarrow> byte option" where
  "read_octet s =
     (if s = [] \<or> (hd s = CHR ''0'' \<and> tl s \<noteq> []) then None
      else case read_digits digit_val 10 0 s of
        None \<Rightarrow> None
      | Some n \<Rightarrow> if n \<le> 255 then Some (of_nat n) else None)"

fun sequence :: "'a option list \<Rightarrow> 'a list option" where
  "sequence [] = Some []"
| "sequence (x # xs) = (case (x, sequence xs) of (Some y, Some ys) \<Rightarrow> Some (y # ys) | _ \<Rightarrow> None)"

definition parse_v4 :: "string \<Rightarrow> bytes option" where
  "parse_v4 s =
     (let parts = split_char (CHR ''.'') s
      in if length parts = 4 then sequence (map read_octet parts) else None)"

text \<open>
  The loop of \<open>netip.parseIPv6\<close>: the bytes read so far, where the ellipsis was, the text left.
  A result is the bytes and the ellipsis; the text must have been used up.
\<close>

function v6_fields :: "bytes \<Rightarrow> nat option \<Rightarrow> string \<Rightarrow> (bytes \<times> nat option) option" where
  "v6_fields ip ell s =
     (if 16 \<le> length ip then (if s = [] then Some (ip, ell) else None)
      else
        (let ds = takeWhile (\<lambda>c. hex_val c \<noteq> None) s; rest = drop (length ds) s
         in if ds = [] \<or> 4 < length ds then None
            else if rest \<noteq> [] \<and> hd rest = CHR ''.'' then
              (if (ell = None \<and> length ip \<noteq> 12) \<or> 16 < length ip + 4 then None
               else case parse_v4 s of None \<Rightarrow> None | Some q \<Rightarrow> Some (ip @ q, ell))
            else
              (let acc = (case read_digits hex_val 16 0 ds of None \<Rightarrow> 0 | Some n \<Rightarrow> n);
                   ip' = ip @ [of_nat (acc div 256), of_nat (acc mod 256)]
               in case rest of
                    [] \<Rightarrow> Some (ip', ell)
                  | c # more \<Rightarrow>
                      if c \<noteq> CHR '':'' \<or> more = [] then None
                      else if hd more = CHR '':'' then
                        (if ell \<noteq> None then None
                         else if tl more = [] then Some (ip', Some (length ip'))
                         else v6_fields ip' (Some (length ip')) (tl more))
                      else v6_fields ip' ell more)))"
  by pat_completeness auto
termination
  by (relation "measure (\<lambda>(ip, ell, s). length s)")
    (auto dest!: arg_cong [where f = length] simp: less_Suc_eq_le length_tl le_diff_conv)

declare v6_fields.simps [simp del]

definition parse_v6 :: "string \<Rightarrow> bytes option" where
  "parse_v6 s =
     (let (ell, s') = (if take 2 s = ''::'' then (Some 0, drop 2 s) else (None, s))
      in if ell \<noteq> None \<and> s' = [] then Some (replicate 16 0)
         else case v6_fields [] ell s' of
           None \<Rightarrow> None
         | Some (ip, None) \<Rightarrow> if length ip = 16 then Some ip else None
         | Some (ip, Some e) \<Rightarrow>
             if length ip < 16 then Some (take e ip @ replicate (16 - length ip) 0 @ drop e ip) else None)"

text \<open>
  \<open>netip.ParseAddr\<close>: the first of \<open>.\<close>, \<open>:\<close> and \<open>%\<close> decides; the callers refuse an address with
  a zone.  The result has 4 or 16 bytes; \<open>net.ParseIP\<close> returns the 16-byte form of it.
\<close>

definition ParseAddr :: "string \<Rightarrow> bytes option" where
  "ParseAddr s =
     (case find (\<lambda>c. c \<in> set ''.:%'') s of
        None \<Rightarrow> None
      | Some c \<Rightarrow>
          if c = CHR ''.'' then parse_v4 s
          else if c = CHR '':'' then (if CHR ''%'' \<in> set s then None else parse_v6 s)
          else None)"

definition ParseIP :: "string \<Rightarrow> bytes option" where
  "ParseIP s = Option.bind (ParseAddr s) To16"

section \<open>Networks\<close>

record ipnet =
  netIP :: bytes
  netMask :: bytes

definition mask_byte :: "nat \<Rightarrow> nat \<Rightarrow> byte" where
  "mask_byte n i = (if 8 * i + 8 \<le> n then 0xFF else if n \<le> 8 * i then 0 else push_bit (8 * i + 8 - n) 0xFF)"

definition CIDRMask :: "nat \<Rightarrow> nat \<Rightarrow> bytes" where
  "CIDRMask n len = map (mask_byte n) [0..<len]"

definition ParseCIDR :: "string \<Rightarrow> ipnet option" where
  "ParseCIDR s =
     (let addr = takeWhile (\<lambda>c. c \<noteq> CHR ''/'') s; rest = drop (length addr) s
      in if rest = [] then None
         else case ParseAddr addr of
           None \<Rightarrow> None
         | Some ip \<Rightarrow>
             (case (if tl rest = [] then None else read_digits digit_val 10 0 (tl rest)) of
                None \<Rightarrow> None
              | Some n \<Rightarrow>
                  if n > 8 * length ip then None
                  else (let m = CIDRMask n (length ip) in Some \<lparr>netIP = map2 (AND) ip m, netMask = m\<rparr>)))"

definition Contains :: "ipnet \<Rightarrow> bytes \<Rightarrow> bool" where
  "Contains net ip =
     (let (nn, m) = (case To4 (netIP net) of
            Some v4 \<Rightarrow> (v4, if length (netMask net) = 16 then drop 12 (netMask net) else netMask net)
          | None \<Rightarrow> (netIP net, netMask net));
          x = (case To4 ip of Some v4 \<Rightarrow> v4 | None \<Rightarrow> ip)
      in length x = length nn \<and> map2 (AND) nn m = map2 (AND) x m)"

section \<open>Listen addresses\<close>

definition last_index :: "char \<Rightarrow> string \<Rightarrow> nat option" where
  "last_index c s =
     (if c \<in> set s then Some (length s - 1 - length (takeWhile (\<lambda>x. x \<noteq> c) (rev s))) else None)"

definition SplitHostPort :: "string \<Rightarrow> (string \<times> string) option" where
  "SplitHostPort s =
     (case last_index (CHR '':'') s of
        None \<Rightarrow> None
      | Some i \<Rightarrow>
          (case (if hd s = CHR ''['' then
                   (let e = length (takeWhile (\<lambda>c. c \<noteq> CHR '']'') s)
                    in if e = length s \<or> e + 1 \<noteq> i then None else Some (take (e - 1) (drop 1 s), 1, e + 1))
                 else (let host = take i s in if CHR '':'' \<in> set host then None else Some (host, 0, 0))) of
             None \<Rightarrow> None
           | Some (host, j, k) \<Rightarrow>
               if CHR ''['' \<in> set (drop j s) \<or> CHR '']'' \<in> set (drop k s) then None
               else Some (host, drop (Suc i) s)))"

text \<open>\<open>addrIsLoopback\<close> (\<open>config.go\<close>).\<close>

definition addrIsLoopback :: "string \<Rightarrow> bool" where
  "addrIsLoopback addr =
     (let host = trim_space (case SplitHostPort addr of None \<Rightarrow> addr | Some (h, _) \<Rightarrow> h)
      in if host = [] \<or> equal_fold host ''localhost'' then True
         else case ParseIP host of None \<Rightarrow> False | Some ip \<Rightarrow> IsLoopback ip)"

section \<open>The client's address\<close>

text \<open>\<open>isTrustedProxy\<close> and \<open>clientIP\<close> (\<open>internal/server/hub.go\<close>).\<close>

definition isTrustedProxy :: "string list \<Rightarrow> bytes \<Rightarrow> bool" where
  "isTrustedProxy trusted ip =
     list_ex (\<lambda>cidr. case ParseCIDR (trim_space cidr) of None \<Rightarrow> False | Some net \<Rightarrow> Contains net ip) trusted"

text \<open>The scan of the forwarded addresses, from the right.\<close>

fun scan_forwarded :: "string list \<Rightarrow> string list \<Rightarrow> string option" where
  "scan_forwarded trusted [] = None"
| "scan_forwarded trusted (part # parts) =
     (let ipStr = trim_space part
      in if ipStr = [] then scan_forwarded trusted parts
         else case ParseIP ipStr of
           None \<Rightarrow> scan_forwarded trusted parts
         | Some ip \<Rightarrow> if isTrustedProxy trusted ip then scan_forwarded trusted parts else Some ipStr)"

definition clientIP :: "string list \<Rightarrow> string \<Rightarrow> string \<Rightarrow> string" where
  "clientIP trusted remote forwarded =
     (let remoteIP = (case ParseIP (trim_space remote) of Some ip \<Rightarrow> ip | None \<Rightarrow> v4_prefix @ [0, 0, 0, 0]);
          own = (let ip = IP_String remoteIP in if ip = [] then ''unknown'' else ip);
          xff = trim_space forwarded
      in if isTrustedProxy trusted remoteIP \<and> xff \<noteq> [] then
           (case scan_forwarded trusted (rev (split_char (CHR '','') xff)) of
              Some ipStr \<Rightarrow> ipStr
            | None \<Rightarrow> own)
         else own)"

section \<open>Decimal text\<close>

lemma digit_val_digit [wire_simps]: "d < 10 \<Longrightarrow> digit_val (char_of (48 + d)) = Some d"
  by (simp add: digit_val_def)

lemma read_digits_append [wire_simps]:
  "read_digits dv b acc (xs @ ys) = Option.bind (read_digits dv b acc xs) (\<lambda>a. read_digits dv b a ys)"
  by (induction xs arbitrary: acc) (simp_all split: option.split)

lemma read_show_nat: "read_digits digit_val 10 0 (show_nat n) = Some n"
proof (induction n rule: show_nat.induct)
  case (1 n)
  show ?case
  proof (cases "n < 10")
    case True
    then show ?thesis by (simp add: show_nat.simps [of n] digit_val_digit)
  next
    case False
    then show ?thesis
      using 1 by (simp add: show_nat.simps [of n] read_digits_append digit_val_digit)
  qed
qed

lemma show_nat_nonempty [simp]: "show_nat n \<noteq> []"
  by (simp add: show_nat.simps [of n])

lemma show_nat_chars: "c \<in> set (show_nat n) \<Longrightarrow> digit_val c \<noteq> None"
proof (induction n rule: show_nat.induct)
  case (1 n)
  then show ?case
    by (cases "n < 10") (auto simp: show_nat.simps [of n] digit_val_digit)
qed

lemma hd_show_nat: "hd (show_nat n) = CHR ''0'' \<Longrightarrow> n = 0"
proof (induction n rule: show_nat.induct)
  case (1 n)
  show ?case
  proof (cases "n < 10")
    case True
    have "digit_val (CHR ''0'') = Some 0" by (simp add: digit_val_def)
    moreover have "char_of (48 + n) = CHR ''0''" using True 1(2) by (simp add: show_nat.simps [of n])
    ultimately show ?thesis using digit_val_digit [OF True] by simp
  next
    case False
    with 1 show ?thesis by (simp add: show_nat.simps [of n] hd_append)
  qed
qed

lemma sequence_map: "(\<And>x. x \<in> set xs \<Longrightarrow> f (g x) = Some x) \<Longrightarrow> sequence (map (f \<circ> g) xs) = Some xs"
  by (induction xs) simp_all

lemma read_show_byte: "read_octet (show_byte b) = Some b"
proof -
  have "unat b < 256" using unsigned_less [of b, where ?'a = nat] by simp
  moreover have "tl (show_nat 0) = []" by (simp add: show_nat.simps)
  ultimately show ?thesis
    by (auto simp: read_octet_def show_byte_def read_show_nat dest!: hd_show_nat)
qed

lemma split_join:
  "xs \<noteq> [] \<Longrightarrow> (\<And>x. x \<in> set xs \<Longrightarrow> sep \<notin> set x) \<Longrightarrow> split_char sep (join_with [sep] xs) = xs"
proof (induction "[sep]" xs rule: join_with.induct)
  have one: "sep \<notin> set x \<Longrightarrow> split_char sep (x @ sep # s) = x # split_char sep s" for x s
    by (induction x) (auto split: list.split simp: split_char_nonempty)
  have last: "sep \<notin> set x \<Longrightarrow> split_char sep x = [x]" for x
    by (induction x) auto
  {
    case (2 x)
    then show ?case by (simp add: last)
  next
    case (3 x y xs)
    then show ?case by (simp add: one)
  }
qed simp

end
