(* ===== verification/Limits.thy ===== *)
theory Limits
  imports Prelude
begin

text \<open>
  The per-address rate limiters of the HTTP endpoints (\<open>checkIPRateLimit\<close> and
  \<open>cleanupIPLimiters\<close> of \<open>internal/server/hub.go\<close>) and of the STUN responder (\<open>allow\<close> and
  \<open>cleanupLoop\<close> of \<open>internal/server/stun.go\<close>).

  The token bucket is \<open>golang.org/x/time/rate\<close>, which is not part of the repository: a limiter
  has an unknown type \<open>'l\<close>, \<open>allow\<close> is its \<open>Allow\<close> at a time and \<open>new\<close> what \<open>NewLimiter\<close>
  returns for the limits the code passes.  A table is a map from addresses to limiters with the
  time of their last use.  The contract both tables keep is the locale \<open>limiter_table\<close>: a check
  asks the address's own limiter, or a new one, and a sweep forgets the addresses not used for
  longer than a time to live.
\<close>

section \<open>The tables\<close>

record 'l ip_limiter =
  limiter :: 'l
  lastUse :: time

type_synonym 'l table = "string \<rightharpoonup> 'l ip_limiter"

definition checkIPRateLimit ::
  "(int \<Rightarrow> 'l) \<Rightarrow> (time \<Rightarrow> 'l \<Rightarrow> bool \<times> 'l) \<Rightarrow> int \<Rightarrow> time \<Rightarrow> string \<Rightarrow> 'l table \<Rightarrow> bool \<times> 'l table" where
  "checkIPRateLimit new allow maxPerMinute now ip limiters =
     (let lim = (case limiters ip of
            None \<Rightarrow> \<lparr>limiter = new maxPerMinute, lastUse = 0\<rparr>
          | Some lim \<Rightarrow> lim);
          lim = lim\<lparr>lastUse := now\<rparr>;
          (ok, l) = allow now (limiter lim)
      in (ok, limiters(ip \<mapsto> lim\<lparr>limiter := l\<rparr>)))"

definition ipLimiterTTL :: int where "ipLimiterTTL = 3600 * 1000000000"

text \<open>One of the two loops of \<open>cleanupIPLimiters\<close>, and both.\<close>

definition cleanup_table :: "time \<Rightarrow> 'l table \<Rightarrow> 'l table" where
  "cleanup_table now limiters =
     (let cutoff = now - ipLimiterTTL
      in (\<lambda>ip. case limiters ip of
            None \<Rightarrow> None
          | Some lim \<Rightarrow> if lastUse lim < cutoff then None else Some lim))"

definition cleanupIPLimiters :: "time \<Rightarrow> 'l table \<times> 'l table \<Rightarrow> 'l table \<times> 'l table" where
  "cleanupIPLimiters now tables = (cleanup_table now (fst tables), cleanup_table now (snd tables))"

definition stunLimiterTTL :: int where "stunLimiterTTL = 5 * 60 * 1000000000"

definition stun_allow ::
  "'l \<Rightarrow> (time \<Rightarrow> 'l \<Rightarrow> bool \<times> 'l) \<Rightarrow> time \<Rightarrow> string \<Rightarrow> 'l table \<Rightarrow> bool \<times> 'l table" where
  "stun_allow new allow now ip limiters =
     (let lim = (case limiters ip of
            None \<Rightarrow> \<lparr>limiter = new, lastUse = 0\<rparr>
          | Some lim \<Rightarrow> lim);
          lim = lim\<lparr>lastUse := now\<rparr>;
          (ok, l) = allow now (limiter lim)
      in (ok, limiters(ip \<mapsto> lim\<lparr>limiter := l\<rparr>)))"

definition stun_cleanup :: "time \<Rightarrow> 'l table \<Rightarrow> 'l table" where
  "stun_cleanup now limiters =
     (\<lambda>ip. case limiters ip of
        None \<Rightarrow> None
      | Some lim \<Rightarrow> if now - lastUse lim > stunLimiterTTL then None else Some lim)"

section \<open>Their contract\<close>

text \<open>
  \<open>entry\<close> is the limiter of an address with its last use.  A request is a time and an address; a
  sweep is a time alone.
\<close>

datatype request = Check time string | Sweep time

fun at :: "request \<Rightarrow> time" where
  "at (Check t ip) = t"
| "at (Sweep t) = t"

text \<open>
  The answers of a table to a sequence of requests, and the reference: one limiter per address,
  never forgotten.
\<close>

fun answers :: "(time \<Rightarrow> string \<Rightarrow> 't \<Rightarrow> bool \<times> 't) \<Rightarrow> (time \<Rightarrow> 't \<Rightarrow> 't) \<Rightarrow> request list \<Rightarrow> 't \<Rightarrow> bool list" where
  "answers check sweep [] t = []"
| "answers check sweep (Check now ip # rs) t =
     (let (ok, t') = check now ip t in ok # answers check sweep rs t')"
| "answers check sweep (Sweep now # rs) t = answers check sweep rs (sweep now t)"

fun reference :: "(time \<Rightarrow> 'l \<Rightarrow> bool \<times> 'l) \<Rightarrow> request list \<Rightarrow> (string \<Rightarrow> 'l) \<Rightarrow> bool list" where
  "reference allow [] f = []"
| "reference allow (Check now ip # rs) f =
     (let (ok, l) = allow now (f ip) in ok # reference allow rs (f(ip := l)))"
| "reference allow (Sweep now # rs) f = reference allow rs f"

text \<open>
  The limiters that come from a new one by calls at times that do not decrease, the last no later
  than \<open>t\<close>; and what \<open>x/time/rate\<close> documents of them: an idle bucket fills up, so after a time
  long enough to fill it, it answers and continues as a new one.
\<close>

inductive used :: "'l \<Rightarrow> (time \<Rightarrow> 'l \<Rightarrow> bool \<times> 'l) \<Rightarrow> time \<Rightarrow> 'l \<Rightarrow> bool" for fresh allow where
  new: "used fresh allow t fresh"
| use: "used fresh allow t l \<Longrightarrow> t \<le> u \<Longrightarrow> used fresh allow u (snd (allow u l))"

definition refills :: "'l \<Rightarrow> (time \<Rightarrow> 'l \<Rightarrow> bool \<times> 'l) \<Rightarrow> int \<Rightarrow> bool" where
  "refills fresh allow ttl \<longleftrightarrow>
     (\<forall>u l now. used fresh allow u l \<longrightarrow> u + ttl < now \<longrightarrow> allow now l = allow now fresh)"

locale limiter_table =
  fixes check :: "time \<Rightarrow> string \<Rightarrow> 't \<Rightarrow> bool \<times> 't"
    and sweep :: "time \<Rightarrow> 't \<Rightarrow> 't"
    and entry :: "'t \<Rightarrow> string \<Rightarrow> ('l \<times> time) option"
    and fresh :: 'l
    and allow :: "time \<Rightarrow> 'l \<Rightarrow> bool \<times> 'l"
    and ttl :: int
  assumes check_result:
      "fst (check now ip t) = fst (allow now (case entry t ip of None \<Rightarrow> fresh | Some (l, u) \<Rightarrow> l))"
    and check_entry:
      "entry (snd (check now ip t)) ip' =
        (if ip' = ip then Some (snd (allow now (case entry t ip of None \<Rightarrow> fresh | Some (l, u) \<Rightarrow> l)), now)
         else entry t ip')"
    and sweep_entry:
      "entry (sweep now t) ip =
        (case entry t ip of None \<Rightarrow> None | Some (l, u) \<Rightarrow> if u < now - ttl then None else Some (l, u))"
begin

text \<open>The answers to one address do not depend on the requests of others.\<close>

lemma check_isolated: "ip \<noteq> ip' \<Longrightarrow> fst (check now ip (snd (check u ip' t))) = fst (check now ip t)"
  by (simp add: check_result check_entry)

text \<open>
  A limiter left alone for longer than the time to live answers as a new one (\<open>refills\<close>): then
  forgetting it cannot be observed.  \<open>agree now t f\<close> relates a table with the reference.
\<close>

definition agree :: "time \<Rightarrow> 't \<Rightarrow> (string \<Rightarrow> 'l) \<Rightarrow> bool" where
  "agree now t f \<longleftrightarrow> (\<forall>ip. case entry t ip of
      Some (l, u) \<Rightarrow> f ip = l \<and> u \<le> now \<and> used fresh allow u l
    | None \<Rightarrow> \<exists>u. used fresh allow u (f ip) \<and> (f ip = fresh \<or> u + ttl < now))"

lemma agree_later: "agree now t f \<Longrightarrow> now \<le> later \<Longrightarrow> agree later t f"
  unfolding agree_def by (fastforce split: option.splits)

lemma agree_sweep: "agree now t f \<Longrightarrow> agree now (sweep now t) f"
  unfolding agree_def sweep_entry by (force split: option.splits prod.splits if_splits)

lemma agree_check:
  assumes refills: "refills fresh allow ttl" and agree: "agree now t f"
  shows "fst (check now ip t) = fst (allow now (f ip))
    \<and> agree now (snd (check now ip t)) (f(ip := snd (allow now (f ip))))"
proof -
  define l where "l = (case entry t ip of None \<Rightarrow> fresh | Some (l, u) \<Rightarrow> l)"
  have same: "allow now l = allow now (f ip)"
    using agree refills unfolding agree_def refills_def l_def by (auto split: option.splits dest!: spec [of _ ip])
  have "\<exists>u. used fresh allow u l \<and> u \<le> now"
  proof (cases "entry t ip")
    case None
    then show ?thesis using used.new [of fresh allow now] by (auto simp: l_def)
  next
    case (Some e)
    then show ?thesis
      using agree unfolding agree_def by (auto simp: l_def dest!: spec [of _ ip] split: prod.splits)
  qed
  then have "used fresh allow now (snd (allow now l))" by (blast intro: used.use)
  then have "agree now (snd (check now ip t)) (f(ip := snd (allow now (f ip))))"
    using agree unfolding agree_def check_entry l_def [symmetric] same
    by (simp split: option.splits) (metis option.distinct(1))
  then show ?thesis by (simp add: check_result same flip: l_def)
qed

lemma sweeps_unobservable:
  assumes refills: "refills fresh allow ttl"
    and "sorted_wrt (\<le>) (map at rs)" and "\<And>r. r \<in> set rs \<Longrightarrow> start \<le> at r" and "agree start t f"
  shows "answers check sweep rs t = reference allow rs f"
  using assms(2-)
proof (induction rs arbitrary: start t f)
  case (Cons r rs)
  have later: "\<And>x. x \<in> set rs \<Longrightarrow> at r \<le> at x" and sorted: "sorted_wrt (\<le>) (map at rs)"
    using Cons.prems(1) by auto
  have agree: "agree (at r) t f"
    by (rule agree_later [OF Cons.prems(3)]) (simp add: Cons.prems(2))
  show ?case
  proof (cases r)
    case (Check now ip)
    with agree_check [OF refills, of now t f ip] agree Cons.IH [OF sorted later] show ?thesis
      by (auto split: prod.split)
  next
    case (Sweep now)
    with agree_sweep [of now t f] agree Cons.IH [OF sorted later] show ?thesis by simp
  qed
qed simp

lemma agree_empty: "(\<And>ip. entry t ip = None) \<Longrightarrow> agree start t (\<lambda>_. fresh)"
  unfolding agree_def by (auto intro: used.new)

text \<open>What a sweep keeps was used within the time to live.\<close>

lemma swept_recent: "entry (sweep now t) ip = Some (l, u) \<Longrightarrow> now - ttl \<le> u"
  by (auto simp: sweep_entry split: option.splits if_splits)

end

section \<open>Both tables keep it\<close>

definition table_entry :: "'l table \<Rightarrow> string \<Rightarrow> ('l \<times> time) option" where
  "table_entry t ip = map_option (\<lambda>lim. (limiter lim, lastUse lim)) (t ip)"

interpretation hub_limits: limiter_table
  "checkIPRateLimit new allow maxPerMinute" cleanup_table table_entry "new maxPerMinute" allow ipLimiterTTL
  for new :: "int \<Rightarrow> 'l" and allow maxPerMinute
  by unfold_locales
    (auto simp: checkIPRateLimit_def cleanup_table_def table_entry_def Let_def split: option.split prod.split)

interpretation stun_limits: limiter_table
  "stun_allow new allow" stun_cleanup table_entry new allow stunLimiterTTL
  for new :: 'l and allow
  by unfold_locales
    (auto simp: stun_allow_def stun_cleanup_def table_entry_def Let_def split: option.split prod.split)

end
