(* ===== verification/Access.thy ===== *)
theory Access
  imports NetAddr Limits
begin

text \<open>
  Who a request is counted for, and what its limiter answers: the properties of \<open>clientIP\<close> and of
  the two limiter tables.
\<close>

section \<open>Addresses and their text\<close>

lemma parse_show_v4: "length ip = 4 \<Longrightarrow> parse_v4 (show_v4 ip) = Some ip"
proof -
  assume len: "length ip = 4"
  have "CHR ''.'' \<notin> set (show_byte b)" for b
    using show_nat_chars [of "CHR ''.''" "unat b"] by (auto simp: show_byte_def digit_val_def)
  then have "split_char (CHR ''.'') (show_v4 ip) = map show_byte ip"
    unfolding show_v4_def using len by (subst split_join) auto
  then show ?thesis
    using sequence_map [of ip read_octet show_byte] by (simp add: parse_v4_def len read_show_byte)
qed

lemma find_split: "(\<And>x. x \<in> set xs \<Longrightarrow> \<not> P x) \<Longrightarrow> P y \<Longrightarrow> find P (xs @ y # ys) = Some y"
  by (induction xs) auto

lemma parse_addr_v4:
  assumes len: "length ip = 4"
  shows "ParseAddr (show_v4 ip) = Some ip"
proof -
  obtain a b c d where ip: "ip = [a, b, c, d]"
    using len by (auto simp: numeral_eq_Suc length_Suc_conv)
  have "x \<notin> set ''.:%''" if x: "x \<in> set (show_byte a)" for x
    using show_nat_chars [of x "unat a"] x by (auto simp: show_byte_def digit_val_def)
  then have "find (\<lambda>c. c \<in> set ''.:%'') (show_byte a @ CHR ''.'' # show_v4 [b, c, d]) = Some (CHR ''.'')"
    by (intro find_split) auto
  moreover have "show_byte a @ CHR ''.'' # show_v4 [b, c, d] = show_v4 ip" by (simp add: show_v4_def ip)
  ultimately show ?thesis
    using parse_show_v4 [OF len] by (simp add: ParseAddr_def)
qed

section \<open>The scan of the forwarded addresses\<close>

lemma scan_append:
  "scan_forwarded trusted (xs @ ys) =
    (case scan_forwarded trusted xs of Some r \<Rightarrow> Some r | None \<Rightarrow> scan_forwarded trusted ys)"
  by (induction xs) (simp_all add: Let_def split: option.split)

lemma split_append: "split_char sep (a @ sep # b) = split_char sep a @ split_char sep b"
  by (induction a) (auto split: list.split simp: split_char_nonempty)

text \<open>A forwarded entry that counts: an address that is not a trusted proxy's.\<close>

definition counts :: "string list \<Rightarrow> string \<Rightarrow> bool" where
  "counts trusted part =
     (case ParseIP (trim_space part) of None \<Rightarrow> False | Some ip \<Rightarrow> \<not> isTrustedProxy trusted ip)"

lemma ParseIP_Nil [simp]: "ParseIP [] = None"
  by (simp add: ParseIP_def ParseAddr_def)

lemma scan_find: "scan_forwarded trusted parts = map_option trim_space (find (counts trusted) parts)"
  by (induction parts) (auto simp: counts_def Let_def split: option.split)

lemma join_nonempty: "x \<noteq> [] \<Longrightarrow> join_with sep (x # xs) \<noteq> []"
  by (cases xs) simp_all

lemma show_v4_nonempty: "length ip = 4 \<Longrightarrow> show_v4 ip \<noteq> []"
  by (cases ip) (simp_all add: show_v4_def show_byte_def join_nonempty)

lemma show_v6_nonempty:
  assumes "length ip = 16"
  shows "show_v6 ip \<noteq> []"
proof -
  obtain a b r where "ip = a # b # r" using assms by (auto simp: numeral_eq_Suc length_Suc_conv)
  then have "map show_hex (groups16 ip) = show_hex (unat a * 256 + unat b) # map show_hex (groups16 r)" by simp
  moreover have "show_hex n \<noteq> []" for n by (simp add: show_hex.simps [of n])
  ultimately show ?thesis by (simp add: show_v6_def Let_def join_nonempty split: prod.split)
qed

lemma IP_String_nonempty: "IP_String ip \<noteq> []"
  by (auto simp: IP_String_def show_v4_nonempty show_v6_nonempty To4_def dest: To4_length split: option.split)

lemma clientIP_parsed:
  "ParseIP (trim_space remote) = Some ip \<Longrightarrow> clientIP trusted remote f =
    (if isTrustedProxy trusted ip then
       case find (counts trusted) (rev (split_char (CHR '','') (trim_space f))) of
         Some part \<Rightarrow> trim_space part
       | None \<Rightarrow> IP_String ip
     else IP_String ip)"
  by (auto simp: clientIP_def Let_def scan_find counts_def IP_String_nonempty split: option.split)

lemma find_split_iff: "find P xs = Some x \<longleftrightarrow> (\<exists>us vs. xs = us @ x # vs \<and> P x \<and> (\<forall>y \<in> set us. \<not> P y))"
proof (induction xs)
  case (Cons a xs)
  then show ?case
    by (cases "P a") (auto simp: Cons_eq_append_conv, metis append_Cons set_ConsD)
qed simp

lemma find_rev_Some:
  "find P (rev xs) = Some x \<longleftrightarrow> (\<exists>as bs. xs = as @ x # bs \<and> P x \<and> (\<forall>y \<in> set bs. \<not> P y))"
proof -
  have "find P (rev xs) = Some x \<longleftrightarrow> (\<exists>us vs. rev xs = us @ x # vs \<and> P x \<and> (\<forall>y \<in> set us. \<not> P y))"
    by (metis find_split_iff)
  also have "\<dots> \<longleftrightarrow> (\<exists>us vs. xs = rev vs @ x # rev us \<and> P x \<and> (\<forall>y \<in> set us. \<not> P y))"
    by (auto simp: rev_swap)
  also have "\<dots> \<longleftrightarrow> (\<exists>as bs. xs = as @ x # bs \<and> P x \<and> (\<forall>y \<in> set bs. \<not> P y))"
    by (metis rev_rev_ident set_rev)
  finally show ?thesis .
qed

section \<open>Properties\<close>

text \<open>
  An IPv4 address and its text determine each other: parsing what the server prints for an
  IPv4 peer gives the peer's address, so no two IPv4 peers are counted under one key.
\<close>

lemma ipv4_text_roundtrip:
  assumes "length ip = 4"
  shows "ParseIP (IP_String ip) = Some (v4_prefix @ ip) \<and> IP_String (v4_prefix @ ip) = IP_String ip"
  using assms parse_addr_v4 [OF assms]
  by (auto simp: IP_String_def ParseIP_def To16_def To4_def v4_prefix_def)

lemma ipv4_text_roundtrip_example: "ParseIP (IP_String [203, 0, 113, 9]) = Some (v4_prefix @ [203, 0, 113, 9])"
  using ipv4_text_roundtrip [of "[203, 0, 113, 9]"] by simp

text \<open>
  Which address a request is counted under.  A peer that is not a trusted proxy is counted
  under its own address, whatever headers it sends.  Behind a trusted proxy it is the rightmost
  entry of the forwarded list that is an address and not a trusted proxy's, and the proxy's own
  address when there is none.
\<close>

lemma client_address_selected:
  assumes "ParseIP (trim_space remote) = Some ip"
  shows "if isTrustedProxy trusted ip
    then (\<exists>as x bs. split_char (CHR '','') (trim_space f) = as @ x # bs \<and> clientIP trusted remote f = trim_space x
           \<and> counts trusted x \<and> filter (counts trusted) bs = [])
         \<or> (filter (counts trusted) (split_char (CHR '','') (trim_space f)) = [] \<and> clientIP trusted remote f = IP_String ip)
    else clientIP trusted remote f = IP_String ip"
proof (cases "isTrustedProxy trusted ip")
  case True
  let ?parts = "split_char (CHR '','') (trim_space f)"
  show ?thesis
  proof (cases "find (counts trusted) (rev ?parts)")
    case None
    then show ?thesis
      using True by (simp add: clientIP_parsed [OF assms]) (auto simp: find_None_iff filter_empty_conv)
  next
    case (Some x)
    then obtain as bs where "?parts = as @ x # bs" "counts trusted x" "filter (counts trusted) bs = []"
      by (auto simp: find_rev_Some filter_empty_conv)
    then show ?thesis using True Some by (auto simp: clientIP_parsed [OF assms])
  qed
qed (simp add: clientIP_parsed [OF assms])

lemma client_address_selected_example: "clientIP [] ''10.1.2.3'' ''1.1.1.1'' = IP_String (v4_prefix @ [10, 1, 2, 3])"
proof -
  have "ParseIP (trim_space ''10.1.2.3'') = Some (v4_prefix @ [10, 1, 2, 3])" by code_simp
  from client_address_selected [OF this, of "[]" "''1.1.1.1''"] show ?thesis by (simp add: isTrustedProxy_def)
qed



text \<open>
  But a proxy that appends something that is no plain address, such as an address with a port,
  hands the choice to the client: the unparsable entry is skipped and the client's own entry
  left of it is taken.
\<close>

lemma unparsable_entry_trusts_client:
  assumes "ParseIP (trim_space remote) = Some ip" and "isTrustedProxy trusted ip"
    and "trim_space f = a @ CHR '','' # b" and "CHR '','' \<notin> set a" "CHR '','' \<notin> set b"
    and "ParseIP (trim_space b) = None" and "counts trusted a"
  shows "clientIP trusted remote f = trim_space a"
proof -
  have "split_char (CHR '','') x = [x]" if "CHR '','' \<notin> set x" for x
    using that split_join [of "[x]" "CHR '',''"] by simp
  then have "split_char (CHR '','') (trim_space f) = [a, b]"
    using assms(3-5) by (simp add: split_append)
  moreover have "\<not> counts trusted b" using assms(6) by (simp add: counts_def)
  ultimately show ?thesis using assms(2,7) by (simp add: clientIP_parsed [OF assms(1)])
qed

lemma unparsable_entry_trusts_client_example:
  "clientIP [''10.0.0.0/8''] ''10.1.2.3'' ''1.1.1.1,2.2.2.2:99'' = ''1.1.1.1''"
proof -
  have "clientIP [''10.0.0.0/8''] ''10.1.2.3'' ''1.1.1.1,2.2.2.2:99'' = trim_space ''1.1.1.1''"
    by (rule unparsable_entry_trusts_client [where ip = "v4_prefix @ [10, 1, 2, 3]" and b = "''2.2.2.2:99''"])
      code_simp+
  then show ?thesis by code_simp
qed

text \<open>
  A token bucket as a concrete limiter: \<open>full\<close> is the time in which it fills up, a request costs
  \<open>cost\<close> of it; the state is the credit and the time it was last drawn on.
\<close>

definition bucket :: "int \<Rightarrow> int \<Rightarrow> time \<Rightarrow> int \<times> time \<Rightarrow> bool \<times> (int \<times> time)" where
  "bucket full cost now l =
     (let c = min full (fst l + max 0 (now - snd l))
      in if cost \<le> c then (True, (c - cost, now)) else (False, l))"

lemma bucket_used:
  assumes "used (full, 0) (bucket full cost) u l" and "0 \<le> cost" "0 \<le> full"
  shows "0 \<le> fst l \<and> fst l \<le> full \<and> (snd l \<le> u \<or> fst l = full)"
  using assms by induction (auto simp: bucket_def Let_def)

lemma bucket_refills:
  assumes "0 \<le> cost" "cost \<le> full" "full \<le> ttl"
  shows "refills (full, 0) (bucket full cost) ttl"
  unfolding refills_def
proof (intro allI impI)
  fix u l now
  assume "used (full, 0) (bucket full cost) u l" and now: "u + ttl < now"
  from bucket_used [OF this(1)] have "min full (fst l + max 0 (now - snd l)) = full"
    using now assms by auto
  moreover have "min full (fst (full, 0 :: int) + max 0 (now - snd (full, 0 :: int))) = full" by simp
  ultimately show "bucket full cost now l = bucket full cost now (full, 0)"
    using assms(2) unfolding bucket_def Let_def by simp
qed

lemma start_anywhere:
  assumes "sorted_wrt (\<le>) (map at rs)" and "\<And>start. (\<And>r. r \<in> set rs \<Longrightarrow> start \<le> at r) \<Longrightarrow> P"
  shows P
proof (rule assms(2))
  show "(case rs of [] \<Rightarrow> 0 | r # _ \<Rightarrow> at r) \<le> at x" if "x \<in> set rs" for x
    using assms(1) that by (auto split: list.split)
qed

text \<open>
  C37: Forgetting idle limiters is not observable.  For requests and sweeps at times that do not
  decrease, the limiter table of the HTTP endpoints answers as if every address kept one limiter
  for ever, provided a bucket that nobody used for an hour has filled up.
\<close>

theorem http_limits_as_if_never_swept:
  assumes "refills (new maxPerMinute) allow ipLimiterTTL" and "sorted_wrt (\<le>) (map at rs)"
  shows "answers (checkIPRateLimit new allow maxPerMinute) cleanup_table rs Map.empty
    = reference allow rs (\<lambda>_. new maxPerMinute)"
  by (rule start_anywhere [OF assms(2)], rule hub_limits.sweeps_unobservable [where maxPerMinute = maxPerMinute and new = new, OF assms])
    (auto intro: hub_limits.agree_empty simp: table_entry_def)

text \<open>Two creations by one address, a sweep, one by another, on a bucket of two per minute.\<close>

definition demo_requests :: "request list" where
  "demo_requests = [Check 1 ''a'', Check 2 ''a'', Check 3 ''a'', Sweep 4, Check 5 ''b'', Check 60000000000 ''a'']"

theorem http_limits_as_if_never_swept_witness:
  "answers (checkIPRateLimit (\<lambda>m. (60000000000, 0)) (bucket 60000000000 30000000000) 2) cleanup_table
    demo_requests Map.empty = [True, True, False, True, True]"
proof -
  have "answers (checkIPRateLimit (\<lambda>m. (60000000000, 0)) (bucket 60000000000 30000000000) 2) cleanup_table
      demo_requests Map.empty
    = reference (bucket 60000000000 30000000000) demo_requests (\<lambda>_. (60000000000, 0))"
    by (rule http_limits_as_if_never_swept, rule bucket_refills) (simp_all add: ipLimiterTTL_def demo_requests_def)
  then show ?thesis by (simp add: demo_requests_def bucket_def)
qed

text \<open>
  The same of the STUN responder's table, whose sweep forgets after five minutes.
\<close>

lemma stun_limits_as_if_never_swept:
  assumes "refills new allow stunLimiterTTL" and "sorted_wrt (\<le>) (map at rs)"
  shows "answers (stun_allow new allow) stun_cleanup rs Map.empty = reference allow rs (\<lambda>_. new)"
  by (rule start_anywhere [OF assms(2)], rule stun_limits.sweeps_unobservable [where new = new, OF assms])
    (auto intro: stun_limits.agree_empty simp: table_entry_def)

lemma stun_limits_as_if_never_swept_example:
  "answers (stun_allow (500000000, 0) (bucket 500000000 50000000)) stun_cleanup demo_requests Map.empty
    = [True, True, True, True, True]"
proof -
  have "answers (stun_allow (500000000, 0) (bucket 500000000 50000000)) stun_cleanup demo_requests Map.empty
    = reference (bucket 500000000 50000000) demo_requests (\<lambda>_. (500000000, 0))"
    by (rule stun_limits_as_if_never_swept [OF bucket_refills]) (simp_all add: stunLimiterTTL_def demo_requests_def)
  then show ?thesis by (simp add: demo_requests_def bucket_def)
qed

end
