(* ===== verification/Stun.thy ===== *)
theory Stun
  imports NetAddr
begin

text \<open>
  The STUN responder (\<open>internal/server/stun.go\<close>): the Binding Response to a packet, byte by
  byte, with 16- and 32-bit words in network order, and against it the decoder of RFC 5389 a
  browser applies to the response.
\<close>

section \<open>encoding/binary and copy\<close>

definition put16 :: "16 word \<Rightarrow> bytes" where
  "put16 w = [ucast (drop_bit 8 w), ucast w]"

definition put32 :: "32 word \<Rightarrow> bytes" where
  "put32 w = [ucast (drop_bit 24 w), ucast (drop_bit 16 w), ucast (drop_bit 8 w), ucast w]"

definition get16 :: "bytes \<Rightarrow> 16 word" where
  "get16 b = ucast (b ! 1) OR push_bit 8 (ucast (b ! 0))"

definition get32 :: "bytes \<Rightarrow> 32 word" where
  "get32 b = ucast (b ! 3) OR push_bit 8 (ucast (b ! 2)) OR push_bit 16 (ucast (b ! 1)) OR push_bit 24 (ucast (b ! 0))"

definition slice :: "nat \<Rightarrow> nat \<Rightarrow> bytes \<Rightarrow> bytes" where
  "slice i j b = take (j - i) (drop i b)"

text \<open>Writing \<open>src\<close> into a slice from index \<open>i\<close> on, no further than its end.\<close>

definition copy_at :: "nat \<Rightarrow> bytes \<Rightarrow> bytes \<Rightarrow> bytes" where
  "copy_at i src dst = take i dst @ take (length dst - i) src @ drop (i + length src) dst"

section \<open>The responder\<close>

definition stunHeaderSize :: nat where "stunHeaderSize = 20"
definition stunBindingRequest :: "16 word" where "stunBindingRequest = 0x0001"
definition stunBindingSuccessResponse :: "16 word" where "stunBindingSuccessResponse = 0x0101"
definition stunAttrXORMappedAddress :: "16 word" where "stunAttrXORMappedAddress = 0x0020"
definition stunMagicCookie :: "32 word" where "stunMagicCookie = 0x2112A442"

lemmas stun_consts = stunHeaderSize_def stunBindingRequest_def stunBindingSuccessResponse_def
  stunAttrXORMappedAddress_def stunMagicCookie_def

text \<open>A \<open>net.Addr\<close>: the addresses and ports of the two kinds the code tells apart, or a text.\<close>

datatype net_addr = UDPAddr bytes int | TCPAddr bytes int | OtherAddr string

definition remoteAddrIP :: "net_addr option \<Rightarrow> string" where
  "remoteAddrIP addr =
     (case addr of
        None \<Rightarrow> []
      | Some (UDPAddr ip port) \<Rightarrow> IP_String ip
      | Some (TCPAddr ip port) \<Rightarrow> IP_String ip
      | Some (OtherAddr s) \<Rightarrow> s)"

definition xor_port :: "int \<Rightarrow> 16 word" where
  "xor_port port = of_int port XOR ucast (drop_bit 16 stunMagicCookie)"

definition buildXORMappedAddressAttribute :: "bytes \<Rightarrow> int \<Rightarrow> bytes \<Rightarrow> bytes option" where
  "buildXORMappedAddressAttribute ip port transactionID =
     (case To4 ip of
        Some ip4 \<Rightarrow>
          (let attr = replicate 12 0;
               attr = copy_at 0 (put16 stunAttrXORMappedAddress) attr;
               attr = copy_at 2 (put16 8) attr;
               attr = attr[5 := 0x01];
               attr = copy_at 6 (put16 (xor_port port)) attr;
               cookie = put32 stunMagicCookie
           in Some (copy_at 8 (map2 (XOR) ip4 cookie) attr))
      | None \<Rightarrow>
          (case To16 ip of
             None \<Rightarrow> None
           | Some ip16 \<Rightarrow>
               if length transactionID \<noteq> 12 then None
               else
                 (let attr = replicate 24 0;
                      attr = copy_at 0 (put16 stunAttrXORMappedAddress) attr;
                      attr = copy_at 2 (put16 20) attr;
                      attr = attr[5 := 0x02];
                      attr = copy_at 6 (put16 (xor_port port)) attr;
                      mask = copy_at 4 transactionID (copy_at 0 (put32 stunMagicCookie) (replicate 16 0))
                  in Some (copy_at 8 (map2 (XOR) ip16 mask) attr))))"

definition buildSTUNBindingResponse :: "bytes \<Rightarrow> net_addr option \<Rightarrow> bytes option" where
  "buildSTUNBindingResponse packet remote =
     (if length packet < stunHeaderSize then None
      else if get16 (slice 0 2 packet) \<noteq> stunBindingRequest then None
      else
        (let messageLength = unat (get16 (slice 2 4 packet))
         in if messageLength mod 4 \<noteq> 0 \<or> stunHeaderSize + messageLength > length packet then None
            else if get32 (slice 4 8 packet) \<noteq> stunMagicCookie then None
            else case remote of
              Some (UDPAddr ip port) \<Rightarrow>
                (let transactionID = slice 8 20 packet
                 in case buildXORMappedAddressAttribute ip port transactionID of
                      None \<Rightarrow> None
                    | Some attr \<Rightarrow>
                        (let response = replicate (stunHeaderSize + length attr) 0;
                             response = copy_at 0 (put16 stunBindingSuccessResponse) response;
                             response = copy_at 2 (put16 (of_nat (length attr))) response;
                             response = copy_at 4 (put32 stunMagicCookie) response;
                             response = copy_at 8 transactionID response
                         in Some (copy_at 20 attr response)))
            | _ \<Rightarrow> None))"

section \<open>The client's side of RFC 5389\<close>

definition valid_request :: "bytes \<Rightarrow> bool" where
  "valid_request p \<longleftrightarrow> 20 \<le> length p \<and> take 2 p = [0, 1]
     \<and> 4 dvd unat (get16 (slice 2 4 p)) \<and> 20 + unat (get16 (slice 2 4 p)) \<le> length p
     \<and> slice 4 8 p = [0x21, 0x12, 0xA4, 0x42]"

text \<open>
  A Binding Success Response with one XOR-MAPPED-ADDRESS attribute: the transaction, the address
  and the port in it.
\<close>

definition decode_response :: "bytes \<Rightarrow> (bytes \<times> bytes \<times> 16 word) option" where
  "decode_response r =
     (let tid = slice 8 20 r; value = drop 24 r; mask = put32 stunMagicCookie @ tid;
          port = get16 (slice 2 4 value) XOR 0x2112;
          size = (if value ! 1 = 1 then 4 else 16)
      in if length r < 32 \<or> slice 0 2 r \<noteq> [1, 1] \<or> slice 4 8 r \<noteq> [0x21, 0x12, 0xA4, 0x42]
            \<or> unat (get16 (slice 2 4 r)) \<noteq> length r - 20 \<or> slice 20 22 r \<noteq> [0, 0x20]
            \<or> unat (get16 (slice 22 24 r)) \<noteq> length value
            \<or> value ! 1 \<notin> {1, 2} \<or> length value \<noteq> 4 + size
         then None
         else Some (tid, map2 (XOR) (drop 4 value) (take size mask), port))"

text \<open>The shortest form of an address, in which the response carries it.\<close>

definition canonical :: "bytes \<Rightarrow> bytes option" where
  "canonical ip = (case To4 ip of Some v4 \<Rightarrow> Some v4 | None \<Rightarrow> To16 ip)"

section \<open>Layout\<close>

lemma list4: "length xs = 4 \<Longrightarrow> \<exists>a b c d. xs = [a, b, c, d]"
  by (auto simp: numeral_eq_Suc length_Suc_conv)

lemma byte_no_bit: "8 \<le> n \<Longrightarrow> \<not> bit (b :: byte) n"
  using bit_imp_le_length [of b n] by auto

lemma get16_put16: "get16 (put16 w) = w"
  unfolding get16_def put16_def
  by (rule bit_word_eqI) (auto simp: bit_simps)

lemma put16_get16: "put16 (get16 [a, b]) = [a, b]"
  unfolding get16_def put16_def
  by (auto intro!: bit_word_eqI simp: bit_simps byte_no_bit)

lemma get32_put32: "get32 (put32 w) = w"
proof (rule bit_word_eqI)
  fix n assume "n < LENGTH(32)"
  then consider "n < 8" | "8 \<le> n \<and> n < 16" | "16 \<le> n \<and> n < 24" | "24 \<le> n \<and> n < 32" by fastforce
  then show "bit (get32 (put32 w)) n = bit w n"
    by cases (auto simp: get32_def put32_def bit_simps)
qed

lemma put32_get32: "put32 (get32 [a, b, c, d]) = [a, b, c, d]"
  unfolding get32_def put32_def
  by (auto intro!: bit_word_eqI simp: bit_simps byte_no_bit)

lemma get16_eq: "get16 [a, b] = w \<longleftrightarrow> [a, b] = put16 w"
  by (metis get16_put16 put16_get16)

lemma get32_eq: "get32 [a, b, c, d] = w \<longleftrightarrow> [a, b, c, d] = put32 w"
  by (metis get32_put32 put32_get32)

lemma xor_bytes_cancel:
  "length xs = length ys \<Longrightarrow> map2 (XOR) (map2 (XOR) xs ys) ys = (xs :: bytes)"
  by (induction xs ys rule: list_induct2) (simp_all add: xor.assoc)

text \<open>Writes at increasing indices into a zeroed buffer, as the concatenation they produce.\<close>

lemma copy_at_zeros [wire_simps]:
  "length src \<le> m \<Longrightarrow> copy_at 0 src (replicate m 0) = src @ replicate (m - length src) 0"
  by (simp add: copy_at_def)

lemma copy_at_skip [wire_simps]:
  "length xs \<le> i \<Longrightarrow> copy_at i src (xs @ ys) = xs @ copy_at (i - length xs) src ys"
  by (simp add: copy_at_def add.commute)

lemma copy_at_Cons [wire_simps]: "0 < i \<Longrightarrow> copy_at i src (x # ys) = x # copy_at (i - 1) src ys"
  using copy_at_skip [of "[x]" i src ys] by simp

lemma update_zeros [wire_simps]:
  "i < m \<Longrightarrow> (replicate m 0)[i := x] = replicate i 0 @ x # replicate (m - Suc i) (0 :: byte)"
  by (rule nth_equalityI) (auto simp: nth_append nth_list_update nth_Cons split: nat.splits)

lemma copy_at_all [wire_simps]: "length src = length dst \<Longrightarrow> copy_at 0 src dst = src"
  by (simp add: copy_at_def)

lemma length_put [simp]: "length (put16 w) = 2" "length (put32 w') = 4"
  by (simp_all add: put16_def put32_def)

lemma put_consts [wire_simps]:
  "put32 stunMagicCookie = [0x21, 0x12, 0xA4, 0x42]" "put16 stunBindingSuccessResponse = [1, 1]"
  "put16 stunAttrXORMappedAddress = [0, 0x20]" "put16 8 = [0, 8]" "put16 20 = [0, 20]"
  by (simp_all add: put32_def put16_def stun_consts drop_bit_eq_div)

lemma attribute_v4:
  assumes "To4 ip = Some ip4"
  shows "buildXORMappedAddressAttribute ip port tid =
    Some ([0, 0x20, 0, 8, 0, 1] @ put16 (xor_port port) @ map2 (XOR) ip4 [0x21, 0x12, 0xA4, 0x42])"
  using To4_length [OF assms]
  by (simp add: buildXORMappedAddressAttribute_def assms Let_def wire_simps list_update_append)

lemma attribute_v6:
  assumes "To4 ip = None" and "To16 ip = Some ip16" and "length tid = 12"
  shows "buildXORMappedAddressAttribute ip port tid =
    Some ([0, 0x20, 0, 20, 0, 2] @ put16 (xor_port port) @ map2 (XOR) ip16 ([0x21, 0x12, 0xA4, 0x42] @ tid))"
  using To16_length [OF assms(2)] assms(3)
  by (simp add: buildXORMappedAddressAttribute_def assms Let_def wire_simps list_update_append)

lemma response_layout:
  assumes "length tid = 12"
  shows "copy_at 20 attr (copy_at 8 tid (copy_at 4 (put32 stunMagicCookie)
      (copy_at 2 (put16 n) (copy_at 0 (put16 stunBindingSuccessResponse) (replicate (20 + length attr) 0)))))
    = [1, 1] @ put16 n @ [0x21, 0x12, 0xA4, 0x42] @ tid @ attr"
  using assms by (simp add: wire_simps)

lemma split_at8:
  assumes "8 \<le> length (p :: bytes)"
  shows "\<exists>a b c d e f g h r. p = [a, b, c, d, e, f, g, h] @ r"
proof -
  have "length (take 4 p) = 4" "length (take 4 (drop 4 p)) = 4" using assms by simp_all
  moreover have "p = take 4 p @ take 4 (drop 4 p) @ drop 8 p"
    by (metis append_take_drop_id drop_drop numeral_plus_numeral semiring_norm(2) semiring_norm(6))
  ultimately show ?thesis by (metis append_Cons append_Nil list4)
qed

text \<open>What the responder checks is what a Binding Request is.\<close>

lemma request_checks:
  assumes "20 \<le> length p"
  shows "get16 (slice 0 2 p) = stunBindingRequest \<longleftrightarrow> take 2 p = [0, 1]"
    and "get32 (slice 4 8 p) = stunMagicCookie \<longleftrightarrow> slice 4 8 p = [0x21, 0x12, 0xA4, 0x42]"
proof -
  obtain a b c d e f g h r where p: "p = [a, b, c, d, e, f, g, h] @ r"
    using split_at8 [of p] assms by fastforce
  have one: "put16 stunBindingRequest = [0, 1]" by (simp add: put16_def stunBindingRequest_def drop_bit_eq_div)
  show "get16 (slice 0 2 p) = stunBindingRequest \<longleftrightarrow> take 2 p = [0, 1]"
    using get16_eq [of a b stunBindingRequest] by (simp add: p slice_def one)
  show "get32 (slice 4 8 p) = stunMagicCookie \<longleftrightarrow> slice 4 8 p = [0x21, 0x12, 0xA4, 0x42]"
    using get32_eq [of e f g h stunMagicCookie] by (simp add: p slice_def wire_simps)
qed

lemma response_eq:
  "buildSTUNBindingResponse packet remote =
    (case remote of
       Some (UDPAddr ip port) \<Rightarrow>
         if valid_request packet then
           map_option (\<lambda>attr. [1, 1] @ put16 (of_nat (length attr)) @ [0x21, 0x12, 0xA4, 0x42] @ slice 8 20 packet @ attr)
             (buildXORMappedAddressAttribute ip port (slice 8 20 packet))
         else None
     | _ \<Rightarrow> None)"
proof (cases "20 \<le> length packet")
  case True
  then have tid: "length (slice 8 20 packet) = 12" by (simp add: slice_def)
  show ?thesis
    using True request_checks [OF True]
    by (auto simp: buildSTUNBindingResponse_def stunHeaderSize_def valid_request_def Let_def
        response_layout [OF tid] mod_eq_0_iff_dvd split: option.split net_addr.split)
next
  case False
  then show ?thesis
    by (auto simp: buildSTUNBindingResponse_def stunHeaderSize_def valid_request_def
        split: option.split net_addr.split)
qed

lemma response_valid: "buildSTUNBindingResponse p remote = Some r \<Longrightarrow> valid_request p"
  by (auto simp: response_eq split: option.splits net_addr.splits if_splits)

lemma attribute_cases:
  assumes "buildXORMappedAddressAttribute ip port tid = Some attr" and "length tid = 12"
  shows "\<exists>c f. canonical ip = Some c \<and> (f, length c) \<in> {(1, 4), (2, 16)}
    \<and> attr = [0, 0x20, 0, 4 + of_nat (length c), 0, f] @ put16 (xor_port port)
        @ map2 (XOR) c (take (length c) ([0x21, 0x12, 0xA4, 0x42] @ tid))"
proof (cases "To4 ip")
  case (Some ip4)
  then show ?thesis
    using assms attribute_v4 [OF Some, of port tid] To4_length [OF Some] by (auto simp: canonical_def)
next
  case None
  show ?thesis
  proof (cases "To16 ip")
    case (Some ip16)
    then show ?thesis
      using assms attribute_v6 [OF None Some assms(2), of port] To16_length [OF Some] None
      by (auto simp: canonical_def)
  next
    case no: None
    with None assms show ?thesis by (simp add: buildXORMappedAddressAttribute_def)
  qed
qed

lemma attribute_None:
  "length tid = 12 \<Longrightarrow> buildXORMappedAddressAttribute ip port tid = None \<longleftrightarrow> length ip \<noteq> 4 \<and> length ip \<noteq> 16"
  by (auto simp: buildXORMappedAddressAttribute_def Let_def To16_def To4_def split: option.splits if_splits)

lemma transaction_length: "valid_request p \<Longrightarrow> length (slice 8 20 p) = 12"
  by (auto simp: valid_request_def slice_def)

lemma canonical_length: "canonical ip = Some c \<Longrightarrow> length c = 4 \<or> length c = 16"
  by (auto simp: canonical_def dest: To4_length To16_length split: option.splits)

lemma canonical_Some: "canonical ip \<noteq> None \<longleftrightarrow> length ip = 4 \<or> length ip = 16"
  by (auto simp: canonical_def To4_def To16_def split: option.split)

lemma port_decodes: "get16 (put16 (xor_port port)) XOR 0x2112 = of_int port"
  by (simp add: get16_put16 xor_port_def stunMagicCookie_def drop_bit_eq_div xor.assoc)

lemma get16_small: "n < 65536 \<Longrightarrow> unat (get16 (put16 (of_nat n))) = n"
  by (simp add: get16_put16 unat_of_nat)

text \<open>The decoder on the layout of a response.\<close>

lemma decode_layout:
  assumes tid: "length tid = 12" and c: "(f, length c) \<in> {(1 :: byte, 4), (2, 16)}"
  shows "decode_response ([1, 1] @ put16 (of_nat (8 + length c)) @ [0x21, 0x12, 0xA4, 0x42] @ tid
      @ [0, 0x20, 0, 4 + of_nat (length c), 0, f] @ put16 (xor_port port)
      @ map2 (XOR) c (take (length c) ([0x21, 0x12, 0xA4, 0x42] @ tid)))
    = Some (tid, c, of_int port)" (is "decode_response ?r = _")
proof -
  obtain a b where pn: "put16 (of_nat (8 + length c) :: 16 word) = [a, b]" by (simp add: put16_def)
  obtain x y where pp: "put16 (xor_port port) = [x, y]" by (simp add: put16_def)
  have len: "unat (get16 [a, b]) = 8 + length c"
    unfolding pn [symmetric] by (rule get16_small) (use c in auto)
  have port: "get16 [x, y] XOR 0x2112 = of_int port"
    using port_decodes [of port] by (simp add: pp)
  have value_len: "unat (get16 [0, 4 + of_nat (length c)]) = 4 + length c"
    using c by (auto simp: get16_def)
  let ?xs = "map2 (XOR) c (take (length c) ([0x21, 0x12, 0xA4, 0x42] @ tid))"
  let ?r' = "[1, 1, a, b, 0x21, 0x12, 0xA4, 0x42] @ tid @ [0, 0x20, 0, 4 + of_nat (length c), 0, f, x, y] @ ?xs"
  have tid': "slice 8 20 ?r' = tid" and drop: "drop 24 ?r' = [0, f, x, y] @ ?xs"
    using tid by (simp_all add: slice_def)
  have "map2 (XOR) ?xs (take (length c) ([0x21, 0x12, 0xA4, 0x42] @ tid)) = c"
    by (rule xor_bytes_cancel) (use tid c in auto)
  then have "decode_response ?r' = Some (tid, c, of_int port)"
    unfolding decode_response_def Let_def tid' drop
    using tid c len value_len port by (auto simp: slice_def wire_simps)
  then show ?thesis by (simp add: pn pp del: of_nat_add)
qed

section \<open>Properties\<close>

text \<open>
  C35: A client that decodes the answer to its Binding Request as RFC 5389 says learns the address
  and the port the server saw: for every valid request and every IPv4 or IPv6 source there is an
  answer, it carries the request's transaction, and undoing the XOR gives the address in its
  shortest form and the port.
\<close>

theorem stun_answer_decodes:
  assumes "valid_request packet" and "canonical ip = Some c"
  shows "\<exists>r. buildSTUNBindingResponse packet (Some (UDPAddr ip port)) = Some r
    \<and> decode_response r = Some (slice 8 20 packet, c, of_int port)"
proof -
  have tid: "length (slice 8 20 packet) = 12"
    using assms(1) by (rule transaction_length)
  obtain attr where attr: "buildXORMappedAddressAttribute ip port (slice 8 20 packet) = Some attr"
    using assms(2) attribute_None [OF tid, of ip port] canonical_Some [of ip] by fastforce
  from attribute_cases [OF attr tid] assms(2) obtain f where c: "(f, length c) \<in> {(1, 4), (2, 16)}"
    and eq: "attr = [0, 0x20, 0, 4 + of_nat (length c), 0, f] @ put16 (xor_port port)
        @ map2 (XOR) c (take (length c) ([0x21, 0x12, 0xA4, 0x42] @ slice 8 20 packet))"
    by auto
  have "length attr = 8 + length c" using c tid by (auto simp: eq)
  then show ?thesis
    using assms(1) decode_layout [OF tid c, of port] by (simp add: response_eq attr) (simp add: eq)
qed

theorem stun_answer_decodes_witness:
  "\<exists>r. buildSTUNBindingResponse [0, 1, 0, 0, 0x21, 0x12, 0xA4, 0x42, 1, 2, 3, 4, 5, 6, 7, 8, 9, 10, 11, 12]
      (Some (UDPAddr [203, 0, 113, 9] 54321)) = Some r
    \<and> decode_response r = Some ([1, 2, 3, 4, 5, 6, 7, 8, 9, 10, 11, 12], [203, 0, 113, 9], 54321)"
  using stun_answer_decodes [of "[0, 1, 0, 0, 0x21, 0x12, 0xA4, 0x42, 1, 2, 3, 4, 5, 6, 7, 8, 9, 10, 11, 12]"
      "[203, 0, 113, 9]" "[203, 0, 113, 9]" 54321]
  by (simp add: valid_request_def canonical_def To4_def slice_def get16_def)

text \<open>
  The responder answers a packet exactly when it is a Binding Request that came over UDP from
  an address of 4 or 16 bytes.
\<close>

lemma stun_answers_exactly_requests:
  "buildSTUNBindingResponse packet remote \<noteq> None \<longleftrightarrow>
     valid_request packet \<and> (\<exists>ip port. remote = Some (UDPAddr ip port) \<and> (length ip = 4 \<or> length ip = 16))"
proof (cases "valid_request packet")
  case True
  then have tid: "length (slice 8 20 packet) = 12" by (rule transaction_length)
  show ?thesis
    using True by (simp add: response_eq attribute_None [OF tid] split: option.split net_addr.split)
      (metis attribute_None [OF tid] not_None_eq)
qed (auto simp: response_eq split: option.splits net_addr.splits)

text \<open>
  No use as an amplifier: an answer has 32 or 44 bytes, to a request of at least 20, and the
  only bytes in it that the sender chose are the twelve of the transaction.
\<close>

lemma stun_answer_small:
  assumes "buildSTUNBindingResponse packet remote = Some r"
  shows "20 \<le> length packet \<and> (length r = 32 \<or> length r = 44)
    \<and> (\<forall>p. valid_request p \<and> slice 8 20 p = slice 8 20 packet \<longrightarrow> buildSTUNBindingResponse p remote = Some r)"
proof -
  have valid: "valid_request packet" and "20 \<le> length packet"
    using assms by (auto simp: response_eq valid_request_def split: option.splits net_addr.splits if_splits)
  then have tid: "length (slice 8 20 packet) = 12" by (simp add: slice_def)
  from assms valid obtain ip port attr where remote: "remote = Some (UDPAddr ip port)"
    and attr: "buildXORMappedAddressAttribute ip port (slice 8 20 packet) = Some attr"
    and r: "r = [1, 1] @ put16 (of_nat (length attr)) @ [0x21, 0x12, 0xA4, 0x42] @ slice 8 20 packet @ attr"
    by (auto simp: response_eq split: option.splits net_addr.splits)
  from attribute_cases [OF attr tid] tid have "length attr = 12 \<or> length attr = 24" by auto
  with r tid \<open>20 \<le> length packet\<close> show ?thesis
    by (auto simp: response_eq remote attr)
qed

lemma stun_answer_small_example:
  "length [1, 1, 0, 12, 0x21, 0x12, 0xA4, 0x42, 1, 2, 3, 4, 5, 6, 7, 8, 9, 10, 11, 12,
      0, 0x20, 0, 8, 0, 1, 0xF5, 0x23, 0xEA, 0x12, 0xD5, 0x4B :: byte] = 32"
  using stun_answer_small [of "[0, 1, 0, 0, 0x21, 0x12, 0xA4, 0x42, 1, 2, 3, 4, 5, 6, 7, 8, 9, 10, 11, 12]"
      "Some (UDPAddr [203, 0, 113, 9] 54321)"
      "[1, 1, 0, 12, 0x21, 0x12, 0xA4, 0x42, 1, 2, 3, 4, 5, 6, 7, 8, 9, 10, 11, 12,
      0, 0x20, 0, 8, 0, 1, 0xF5, 0x23, 0xEA, 0x12, 0xD5, 0x4B]"]
  by simp

end
