(* ===== verification/StunServer.thy ===== *)
theory StunServer
  imports Stun Limits
begin

text \<open>
  The UDP loop of the STUN responder (\<open>serve\<close> of \<open>internal/server/stun.go\<close>): each packet is
  first counted for its sender's address and only then parsed and answered.
\<close>

text \<open>
  What \<open>ReadFrom\<close> returns: a packet, of which the buffer holds the first 1500 bytes, with its
  sender, at a time; or an error, which ends the loop.  Errors of \<open>WriteTo\<close> are only logged.
\<close>

datatype read = Packet time bytes "net_addr option" | ReadError

definition serve_one ::
  "'l \<Rightarrow> (time \<Rightarrow> 'l \<Rightarrow> bool \<times> 'l) \<Rightarrow> time \<Rightarrow> bytes \<Rightarrow> net_addr option \<Rightarrow> 'l table \<Rightarrow> bytes option \<times> 'l table" where
  "serve_one new allow now packet remote limiters =
     (let ip = remoteAddrIP remote; (ok, limiters') = stun_allow new allow now ip limiters
      in (if \<not> ok then None else buildSTUNBindingResponse (take 1500 packet) remote, limiters'))"

text \<open>
  \<open>StartSTUNServer\<close>: whether listening fails, and the number of processors.  The goroutines it starts
  share the socket and the limiter table.
\<close>

record 'l stun_server =
  ssWorkers :: nat
  ssDone :: bool
  ssLimiters :: "'l table"

definition StartSTUNServer :: "bool \<Rightarrow> nat \<Rightarrow> 'l stun_server option" where
  "StartSTUNServer listenFails numCPU =
     (if listenFails then None
      else let workers = numCPU; workers = (if workers < 2 then 2 else workers)
           in Some \<lparr>ssWorkers = workers, ssDone = False, ssLimiters = Map.empty\<rparr>)"

lemma stun_workers: "StartSTUNServer listenFails n = Some s \<Longrightarrow> 2 \<le> ssWorkers s \<and> n \<le> ssWorkers s \<and> \<not> ssDone s"
  by (auto simp: StartSTUNServer_def Let_def split: if_splits)

text \<open>The datagrams the loop sends, each to the sender of the packet it answers.\<close>

fun serve ::
  "'l \<Rightarrow> (time \<Rightarrow> 'l \<Rightarrow> bool \<times> 'l) \<Rightarrow> read list \<Rightarrow> 'l table \<Rightarrow> (net_addr option \<times> bytes) list" where
  "serve new allow [] limiters = []"
| "serve new allow (ReadError # rs) limiters = []"
| "serve new allow (Packet now packet remote # rs) limiters =
     (let (response, limiters') = serve_one new allow now packet remote limiters; sent = serve new allow rs limiters'
      in case response of None \<Rightarrow> sent | Some r \<Rightarrow> (remote, r) # sent)"

fun from_ip :: "string \<Rightarrow> read \<Rightarrow> bool" where
  "from_ip ip (Packet now packet remote) \<longleftrightarrow> remoteAddrIP remote = ip"
| "from_ip ip ReadError \<longleftrightarrow> True"

lemma stun_allow_other: "ip' \<noteq> ip \<Longrightarrow> snd (stun_allow new allow now ip' t) ip = t ip"
  by (simp add: stun_allow_def Let_def split: prod.split)

lemma stun_allow_same:
  "t ip = t' ip \<Longrightarrow> fst (stun_allow new allow now ip t) = fst (stun_allow new allow now ip t')
    \<and> snd (stun_allow new allow now ip t) ip = snd (stun_allow new allow now ip t') ip"
  by (simp add: stun_allow_def Let_def split: prod.split)

lemma serve_filter:
  assumes "t ip = t' ip"
  shows "filter (\<lambda>(remote, r). remoteAddrIP remote = ip) (serve new allow rs t)
    = serve new allow (filter (from_ip ip) rs) t'"
  using assms
proof (induction rs arbitrary: t t')
  case (Cons r rs)
  show ?case
  proof (cases r)
    case (Packet now packet remote)
    show ?thesis
    proof (cases "remoteAddrIP remote = ip")
      case True
      from stun_allow_same [of t ip t' new allow now, OF Cons.prems] show ?thesis
        using Cons.IH [of "snd (stun_allow new allow now ip t)" "snd (stun_allow new allow now ip t')"]
        by (auto simp: Packet True serve_one_def Let_def split: prod.split option.split)
    next
      case False
      then show ?thesis
        using Cons.IH [of "snd (stun_allow new allow now (remoteAddrIP remote) t)" t'] Cons.prems
          stun_allow_other [OF False, of new allow now t]
        by (auto simp: Packet serve_one_def Let_def split: prod.split option.split)
    qed
  qed simp
qed simp

lemma serve_answers:
  "(remote, r) \<in> set (serve new allow rs t) \<Longrightarrow>
    \<exists>now packet. Packet now packet remote \<in> set rs \<and> buildSTUNBindingResponse (take 1500 packet) remote = Some r"
proof (induction rs arbitrary: t)
  case (Cons x rs)
  show ?case
  proof (cases x)
    case (Packet now packet sender)
    define limiters where "limiters = snd (stun_allow new allow now (remoteAddrIP sender) t)"
    from Cons.prems have "(remote, r) \<in> set (serve new allow rs limiters)
        \<or> sender = remote \<and> buildSTUNBindingResponse (take 1500 packet) sender = Some r"
      by (auto simp: Packet serve_one_def limiters_def Let_def split: prod.splits option.splits if_splits)
    with Cons.IH [of limiters] show ?thesis by (auto simp: Packet)
  next
    case ReadError
    with Cons.prems show ?thesis by simp
  qed
qed simp

section \<open>Properties\<close>

text \<open>
  A flood from other addresses cannot keep the responder from answering an address: the
  datagrams sent to an address are those that would be sent if only its own packets arrived.
\<close>

lemma stun_flood_isolated:
  "filter (\<lambda>(remote, r). remoteAddrIP remote = ip) (serve new allow rs Map.empty)
    = serve new allow (filter (from_ip ip) rs) Map.empty"
  by (rule serve_filter) simp

text \<open>
  The responder sends nothing unasked: each datagram answers a Binding Request that came from
  the address it is sent to.
\<close>

lemma stun_sends_only_answers:
  assumes "(remote, r) \<in> set (serve new allow rs Map.empty)"
  shows "\<exists>now packet. Packet now packet remote \<in> set rs \<and> valid_request (take 1500 packet)
    \<and> buildSTUNBindingResponse (take 1500 packet) remote = Some r"
  using serve_answers [OF assms] response_valid by blast

text \<open>One request, with a limiter that allows it.\<close>

lemma stun_sends_only_answers_example:
  "valid_request [0, 1, 0, 0, 0x21, 0x12, 0xA4, 0x42, 1, 2, 3, 4, 5, 6, 7, 8, 9, 10, 11, 12]"
proof -
  let ?packet = "[0, 1, 0, 0, 0x21, 0x12, 0xA4, 0x42, 1, 2, 3, 4, 5, 6, 7, 8, 9, 10, 11, 12] :: bytes"
  let ?remote = "Some (UDPAddr [203, 0, 113, 9] 54321)"
  let ?reply = "[1, 1, 0, 12, 0x21, 0x12, 0xA4, 0x42, 1, 2, 3, 4, 5, 6, 7, 8, 9, 10, 11, 12,
      0, 0x20, 0, 8, 0, 1, 0xF5, 0x23, 0xEA, 0x12, 0xD5, 0x4B] :: bytes"
  have "buildSTUNBindingResponse ?packet ?remote = Some ?reply" by code_simp
  then have "(?remote, ?reply) \<in> set (serve () (\<lambda>now l. (True, l)) [Packet 1 ?packet ?remote] Map.empty)"
    by (simp add: serve_one_def stun_allow_def)
  from stun_sends_only_answers [OF this] show ?thesis by simp
qed

end
