(* ===== verification/Config.thy ===== *)
theory Config
  imports NetAddr Json HubState
begin

text \<open>
  The configuration (\<open>config.go\<close>) and what \<open>main\<close> makes of it: defaults, the JSON file over the
  defaults, environment variables over the file, and the checks.  The environment is a function
  (\<open>os.Getenv\<close>, empty when unset) and so is the reading of a file.  \<open>time.ParseDuration\<close>, whose
  fractions are floating point, is a parameter.
\<close>

record app_config =
  acAddr :: string
  acDBPath :: string
  acLogPath :: string
  acLogMaxBytes :: int
  acSecret :: string
  acCORSOrigins :: "string list"
  acAllowLoopbackOrigins :: bool
  acMaxMessageBytes :: int
  acMaxUpdateBytes :: int
  acMaxSnapshotBytes :: int
  acRoomMaxStorageBytes :: int
  acAuthTimeout :: int
  acReadDeadline :: int
  acRoomTTLDays :: int
  acCleanupInterval :: int
  acMaxRoomsPerIPPerMinute :: int
  acMaxWSConnPerIPPerMinute :: int
  acMaxClientsPerRoom :: int
  acMaxGlobalRooms :: int
  acAllowedServerHosts :: "string list"
  acTrustedProxies :: "string list"
  acInsecureAllowDefaultSecret :: bool
  acConfigPath :: string

definition defaultConfigPath :: string where "defaultConfigPath = ''config.json''"

definition defaultConfig :: app_config where
  "defaultConfig =
     \<lparr>acAddr = ''127.0.0.1:8787'',
      acDBPath = ''data/timenotes-collab.db'',
      acLogPath = ''logs/timenotes-collab.log'',
      acLogMaxBytes = 5 * 1024 * 1024,
      acSecret = [],
      acCORSOrigins = [],
      acAllowLoopbackOrigins = True,
      acMaxMessageBytes = 128 * 1024 * 1024,
      acMaxUpdateBytes = 8 * 1024 * 1024,
      acMaxSnapshotBytes = 64 * 1024 * 1024,
      acRoomMaxStorageBytes = 512 * 1024 * 1024,
      acAuthTimeout = 15 * second,
      acReadDeadline = 30 * second,
      acRoomTTLDays = 30,
      acCleanupInterval = hour,
      acMaxRoomsPerIPPerMinute = 10,
      acMaxWSConnPerIPPerMinute = 30,
      acMaxClientsPerRoom = 20,
      acMaxGlobalRooms = 0,
      acAllowedServerHosts = [],
      acTrustedProxies = [],
      acInsecureAllowDefaultSecret = False,
      acConfigPath = []\<rparr>"

section \<open>The environment\<close>

text \<open>\<open>strconv.ParseInt(s, 10, 64)\<close>, which \<open>Atoi\<close> is on a 64-bit machine, and \<open>ParseBool\<close>.\<close>

definition ParseInt :: "string \<Rightarrow> int option" where
  "ParseInt s =
     (let signed = (s \<noteq> [] \<and> (hd s = CHR ''-'' \<or> hd s = CHR ''+''));
          digits = (if signed then tl s else s)
      in if digits = [] then None
         else case read_digits digit_val 10 0 digits of
           None \<Rightarrow> None
         | Some n \<Rightarrow>
             (let v = (if signed \<and> hd s = CHR ''-'' then - int n else int n)
              in if in_int64 v then Some v else None))"

definition ParseBool :: "string \<Rightarrow> bool option" where
  "ParseBool s =
     (if s \<in> {''1'', ''t'', ''T'', ''true'', ''TRUE'', ''True''} then Some True
      else if s \<in> {''0'', ''f'', ''F'', ''false'', ''FALSE'', ''False''} then Some False
      else None)"

definition splitCSV :: "string \<Rightarrow> string list" where
  "splitCSV v = filter (\<lambda>p. p \<noteq> []) (map trim_space (split_char (CHR '','') v))"

text \<open>
  One override: when the variable is set to something that parses, the field gets its value.
\<close>

definition override ::
  "(string \<Rightarrow> string) \<Rightarrow> string \<Rightarrow> (string \<Rightarrow> 'a option) \<Rightarrow> 'a \<Rightarrow> 'a" where
  "override getenv name parse old =
     (let v = trim_space (getenv name)
      in if v \<noteq> [] then (case parse v of Some x \<Rightarrow> x | None \<Rightarrow> old) else old)"

definition applyEnvOverrides ::
  "(string \<Rightarrow> int option) \<Rightarrow> (string \<Rightarrow> string) \<Rightarrow> app_config \<Rightarrow> app_config" where
  "applyEnvOverrides parseDuration getenv cfg =
     (let cfg = acAddr_update (override getenv ''TIMENOTES_ADDR'' Some) cfg;
          cfg = acDBPath_update (override getenv ''TIMENOTES_DB'' Some) cfg;
          cfg = acLogPath_update (override getenv ''TIMENOTES_LOG'' Some) cfg;
          cfg = acSecret_update (override getenv ''TIMENOTES_SECRET'' Some) cfg;
          cfg = acCORSOrigins_update (override getenv ''TIMENOTES_CORS_ORIGINS'' (\<lambda>v. Some (splitCSV v))) cfg;
          cfg = acLogMaxBytes_update (override getenv ''TIMENOTES_LOG_MAX_BYTES'' ParseInt) cfg;
          cfg = acMaxMessageBytes_update (override getenv ''TIMENOTES_MAX_MESSAGE_BYTES'' ParseInt) cfg;
          cfg = acMaxUpdateBytes_update (override getenv ''TIMENOTES_MAX_UPDATE_BYTES'' ParseInt) cfg;
          cfg = acMaxSnapshotBytes_update (override getenv ''TIMENOTES_MAX_SNAPSHOT_BYTES'' ParseInt) cfg;
          cfg = acRoomMaxStorageBytes_update (override getenv ''TIMENOTES_ROOM_MAX_STORAGE'' ParseInt) cfg;
          cfg = acMaxWSConnPerIPPerMinute_update (override getenv ''TIMENOTES_MAX_WS_CONN_PER_MIN'' ParseInt) cfg;
          cfg = acAuthTimeout_update (override getenv ''TIMENOTES_AUTH_TIMEOUT'' parseDuration) cfg;
          cfg = acRoomTTLDays_update (override getenv ''TIMENOTES_ROOM_TTL_DAYS'' ParseInt) cfg;
          cfg = acInsecureAllowDefaultSecret_update (override getenv ''TIMENOTES_INSECURE_DEFAULT_SECRET'' ParseBool) cfg;
          cfg = acMaxClientsPerRoom_update (override getenv ''TIMENOTES_MAX_CLIENTS_PER_ROOM'' ParseInt) cfg
      in acMaxGlobalRooms_update (override getenv ''TIMENOTES_MAX_GLOBAL_ROOMS'' ParseInt) cfg)"

section \<open>Validation\<close>

definition at_least :: "int \<Rightarrow> int \<Rightarrow> string \<Rightarrow> (string, unit) result \<Rightarrow> (string, unit) result" where
  "at_least v low what k = (if v < low then Inl (''config '' @ what) else k)"

definition validateConfig :: "app_config \<Rightarrow> (string, unit) result" where
  "validateConfig cfg =
     (if trim_space (acAddr cfg) = [] then Inl ''config addr cannot be empty''
      else if trim_space (acDBPath cfg) = [] then Inl ''config dbPath cannot be empty''
      else if trim_space (acLogPath cfg) = [] then Inl ''config logPath cannot be empty''
      else
        at_least (acLogMaxBytes cfg) 1024 ''logMaxBytes must be >= 1024'' (
        at_least (acMaxMessageBytes cfg) 1024 ''maxMessageBytes must be >= 1024'' (
        at_least (acMaxUpdateBytes cfg) 1024 ''maxUpdateBytes must be >= 1024'' (
        at_least (acMaxSnapshotBytes cfg) 1024 ''maxSnapshotBytes must be >= 1024'' (
        at_least (acRoomMaxStorageBytes cfg) 1024 ''roomMaxStorageBytes must be >= 1024'' (
        at_least (acAuthTimeout cfg) second ''authTimeout must be >= 1s'' (
        at_least (acReadDeadline cfg) second ''readDeadline must be >= 1s'' (
        at_least (acRoomTTLDays cfg) 1 ''roomTTLDays must be >= 1'' (
        at_least (acCleanupInterval cfg) minute ''cleanupInterval must be >= 1m'' (
        at_least (acMaxRoomsPerIPPerMinute cfg) 1 ''maxRoomsPerIPPerMinute must be >= 1'' (
        at_least (acMaxWSConnPerIPPerMinute cfg) 1 ''maxWSConnPerIPPerMinute must be >= 1'' (
        at_least (acMaxClientsPerRoom cfg) 0 ''maxClientsPerRoom must be >= 0'' (
        at_least (acMaxGlobalRooms cfg) 0 ''maxGlobalRooms must be >= 0'' (
          (let trimmedSecret = trim_space (acSecret cfg)
           in if \<not> acInsecureAllowDefaultSecret cfg \<and> \<not> addrIsLoopback (acAddr cfg) then
                (if trimmedSecret = [] \<or> trimmedSecret = devDefaultSecret then
                   Inl (''config secret must be set to a strong random value when listening on non-loopback addr '' @
                     ''(got default/empty); set '' @ [CHR 0x22] @ ''secret'' @ [CHR 0x22] @
                     '' in config.json or pass -insecure via TIMENOTES_INSECURE_DEFAULT_SECRET=1'')
                 else if length trimmedSecret < 16 then
                   Inl (''config secret must be at least 16 characters when listening on non-loopback addr (got '' @
                     show_nat (length trimmedSecret) @
                     '' chars); generate a long random value, e.g. openssl rand -hex 32'')
                 else Inr ())
              else Inr ())))))))))))))))"

section \<open>Loading\<close>

text \<open>\<open>json.Unmarshal\<close> of the file over a configuration; \<open>ConfigPath\<close> has no JSON name.\<close>

definition config_fields :: "(string \<times> app_config dec) list" where
  "config_fields =
     [(''addr'', field acAddr acAddr_update dec_string),
      (''dbPath'', field acDBPath acDBPath_update dec_string),
      (''logPath'', field acLogPath acLogPath_update dec_string),
      (''logMaxBytes'', field acLogMaxBytes acLogMaxBytes_update dec_int64),
      (''secret'', field acSecret acSecret_update dec_string),
      (''corsOrigins'', field acCORSOrigins acCORSOrigins_update (dec_list dec_string [])),
      (''allowLoopbackOrigins'', field acAllowLoopbackOrigins acAllowLoopbackOrigins_update dec_bool),
      (''maxMessageBytes'', field acMaxMessageBytes acMaxMessageBytes_update dec_int64),
      (''maxUpdateBytes'', field acMaxUpdateBytes acMaxUpdateBytes_update dec_int64),
      (''maxSnapshotBytes'', field acMaxSnapshotBytes acMaxSnapshotBytes_update dec_int64),
      (''roomMaxStorageBytes'', field acRoomMaxStorageBytes acRoomMaxStorageBytes_update dec_int64),
      (''authTimeout'', field acAuthTimeout acAuthTimeout_update dec_int64),
      (''readDeadline'', field acReadDeadline acReadDeadline_update dec_int64),
      (''roomTTLDays'', field acRoomTTLDays acRoomTTLDays_update dec_int64),
      (''cleanupInterval'', field acCleanupInterval acCleanupInterval_update dec_int64),
      (''maxRoomsPerIPPerMinute'', field acMaxRoomsPerIPPerMinute acMaxRoomsPerIPPerMinute_update dec_int64),
      (''maxWSConnPerIPPerMinute'', field acMaxWSConnPerIPPerMinute acMaxWSConnPerIPPerMinute_update dec_int64),
      (''maxClientsPerRoom'', field acMaxClientsPerRoom acMaxClientsPerRoom_update dec_int64),
      (''maxGlobalRooms'', field acMaxGlobalRooms acMaxGlobalRooms_update dec_int64),
      (''allowedServerHosts'', field acAllowedServerHosts acAllowedServerHosts_update (dec_list dec_string [])),
      (''trustedProxies'', field acTrustedProxies acTrustedProxies_update (dec_list dec_string [])),
      (''insecureAllowDefaultSecret'',
         field acInsecureAllowDefaultSecret acInsecureAllowDefaultSecret_update dec_bool)]"

definition dec_config :: "app_config dec" where
  "dec_config = dec_struct config_fields"

text \<open>What \<open>os.ReadFile\<close> finds; a body that is not JSON is None.\<close>

datatype file_read = FileMissing | FileUnreadable | FileBody "json option"

datatype load_error = ParseError | ReadError | Invalid string

definition loadConfig ::
  "(string \<Rightarrow> int option) \<Rightarrow> (string \<Rightarrow> string) \<Rightarrow> (string \<Rightarrow> file_read) \<Rightarrow> (load_error, app_config) result" where
  "loadConfig parseDuration getenv readFile =
     (let named = trim_space (getenv ''TIMENOTES_CONFIG'');
          configPath = (if named = [] then defaultConfigPath else named);
          cfg = defaultConfig\<lparr>acConfigPath := configPath\<rparr>;
          finish = (\<lambda>cfg. let cfg = applyEnvOverrides parseDuration getenv cfg
            in case validateConfig cfg of Inl e \<Rightarrow> Inl (Invalid e) | Inr _ \<Rightarrow> Inr cfg)
      in case readFile configPath of
           FileBody body \<Rightarrow>
             (case Option.bind body (\<lambda>v. dec_config v cfg) of
                None \<Rightarrow> Inl ParseError
              | Some cfg \<Rightarrow> finish (cfg\<lparr>acConfigPath := configPath\<rparr>))
         | FileMissing \<Rightarrow> if named \<noteq> [] then Inl ReadError else finish cfg
         | FileUnreadable \<Rightarrow> Inl ReadError)"

text \<open>The options \<open>main\<close> passes to \<open>NewHub\<close>, and the hub it makes.\<close>

definition hub_options_of :: "app_config \<Rightarrow> hub_options" where
  "hub_options_of cfg =
     \<lparr>hoMaxMessageBytes = acMaxMessageBytes cfg,
      hoMaxUpdateBytes = acMaxUpdateBytes cfg,
      hoMaxSnapshotBytes = acMaxSnapshotBytes cfg,
      hoRoomMaxStorageBytes = acRoomMaxStorageBytes cfg,
      hoAuthTimeout = acAuthTimeout cfg,
      hoReadDeadline = acReadDeadline cfg,
      hoRoomTTLDays = acRoomTTLDays cfg,
      hoCleanupInterval = acCleanupInterval cfg,
      hoMaxRoomsPerIPPerMinute = acMaxRoomsPerIPPerMinute cfg,
      hoMaxWSConnPerIPPerMinute = acMaxWSConnPerIPPerMinute cfg,
      hoAllowedServerHosts = acAllowedServerHosts cfg,
      hoTrustedProxies = acTrustedProxies cfg,
      hoMaxClientsPerRoom = acMaxClientsPerRoom cfg,
      hoMaxGlobalRooms = acMaxGlobalRooms cfg\<rparr>"

definition configured_hub :: "app_config \<Rightarrow> hub_cfg" where
  "configured_hub cfg = NewHub (acSecret cfg) (Some (hub_options_of cfg))"

end
