(* ===== verification/ConfigProps.thy ===== *)
theory ConfigProps
  imports Config
begin

text \<open>
  What the configuration guarantees: the bounds a validated configuration keeps, that the hub runs
  under exactly those limits, the strength of the secret, and the precedence of the sources.
\<close>

section \<open>Validation as a conjunction\<close>

lemma at_least_ok [simp]: "at_least v low what k = Inr () \<longleftrightarrow> low \<le> v \<and> k = Inr ()"
  by (simp add: at_least_def)

lemma validate_iff:
  "validateConfig cfg = Inr () \<longleftrightarrow>
     trim_space (acAddr cfg) \<noteq> [] \<and> trim_space (acDBPath cfg) \<noteq> [] \<and> trim_space (acLogPath cfg) \<noteq> []
     \<and> 1024 \<le> acLogMaxBytes cfg \<and> 1024 \<le> acMaxMessageBytes cfg \<and> 1024 \<le> acMaxUpdateBytes cfg
     \<and> 1024 \<le> acMaxSnapshotBytes cfg \<and> 1024 \<le> acRoomMaxStorageBytes cfg
     \<and> second \<le> acAuthTimeout cfg \<and> second \<le> acReadDeadline cfg \<and> 1 \<le> acRoomTTLDays cfg
     \<and> minute \<le> acCleanupInterval cfg \<and> 1 \<le> acMaxRoomsPerIPPerMinute cfg
     \<and> 1 \<le> acMaxWSConnPerIPPerMinute cfg \<and> 0 \<le> acMaxClientsPerRoom cfg \<and> 0 \<le> acMaxGlobalRooms cfg
     \<and> (acInsecureAllowDefaultSecret cfg \<or> addrIsLoopback (acAddr cfg)
        \<or> trim_space (acSecret cfg) \<noteq> [] \<and> trim_space (acSecret cfg) \<noteq> devDefaultSecret
          \<and> 16 \<le> length (trim_space (acSecret cfg)))"
  unfolding validateConfig_def Let_def by simp

section \<open>CSV lists\<close>

lemma trim_with_subset: "set (trim_with rs s) \<subseteq> set s"
  using trim_with_suffix [of s rs] by (metis Un_upper2 set_append)

lemma trim_space_subset: "set (trim_space s) \<subseteq> set s"
  using trim_with_subset [of "map rev space_runes" "rev (trim_left s)"] trim_with_subset [of space_runes s]
  by (auto simp: trim_space_def trim_right_def trim_left_def)

lemma splitCSV_parts:
  "p \<in> set (splitCSV v) \<Longrightarrow> p \<noteq> [] \<and> trim_space p = p \<and> CHR '','' \<notin> set p"
  using trim_space_subset split_char_no_sep by (fastforce simp: splitCSV_def)

lemma splitCSV_join: "splitCSV (join_with [CHR '',''] (splitCSV v)) = splitCSV v"
proof (cases "splitCSV v = []")
  case True
  then show ?thesis by (simp add: splitCSV_def)
next
  case False
  then have "split_char (CHR '','') (join_with [CHR '',''] (splitCSV v)) = splitCSV v"
    using splitCSV_parts by (intro split_join) auto
  moreover have "map trim_space (splitCSV v) = splitCSV v" using splitCSV_parts by (simp add: map_idI)
  moreover have "filter (\<lambda>p. p \<noteq> []) (splitCSV v) = splitCSV v" using splitCSV_parts by simp
  ultimately show ?thesis unfolding splitCSV_def [of "join_with [CHR '',''] (splitCSV v)"] by simp
qed

text \<open>What belongs to no white-space rune is never trimmed away.\<close>

lemma trim_with_keeps:
  "c \<in> set s \<Longrightarrow> (\<And>r. r \<in> set rs \<Longrightarrow> c \<notin> set r) \<Longrightarrow> c \<in> set (trim_with rs s)"
proof (induction rs s rule: trim_with.induct)
  case (1 rs s)
  show ?case
  proof (cases "find (\<lambda>r. r \<noteq> [] \<and> starts_with r s) rs")
    case None
    with 1 show ?thesis by (simp add: trim_with.simps [of rs s])
  next
    case (Some r)
    then have "r \<in> set rs" and "starts_with r s" by (auto simp: find_Some_iff)
    then have "s = r @ drop (length r) s" by (metis append_take_drop_id starts_with_def)
    with \<open>r \<in> set rs\<close> 1(2,3) have "c \<in> set (drop (length r) s)" by (metis Un_iff set_append)
    with 1(1) [OF Some] 1(3) Some show ?thesis by (simp add: trim_with.simps [of rs s])
  qed
qed

lemma trim_space_keeps:
  assumes "c \<in> set s" and "\<And>r. r \<in> set space_runes \<Longrightarrow> c \<notin> set r"
  shows "c \<in> set (trim_space s)"
  using assms by (auto simp: trim_space_def trim_right_def trim_left_def intro!: trim_with_keeps)

lemma port_only_loopback:
  assumes "CHR '':'' \<notin> set port" and "CHR ''['' \<notin> set port" and "CHR '']'' \<notin> set port"
  shows "addrIsLoopback (CHR '':'' # port)"
proof -
  have "takeWhile (\<lambda>x. x \<noteq> CHR '':'') (rev (CHR '':'' # port)) = rev port"
    using assms(1) by (simp, subst takeWhile_append2) auto
  then have "last_index (CHR '':'') (CHR '':'' # port) = Some 0" by (simp add: last_index_def)
  then have "SplitHostPort (CHR '':'' # port) = Some ([], port)"
    using assms(2,3) by (simp add: SplitHostPort_def)
  then show ?thesis by (simp add: addrIsLoopback_def)
qed

section \<open>Overrides\<close>

lemma override_twice [simp]: "override getenv name parse (override getenv name parse old) = override getenv name parse old"
  by (simp add: override_def Let_def split: option.split)

lemma apply_env_empty: "applyEnvOverrides pd (\<lambda>_. []) cfg = cfg"
  by (simp add: applyEnvOverrides_def override_def Let_def)

lemma apply_env_path: "acConfigPath (applyEnvOverrides pd getenv cfg) = acConfigPath cfg"
  by (simp add: applyEnvOverrides_def Let_def)

section \<open>Properties\<close>

text \<open>
  A configuration that passes validation is the one the hub runs under: every size, timeout,
  interval and rate limit is in its bounds and taken over as it is, none silently replaced by a
  default; the one exception is a member limit of 0, which becomes 20.
\<close>

lemma configured_limits_in_force:
  assumes "validateConfig cfg = Inr ()"
  shows "1024 \<le> hcMaxMessageBytes (configured_hub cfg) \<and> hcMaxMessageBytes (configured_hub cfg) = acMaxMessageBytes cfg
    \<and> 1024 \<le> hcMaxUpdateBytes (configured_hub cfg) \<and> hcMaxUpdateBytes (configured_hub cfg) = acMaxUpdateBytes cfg
    \<and> 1024 \<le> hcMaxSnapshotBytes (configured_hub cfg) \<and> hcMaxSnapshotBytes (configured_hub cfg) = acMaxSnapshotBytes cfg
    \<and> 1024 \<le> hcRoomMaxStorageBytes (configured_hub cfg) \<and> hcRoomMaxStorageBytes (configured_hub cfg) = acRoomMaxStorageBytes cfg
    \<and> second \<le> hcAuthTimeout (configured_hub cfg) \<and> hcAuthTimeout (configured_hub cfg) = acAuthTimeout cfg
    \<and> second \<le> hcReadDeadline (configured_hub cfg) \<and> hcReadDeadline (configured_hub cfg) = acReadDeadline cfg
    \<and> minute \<le> hcCleanupInterval (configured_hub cfg) \<and> hcCleanupInterval (configured_hub cfg) = acCleanupInterval cfg
    \<and> hcRoomTTLDays (configured_hub cfg) = acRoomTTLDays cfg
    \<and> hcMaxRoomsPerIPPerMinute (configured_hub cfg) = acMaxRoomsPerIPPerMinute cfg
    \<and> hcMaxWSConnPerIPPerMinute (configured_hub cfg) = acMaxWSConnPerIPPerMinute cfg
    \<and> hcMaxGlobalRooms (configured_hub cfg) = acMaxGlobalRooms cfg
    \<and> hcMaxClientsPerRoom (configured_hub cfg) = (if acMaxClientsPerRoom cfg = 0 then 20 else acMaxClientsPerRoom cfg)"
  using assms unfolding validate_iff
  by (simp add: configured_hub_def NewHub_def hub_options_of_def positive_or_def default_cfg_def Let_def
      second_def minute_def)

lemma configured_limits_in_force_example: "hcMaxUpdateBytes (configured_hub defaultConfig) = 8 * 1024 * 1024"
proof -
  have "validateConfig defaultConfig = Inr ()" by code_simp
  from configured_limits_in_force [OF this] show ?thesis by (simp add: defaultConfig_def)
qed



text \<open>
  But an address with a port alone, on which the server listens on every interface, counts as
  a loopback one: whatever the port, the check lets it run under the default secret.
\<close>

lemma all_interfaces_with_default_secret:
  assumes "CHR '':'' \<notin> set port" and "CHR ''['' \<notin> set port" and "CHR '']'' \<notin> set port"
  shows "validateConfig (defaultConfig\<lparr>acAddr := CHR '':'' # port\<rparr>) = Inr ()
    \<and> hcSecret (configured_hub (defaultConfig\<lparr>acAddr := CHR '':'' # port\<rparr>)) = devDefaultSecret"
proof
  have "CHR '':'' \<in> set (trim_space (CHR '':'' # port))"
    by (rule trim_space_keeps) (auto simp: space_runes_def)
  then have "trim_space (CHR '':'' # port) \<noteq> []" by auto
  moreover have "trim_space (acDBPath defaultConfig) \<noteq> []" "trim_space (acLogPath defaultConfig) \<noteq> []" by code_simp+
  ultimately show "validateConfig (defaultConfig\<lparr>acAddr := CHR '':'' # port\<rparr>) = Inr ()"
    using port_only_loopback [OF assms] unfolding validate_iff
    by (simp add: defaultConfig_def second_def minute_def hour_def)
  show "hcSecret (configured_hub (defaultConfig\<lparr>acAddr := CHR '':'' # port\<rparr>)) = devDefaultSecret"
    by (simp add: configured_hub_def NewHub_def default_cfg_def defaultConfig_def Let_def)
qed

lemma all_interfaces_with_default_secret_example:
  "hcSecret (configured_hub (defaultConfig\<lparr>acAddr := '':8787''\<rparr>)) = devDefaultSecret"
  using all_interfaces_with_default_secret [of "''8787''"] by simp

text \<open>
  The environment is applied once and for all: applying it again changes nothing, and an empty
  environment changes nothing.
\<close>

lemma overrides_idempotent:
  "applyEnvOverrides pd getenv (applyEnvOverrides pd getenv cfg) = applyEnvOverrides pd getenv cfg
   \<and> applyEnvOverrides pd (\<lambda>_. []) cfg = cfg"
  using apply_env_empty by (simp add: applyEnvOverrides_def Let_def)

text \<open>
  A list given in an environment variable is read as its entries, without white space and
  empty entries, and writing the entries back with commas and reading them again gives the same.
\<close>

lemma csv_roundtrip:
  "splitCSV (join_with '','' (splitCSV v)) = splitCSV v
   \<and> list_all (\<lambda>p. p \<noteq> [] \<and> trim_space p = p \<and> CHR '','' \<notin> set p) (splitCSV v)"
  using splitCSV_join splitCSV_parts by (auto simp: list_all_iff)

text \<open>
  \<open>loadConfig\<close> only returns validated configurations, and for every setting the environment wins
  over the file and the file over the default.
\<close>

lemma load_precedence:
  assumes "loadConfig pd getenv readFile = Inr cfg"
  shows "validateConfig cfg = Inr () \<and> (\<exists>base. cfg = applyEnvOverrides pd getenv base
    \<and> (base = defaultConfig\<lparr>acConfigPath := acConfigPath cfg\<rparr>
       \<or> (\<exists>v b. readFile (acConfigPath cfg) = FileBody (Some v)
            \<and> dec_config v (defaultConfig\<lparr>acConfigPath := acConfigPath cfg\<rparr>) = Some b
            \<and> base = b\<lparr>acConfigPath := acConfigPath cfg\<rparr>)))"
proof -
  define path where "path = (if trim_space (getenv ''TIMENOTES_CONFIG'') = [] then defaultConfigPath
    else trim_space (getenv ''TIMENOTES_CONFIG''))"
  define finish where "finish base = (case validateConfig (applyEnvOverrides pd getenv base) of
      Inl e \<Rightarrow> Inl (Invalid e) | Inr _ \<Rightarrow> Inr (applyEnvOverrides pd getenv base))" for base
  have final: "cfg = applyEnvOverrides pd getenv base \<and> validateConfig cfg = Inr () \<and> acConfigPath cfg = acConfigPath base"
    if "finish base = Inr cfg" for base
    using that apply_env_path [of pd getenv base] by (auto simp: finish_def split: sum.splits)
  have "finish (defaultConfig\<lparr>acConfigPath := path\<rparr>) = Inr cfg
      \<or> (\<exists>v b. readFile path = FileBody (Some v) \<and> dec_config v (defaultConfig\<lparr>acConfigPath := path\<rparr>) = Some b
          \<and> finish (b\<lparr>acConfigPath := path\<rparr>) = Inr cfg)"
    using assms unfolding loadConfig_def Let_def path_def [symmetric] finish_def [symmetric]
    by (auto split: file_read.splits option.splits if_splits bind_splits)
  then show ?thesis
  proof (elim disjE exE conjE)
    assume "finish (defaultConfig\<lparr>acConfigPath := path\<rparr>) = Inr cfg"
    note loaded = final [OF this]
    then have p: "acConfigPath cfg = path" by (elim conjE) simp
    show ?thesis unfolding p using loaded by blast
  next
    fix v b
    assume found: "readFile path = FileBody (Some v)" "dec_config v (defaultConfig\<lparr>acConfigPath := path\<rparr>) = Some b"
      and "finish (b\<lparr>acConfigPath := path\<rparr>) = Inr cfg"
    note loaded = final [OF this(3)]
    then have p: "acConfigPath cfg = path" by (elim conjE) simp
    show ?thesis unfolding p using loaded found by blast
  qed
qed

lemma load_precedence_example:
  "validateConfig (defaultConfig\<lparr>acConfigPath := ''config.json''\<rparr>) = Inr ()"
proof -
  have "validateConfig (defaultConfig\<lparr>acConfigPath := ''config.json''\<rparr>) = Inr ()" by code_simp
  then have "loadConfig (\<lambda>_. None) (\<lambda>_. []) (\<lambda>_. FileMissing) = Inr (defaultConfig\<lparr>acConfigPath := ''config.json''\<rparr>)"
    by (simp add: loadConfig_def Let_def apply_env_empty defaultConfigPath_def)
  from load_precedence [OF this] show ?thesis by simp
qed

text \<open>The configuration file the repository ships as an example (\<open>config.example.json\<close>).\<close>

definition example_config :: json where
  "example_config = JObj
     [(''addr'', JStr ''127.0.0.1:8787''), (''dbPath'', JStr ''data/timenotes-collab.db''),
      (''logPath'', JStr ''logs/timenotes-collab.log''), (''logMaxBytes'', JNum (JInt 5242880)),
      (''secret'', JStr ''replace-with-a-long-random-secret''),
      (''corsOrigins'', JArr [JStr ''http://127.0.0.1:9245'', JStr ''wails://wails.localhost'']),
      (''allowLoopbackOrigins'', JBool True), (''maxMessageBytes'', JNum (JInt 134217728)),
      (''maxUpdateBytes'', JNum (JInt 8388608)), (''maxSnapshotBytes'', JNum (JInt 67108864)),
      (''roomMaxStorageBytes'', JNum (JInt 536870912)), (''authTimeout'', JStr ''15s''),
      (''readDeadline'', JStr ''30s''), (''roomTTLDays'', JNum (JInt 30)), (''cleanupInterval'', JStr ''1h''),
      (''maxRoomsPerIPPerMinute'', JNum (JInt 10)), (''maxClientsPerRoom'', JNum (JInt 20)),
      (''maxGlobalRooms'', JNum (JInt 0)), (''allowedServerHosts'', JArr []),
      (''insecureAllowDefaultSecret'', JBool False)]"

text \<open>
  The example configuration cannot be loaded: its durations are written as text, which the
  decoder of a \<open>time.Duration\<close> field refuses, whatever the environment.
\<close>

lemma example_config_rejected:
  assumes "\<And>path. readFile path = FileBody (Some example_config)"
  shows "loadConfig pd getenv readFile = Inl ParseError"
proof -
  have "dec_config example_config cfg = None" for cfg
  proof -
    have "find_field config_fields ''authTimeout'' = Some (field acAuthTimeout acAuthTimeout_update dec_int64)"
      by (simp add: find_field_def config_fields_def)
    moreover have "field acAuthTimeout acAuthTimeout_update dec_int64 (JStr ''15s'') r = None" for r
      by (simp add: field_def)
    ultimately show ?thesis
      unfolding dec_config_def example_config_def dec_struct.simps
      by (rule dec_members_type_error [where k = "''authTimeout''" and v = "JStr ''15s''", rotated]) simp
  qed
  then show ?thesis by (simp add: loadConfig_def Let_def assms)
qed

lemma example_config_rejected_example:
  "loadConfig (\<lambda>_. None) (\<lambda>_. []) (\<lambda>_. FileBody (Some example_config)) = Inl ParseError"
  by (rule example_config_rejected) simp

end
