(* ===== verification/Http.thy ===== *)
theory Http
  imports Access Handlers
begin

text \<open>
  The HTTP side (\<open>internal/server/hub.go\<close>): creating a room (\<open>handleCreateRoom\<close>), the guard of
  the WebSocket route (\<open>RegisterRoutes\<close>) and the origin check both \<open>main\<close>'s CORS middleware and
  the guard use (\<open>allowOrigin\<close> of \<open>main.go\<close>).

  \<open>url.Parse\<close> is a parameter, because which hosts it accepts depends on the Go release: from a
  text the scheme (in lower case) and the host with its port, or None.  What is done with the
  result (\<open>Hostname\<close>, \<open>Port\<close>, \<open>QueryEscape\<close>) is modelled.  The request is what Fiber makes of it.
\<close>

record url =
  urlScheme :: string
  urlHost :: string

section \<open>net/url\<close>

definition validOptionalPort :: "string \<Rightarrow> bool" where
  "validOptionalPort port \<longleftrightarrow>
     port = [] \<or> (hd port = CHR '':'' \<and> list_all (\<lambda>c. digit_val c \<noteq> None) (tl port))"

definition url_splitHostPort :: "string \<Rightarrow> string \<times> string" where
  "url_splitHostPort hostPort =
     (let (host, port) = (case last_index (CHR '':'') hostPort of
            Some i \<Rightarrow> if validOptionalPort (drop i hostPort) then (take i hostPort, drop (Suc i) hostPort)
              else (hostPort, [])
          | None \<Rightarrow> (hostPort, []))
      in if 2 \<le> length host \<and> hd host = CHR ''['' \<and> last host = CHR '']''
         then (butlast (tl host), port) else (host, port))"

definition Hostname :: "url \<Rightarrow> string" where "Hostname u = fst (url_splitHostPort (urlHost u))"
definition Port :: "url \<Rightarrow> string" where "Port u = snd (url_splitHostPort (urlHost u))"

definition upper_hex :: string where "upper_hex = ''0123456789ABCDEF''"

definition unreserved :: "char \<Rightarrow> bool" where
  "unreserved c \<longleftrightarrow>
     c \<in> set ''ABCDEFGHIJKLMNOPQRSTUVWXYZabcdefghijklmnopqrstuvwxyz0123456789-_.~''"

definition QueryEscape :: "string \<Rightarrow> string" where
  "QueryEscape s = concat (map (\<lambda>c.
     if unreserved c then [c]
     else if c = CHR '' '' then ''+''
     else [CHR ''%'', upper_hex ! (of_char c div 16), upper_hex ! (of_char c mod 16)]) s)"

definition trim_right_char :: "char \<Rightarrow> string \<Rightarrow> string" where
  "trim_right_char c s = rev (dropWhile (\<lambda>x. x = c) (rev s))"

section \<open>Creating a room\<close>

record create_request =
  crServerURL :: string
  crAppURL :: string

record create_response =
  rsRoomID :: string
  rsRoomKey :: string
  rsWSURL :: string
  rsInviteURL :: string
  rsICEServers :: "string list list"

text \<open>Status, code and message of a refusal, or 201 with the new room.\<close>

datatype create_reply = CreateRefused nat string string | Created create_response

definition isAllowedServerHost :: "string list \<Rightarrow> string \<Rightarrow> bool" where
  "isAllowedServerHost allowed host =
     (if allowed = [] then True
      else (let hostLower = to_lower host in list_ex (\<lambda>item. equal_fold (trim_space item) hostLower) allowed))"

definition buildSTUNURL :: "(string \<Rightarrow> url option) \<Rightarrow> string \<Rightarrow> string" where
  "buildSTUNURL parseURL addr =
     (case parseURL addr of
        None \<Rightarrow> addr
      | Some parsed \<Rightarrow>
          (let port = (if Port parsed = [] then (if urlScheme parsed = ''https'' then ''443'' else ''80'')
                       else Port parsed);
               host = Hostname parsed;
               host = (if CHR '':'' \<in> set host then ''['' @ host @ '']'' else host)
           in ''stun:'' @ host @ '':'' @ port))"

definition check_server_url :: "(string \<Rightarrow> url option) \<Rightarrow> string list \<Rightarrow> string \<Rightarrow> create_reply option" where
  "check_server_url parseURL allowed serverURL =
     (if serverURL = [] then None
      else case parseURL (trim_space serverURL) of
        None \<Rightarrow> Some (CreateRefused 400 ''bad_server_url'' txt_bad_server_url)
      | Some parsed \<Rightarrow>
          if urlScheme parsed = [] \<or> urlHost parsed = [] then
            Some (CreateRefused 400 ''bad_server_url'' txt_bad_server_url)
          else if urlScheme parsed \<noteq> ''http'' \<and> urlScheme parsed \<noteq> ''https'' then
            Some (CreateRefused 400 ''bad_server_url'' txt_bad_server_scheme)
          else if \<not> isAllowedServerHost allowed (urlHost parsed) then
            Some (CreateRefused 400 ''server_host_not_allowed'' txt_host_not_allowed)
          else None)"

definition check_app_url :: "(string \<Rightarrow> url option) \<Rightarrow> string \<Rightarrow> create_reply option" where
  "check_app_url parseURL appURL =
     (if appURL = [] then None
      else case parseURL (trim_space appURL) of
        None \<Rightarrow> Some (CreateRefused 400 ''bad_app_url'' txt_bad_app_url)
      | Some parsed \<Rightarrow>
          if urlScheme parsed = [] then Some (CreateRefused 400 ''bad_app_url'' txt_bad_app_url)
          else if urlScheme parsed \<in> {''http'', ''https'', ''timenotes'', ''wails''} then None
          else Some (CreateRefused 400 ''bad_app_url'' txt_bad_app_scheme))"

definition room_links ::
  "(string \<Rightarrow> url option) \<Rightarrow> create_request \<Rightarrow> string \<Rightarrow> string \<Rightarrow> create_response" where
  "room_links parseURL req roomID roomKey =
     (if crServerURL req = [] then
        \<lparr>rsRoomID = roomID, rsRoomKey = roomKey, rsWSURL = [], rsInviteURL = [], rsICEServers = []\<rparr>
      else
        (let parsed = the (parseURL (trim_space (crServerURL req)));
             wsURL = (if urlScheme parsed = ''https'' then ''wss://'' else ''ws://'') @ urlHost parsed @ ''/ws/collab'';
             stun = buildSTUNURL parseURL (crServerURL req);
             inviteURL = (if trim_space (crAppURL req) = [] then []
               else trim_right_char (CHR ''/'') (crAppURL req) @ ''#server='' @ QueryEscape (crServerURL req) @
                 ''&roomId='' @ roomID @ ''&roomKey='' @ roomKey)
         in \<lparr>rsRoomID = roomID, rsRoomKey = roomKey, rsWSURL = wsURL, rsInviteURL = inviteURL,
             rsICEServers = (if stun \<noteq> [] then [[stun]] else [])\<rparr>))"

text \<open>
  \<open>handleCreateRoom\<close> for a request from the address \<open>ip\<close> at time \<open>now\<close> (\<open>clock\<close> is the text of
  it): \<open>body\<close> is the bound body, None when it cannot be bound.  The limiter table and the
  database are changed.
\<close>

definition handleCreateRoom ::
  "(string \<Rightarrow> url option) \<Rightarrow> (string \<Rightarrow> string \<Rightarrow> string) \<Rightarrow> (int \<Rightarrow> 'l) \<Rightarrow> (time \<Rightarrow> 'l \<Rightarrow> bool \<times> 'l) \<Rightarrow> hub_cfg
     \<Rightarrow> time \<Rightarrow> string \<Rightarrow> fails \<Rightarrow> bytes option \<Rightarrow> bytes option \<Rightarrow> string \<Rightarrow> create_request option
     \<Rightarrow> 'l table \<Rightarrow> db \<Rightarrow> create_reply \<times> 'l table \<times> db" where
  "handleCreateRoom parseURL hmac new allow cfg now clock fail idrnd keyrnd ip body limiters db =
     (let (ok, limiters) = checkIPRateLimit new allow (hcMaxRoomsPerIPPerMinute cfg) now ip limiters
      in if \<not> ok then (CreateRefused 429 ''rate_limited'' txt_rate_limited, limiters, db)
         else case body of
           None \<Rightarrow> (CreateRefused 400 ''bad_request'' txt_bad_request, limiters, db)
         | Some req \<Rightarrow>
             (case check_server_url parseURL (hcAllowedServerHosts cfg) (crServerURL req) of
                Some refused \<Rightarrow> (refused, limiters, db)
              | None \<Rightarrow>
                  (case check_app_url parseURL (crAppURL req) of
                     Some refused \<Rightarrow> (refused, limiters, db)
                   | None \<Rightarrow>
                       (let roomID = NewID ''room'' idrnd; roomKey = NewSecret ''rk'' keyrnd
                        in case EnsureRoom fail clock roomID (roomKeyHash hmac (hcSecret cfg) roomID roomKey) db of
                             (Inl _, db) \<Rightarrow>
                               (CreateRefused 500 ''create_room_failed'' txt_create_room_failed, limiters, db)
                           | (Inr _, db) \<Rightarrow> (Created (room_links parseURL req roomID roomKey), limiters, db)))))"

section \<open>The WebSocket route\<close>

definition allowOrigin :: "(string \<Rightarrow> url option) \<Rightarrow> string \<Rightarrow> string list \<Rightarrow> bool \<Rightarrow> bool" where
  "allowOrigin parseURL origin configuredOrigins allowLoopback =
     (let origin = trim_space origin
      in if origin = [] then False
         else if list_ex (\<lambda>item. equal_fold (trim_space item) origin) configuredOrigins then True
         else if \<not> allowLoopback then False
         else case parseURL origin of
           None \<Rightarrow> False
         | Some parsed \<Rightarrow>
             if urlScheme parsed \<notin> {''http'', ''https'', ''wails''} then False
             else
               (let host = to_lower (Hostname parsed)
                in if host = ''localhost'' \<or> host = ''wails.localhost'' then True
                   else case ParseIP host of None \<Rightarrow> False | Some ip \<Rightarrow> IsLoopback ip))"

datatype guard = UpgradeRequired | Forbidden | TooManyRequests | Upgrade

text \<open>
  The handler in front of \<open>/ws/collab\<close>: whether the request is an upgrade, its Origin header (empty
  when absent), \<open>allowed\<close> the origin check, and the limiter of WebSocket connections.
\<close>

definition ws_guard ::
  "(string \<Rightarrow> bool) \<Rightarrow> (int \<Rightarrow> 'l) \<Rightarrow> (time \<Rightarrow> 'l \<Rightarrow> bool \<times> 'l) \<Rightarrow> hub_cfg \<Rightarrow> time \<Rightarrow> string \<Rightarrow> bool \<Rightarrow> string
     \<Rightarrow> 'l table \<Rightarrow> guard \<times> 'l table" where
  "ws_guard allowed new allow cfg now ip isUpgrade originHeader limiters =
     (if \<not> isUpgrade then (UpgradeRequired, limiters)
      else
        (let origin = trim_space originHeader
         in if origin \<noteq> [] \<and> \<not> allowed origin then (Forbidden, limiters)
            else
              (let (ok, limiters) = checkIPRateLimit new allow (hcMaxWSConnPerIPPerMinute cfg) now ip limiters
               in (if ok then Upgrade else TooManyRequests, limiters))))"

end
