(* ===== verification/HttpProps.thy ===== *)
theory HttpProps
  imports Http StoreProps Demo "HOL-Library.Sublist"
begin

text \<open>
  What creating a room gives: a key that opens the room from then on and is the only one that
  does, links that go nowhere but to an allowed host, and the origin policy.
\<close>

section \<open>Texts that need no trimming\<close>

lemma hex_chars: "set (hex_encode bs) \<subseteq> set hex_digits"
proof (induction bs)
  case (Cons b bs)
  have "unat b div 16 < length hex_digits" "unat b mod 16 < length hex_digits"
    using unsigned_less [of b, where ?'a = nat] by (simp_all add: hex_digits_def)
  with Cons show ?case by simp
qed simp

lemma plain_append [simp]: "plain (a @ b) \<longleftrightarrow> plain a \<and> plain b"
  by (simp add: plain_def)

lemma plain_subset: "set a \<subseteq> set b \<Longrightarrow> plain b \<Longrightarrow> plain a"
  by (auto simp: plain_def list_all_iff)

lemma plain_texts: "plain hex_digits" "plain url_alphabet"
  by code_simp+

lemma plain_Cons [simp]: "plain (c # s) \<longleftrightarrow> (32 :: nat) < of_char c \<and> (of_char c :: nat) < 128 \<and> plain s"
  by (auto simp: plain_def)

lemma trim_room_id: "trim_space (NewID ''room'' rnd) = NewID ''room'' rnd"
proof -
  have "plain ''room-fallback''" "plain ''room-''" by code_simp+
  then show ?thesis
    using plain_subset [OF hex_chars plain_texts(1)]
    by (intro trim_space_plain) (simp add: NewID_def split: option.split)
qed

lemma trim_room_key: "trim_space (NewSecret ''rk'' rnd) = NewSecret ''rk'' rnd"
proof -
  have "plain ''rk-fallback''" "plain ''rk-''" by code_simp+
  then show ?thesis
    using plain_subset [OF raw_url_encode_alphabet plain_texts(2)]
    by (intro trim_space_plain) (simp add: NewSecret_def split: option.split)
qed

lemma NewSecret_nonempty [simp]: "NewSecret pre rnd \<noteq> []"
  by (simp add: NewSecret_def split: option.split)

section \<open>Authentication against the stored key\<close>

lemma auth_known_room:
  assumes "store_inv db" and "now \<noteq> []" and "open_with db rid h"
    and "eType frame = TypeAuth" and "DecodePayload dec_auth zero_auth (payload_json frame) = Inr p"
    and "trim_space (auRoomID p) = rid" "rid \<noteq> []" and "trim_space (auRoomKey p) = key" "key \<noteq> []"
  shows "if roomKeyHash hmac (hcSecret cfg) rid key = h
    then (\<exists>cl s. fst (handleSocket_auth hmac cfg st rnd no_fails no_fails now joinedAt (Some frame) db) = AuthAccepted cl s
           \<and> cRoomID cl = rid)
    else fst (handleSocket_auth hmac cfg st rnd no_fails no_fails now joinedAt (Some frame) db)
           = auth_error st ''room_key_invalid'' txt_room_unavailable"
proof -
  obtain a where a: "abs db rid = Some a" "aKeyHash a = h" "\<not> aClosed a"
    using assms(3) by (auto simp: open_with_def split: option.splits)
  let ?k = "roomKeyHash hmac (hcSecret cfg) rid key"
  obtain r db' where e: "EnsureRoom no_fails now rid ?k db = (r, db')" by fastforce
  have "fst (EnsureRoom no_fails now rid ?k db) = fst (ensure_spec now rid ?k (abs db))"
    by (rule ensure_outcome [OF assms(1,2)]) (simp_all add: no_fails_def)
  then have "r = (if h \<noteq> ?k then Inl ErrRoomKeyMismatch else Inr ())"
    by (simp add: e ensure_spec_def a)
  then have r: "r = (if ?k = h then Inr () else Inl ErrRoomKeyMismatch)" by auto
  show ?thesis
  proof (cases "?k = h")
    case True
    with e r show ?thesis
      by (simp add: handleSocket_auth_def assms(4-9) Let_def LoadRoomState_def no_fails_def new_client_def)
  next
    case False
    with e r show ?thesis by (simp add: handleSocket_auth_def assms(4-9) Let_def)
  qed
qed

lemma room_links_sel [simp]:
  "rsRoomID (room_links parseURL req rid key) = rid" "rsRoomKey (room_links parseURL req rid key) = key"
  by (simp_all add: room_links_def Let_def)

lemma checks_refuse:
  "check_server_url parseURL allowed u \<noteq> Some (Created r)" "check_app_url parseURL a \<noteq> Some (Created r)"
  by (simp_all add: check_server_url_def check_app_url_def Let_def split: option.split)

lemma created_cases:
  assumes "handleCreateRoom parseURL hmac new allow cfg t clock fail idrnd keyrnd ip body limiters db = (Created resp, limiters', db')"
  shows "\<exists>req x. body = Some req \<and> resp = room_links parseURL req (NewID ''room'' idrnd) (NewSecret ''rk'' keyrnd)
    \<and> check_server_url parseURL (hcAllowedServerHosts cfg) (crServerURL req) = None
    \<and> check_app_url parseURL (crAppURL req) = None
    \<and> EnsureRoom fail clock (rsRoomID resp) (roomKeyHash hmac (hcSecret cfg) (rsRoomID resp) (rsRoomKey resp)) db = (Inr x, db')
    \<and> fst (checkIPRateLimit new allow (hcMaxRoomsPerIPPerMinute cfg) t ip limiters)"
  using assms unfolding handleCreateRoom_def Let_def
  by (auto simp: checks_refuse split: prod.splits if_splits option.splits sum.splits)

lemma server_url_checked:
  assumes "check_server_url parseURL allowed serverURL = None" and "serverURL \<noteq> []"
  shows "\<exists>u. parseURL (trim_space serverURL) = Some u \<and> urlHost u \<noteq> [] \<and> urlScheme u \<in> {''http'', ''https''}
    \<and> (allowed = [] \<or> list_ex (\<lambda>item. equal_fold (trim_space item) (to_lower (urlHost u))) allowed)"
  using assms by (auto simp: check_server_url_def isAllowedServerHost_def Let_def split: option.splits if_splits)

lemma allowOrigin_trim: "allowOrigin parseURL (trim_space x) configured loopback = allowOrigin parseURL x configured loopback"
  by (simp add: allowOrigin_def)

section \<open>Properties\<close>

text \<open>
  C21: The key of a room opens it, and nothing else does.  After a room is created, and whatever
  the store does in the meantime short of closing it or purging old rooms, a client that
  authenticates with the returned id and key is let in; with any other key, unless its keyed
  hash collides, it is turned away.
\<close>

theorem created_key_opens_room:
  assumes "store_inv db" and "clock \<noteq> []"
    and "handleCreateRoom parseURL hmac new allow cfg t clock fail idrnd keyrnd ip body limiters db = (Created resp, limiters', db')"
    and "clocked ops" and "list_all (keeps_open (rsRoomID resp)) ops" and "db'' = foldl (sqlite_step bind fk) db' ops"
    and "now \<noteq> []" and "eType frame = TypeAuth" and "DecodePayload dec_auth zero_auth (payload_json frame) = Inr p"
    and "trim_space (auRoomID p) = rsRoomID resp" and "trim_space (auRoomKey p) = key" and "key \<noteq> []"
  shows "rsRoomKey resp \<noteq> [] \<and> trim_space (rsRoomKey resp) = rsRoomKey resp \<and>
    (if roomKeyHash hmac (hcSecret cfg) (rsRoomID resp) key = roomKeyHash hmac (hcSecret cfg) (rsRoomID resp) (rsRoomKey resp)
     then (\<exists>cl s. fst (handleSocket_auth hmac cfg st rnd no_fails no_fails now joinedAt (Some frame) db'') = AuthAccepted cl s
             \<and> cRoomID cl = rsRoomID resp)
     else fst (handleSocket_auth hmac cfg st rnd no_fails no_fails now joinedAt (Some frame) db'')
             = auth_error st ''room_key_invalid'' txt_room_unavailable)"
proof -
  from created_cases [OF assms(3)] obtain x
    where e: "EnsureRoom fail clock (rsRoomID resp) (roomKeyHash hmac (hcSecret cfg) (rsRoomID resp) (rsRoomKey resp)) db = (Inr x, db')"
      and rid: "rsRoomID resp = NewID ''room'' idrnd" and key: "rsRoomKey resp = NewSecret ''rk'' keyrnd"
    by auto
  note opened = ensure_accepts [OF assms(1,2) e]
  from open_run [OF conjunct1 [OF opened] conjunct1 [OF conjunct2 [OF opened]] assms(4,5), of bind fk] assms(6)
  have db'': "store_inv db''" "open_with db'' (rsRoomID resp)
      (roomKeyHash hmac (hcSecret cfg) (rsRoomID resp) (rsRoomKey resp))" by simp_all
  have "rsRoomID resp \<noteq> []" by (simp add: rid)
  from auth_known_room [OF db''(1) assms(7) db''(2) assms(8-10) this assms(11,12), of hmac cfg st rnd joinedAt]
  show ?thesis by (simp add: key trim_room_key)
qed

text \<open>A room created on an empty database, whose key is then guessed wrongly.\<close>

definition created_db :: db where
  "created_db = snd (EnsureRoom no_fails ''t1'' ''room-fallback'' (''room-fallback'' @ [CHR 0x00] @ ''rk-fallback'') empty_db)"

definition guess_frame :: envelope where
  "guess_frame = json_frame TypeAuth [(''roomId'', JStr ''room-fallback''), (''roomKey'', JStr ''guess'')]"

theorem created_key_opens_room_witness:
  "fst (handleSocket_auth (\<lambda>secret x. x) (default_cfg ''s'') (None, ''t2'') None no_fails no_fails ''t2'' 0
      (Some guess_frame) created_db) = auth_error (None, ''t2'') ''room_key_invalid'' txt_room_unavailable"
proof -
  let ?req = "\<lparr>crServerURL = [], crAppURL = []\<rparr>"
  let ?resp = "room_links (\<lambda>_. None) ?req ''room-fallback'' ''rk-fallback''"
  have created: "handleCreateRoom (\<lambda>_. None) (\<lambda>secret x. x) (\<lambda>m. ()) (\<lambda>t l. (True, l)) (default_cfg ''s'') 0 ''t1'' no_fails
      None None ''a'' (Some ?req) Map.empty empty_db = (Created ?resp, [''a'' \<mapsto> \<lparr>limiter = (), lastUse = 0\<rparr>], created_db)"
    by (simp add: handleCreateRoom_def checkIPRateLimit_def check_server_url_def check_app_url_def NewID_def
        NewSecret_def roomKeyHash_def EnsureRoom_def no_fails_def empty_db_def select_room_def insert_room_def created_db_def Let_def)
  have decoded: "DecodePayload dec_auth zero_auth (payload_json guess_frame)
      = Inr \<lparr>auRoomID = ''room-fallback'', auRoomKey = ''guess'', auUser = zero_user\<rparr>"
    by code_simp
  have "plain ''room-fallback''" "plain ''guess''" by code_simp+
  then have trims: "trim_space ''room-fallback'' = ''room-fallback''" "trim_space ''guess'' = ''guess''"
    by (simp_all only: trim_space_plain)
  have type: "eType guess_frame = TypeAuth" by (simp add: guess_frame_def json_frame_def)
  from created_key_opens_room [where ops = "[]" and bind = id and fk = True and st = "(None, ''t2'')" and rnd = None
      and joinedAt = 0 and now = "''t2''" and key = "''guess''", OF store_inv_empty _ created _ _ refl _ type decoded]
  show ?thesis by (simp add: clocked_def trims roomKeyHash_def default_cfg_def)
qed

text \<open>
  The links of a new room lead nowhere but to the server the client asked for, and only when
  that is allowed: it is an http or https address, its host is on the list when there is one,
  and the WebSocket link has that very host, encrypted exactly for https.
\<close>

lemma created_links_allowed:
  assumes "handleCreateRoom parseURL hmac new allow cfg t clock fail idrnd keyrnd ip body limiters db = (Created resp, limiters', db')"
    and "body = Some req" and "crServerURL req \<noteq> []"
  shows "\<exists>u. parseURL (trim_space (crServerURL req)) = Some u \<and> urlHost u \<noteq> []
    \<and> rsWSURL resp = (if urlScheme u = ''https'' then ''wss://'' else ''ws://'') @ urlHost u @ ''/ws/collab''
    \<and> urlScheme u \<in> {''http'', ''https''}
    \<and> (hcAllowedServerHosts cfg = [] \<or>
        list_ex (\<lambda>item. equal_fold (trim_space item) (to_lower (urlHost u))) (hcAllowedServerHosts cfg))"
proof -
  from created_cases [OF assms(1)] assms(2)
  have resp: "resp = room_links parseURL req (NewID ''room'' idrnd) (NewSecret ''rk'' keyrnd)"
    and ok: "check_server_url parseURL (hcAllowedServerHosts cfg) (crServerURL req) = None" by auto
  from server_url_checked [OF ok assms(3)] obtain u where "parseURL (trim_space (crServerURL req)) = Some u"
    and "urlHost u \<noteq> [] \<and> urlScheme u \<in> {''http'', ''https''} \<and> (hcAllowedServerHosts cfg = [] \<or>
      list_ex (\<lambda>item. equal_fold (trim_space item) (to_lower (urlHost u))) (hcAllowedServerHosts cfg))" by blast
  moreover from this(1) have "rsWSURL resp = (if urlScheme u = ''https'' then ''wss://'' else ''ws://'') @ urlHost u @ ''/ws/collab''"
    using assms(3) by (simp add: resp room_links_def Let_def)
  ultimately show ?thesis by blast
qed

lemma created_links_allowed_example:
  "rsWSURL (room_links (\<lambda>_. Some \<lparr>urlScheme = ''https'', urlHost = ''h''\<rparr>) \<lparr>crServerURL = ''https://h'', crAppURL = []\<rparr>
      ''room-fallback'' ''rk-fallback'') = ''wss://h/ws/collab''"
proof -
  let ?parse = "\<lambda>_. Some \<lparr>urlScheme = ''https'', urlHost = ''h''\<rparr>"
  let ?req = "\<lparr>crServerURL = ''https://h'', crAppURL = []\<rparr>"
  have "handleCreateRoom ?parse (\<lambda>secret x. x) (\<lambda>m. ()) (\<lambda>t l. (True, l)) (default_cfg ''s'') 0 ''t1'' no_fails
      None None ''a'' (Some ?req) Map.empty empty_db
    = (Created (room_links ?parse ?req ''room-fallback'' ''rk-fallback''), [''a'' \<mapsto> \<lparr>limiter = (), lastUse = 0\<rparr>], created_db)"
    by (simp add: handleCreateRoom_def checkIPRateLimit_def check_server_url_def check_app_url_def NewID_def
        NewSecret_def roomKeyHash_def EnsureRoom_def no_fails_def empty_db_def select_room_def insert_room_def
        created_db_def isAllowedServerHost_def default_cfg_def Let_def)
  from created_links_allowed [OF this refl] show ?thesis by simp
qed

text \<open>
  The room key is never sent to a web server: in the invitation link everything about the room
  comes after the first number sign, so before it stands only what the client gave as the
  application's address.
\<close>

lemma invite_key_in_fragment:
  "prefix (takeWhile (\<lambda>c. c \<noteq> CHR ''#'') (rsInviteURL (room_links parseURL req roomID roomKey))) (crAppURL req)"
proof -
  have cut: "takeWhile (\<lambda>c. c \<noteq> CHR ''#'') (xs @ CHR ''#'' # ys) = takeWhile (\<lambda>c. c \<noteq> CHR ''#'') xs" for xs ys
    by (induction xs) auto
  have "prefix (takeWhile P xs) xs" for P and xs :: string
    by (metis prefixI takeWhile_dropWhile_id)
  moreover have "prefix (trim_right_char c s) s" for c s
    unfolding trim_right_char_def by (metis prefixI rev_append rev_rev_ident takeWhile_dropWhile_id)
  ultimately have "prefix (takeWhile P (trim_right_char c s)) s" for P c s
    using prefix_order.trans by blast
  then show ?thesis by (auto simp: room_links_def Let_def cut)
qed

text \<open>
  The origin policy: an origin is let through when it is configured, compared without case and
  surrounding white space, or when loopback origins are allowed and it is an http, https or wails
  address of this machine; nothing else is, and a missing origin is not.
\<close>

lemma origin_policy:
  "allowOrigin parseURL origin configured allowLoopback \<longleftrightarrow>
     trim_space origin \<noteq> [] \<and>
     (list_ex (\<lambda>item. equal_fold (trim_space item) (trim_space origin)) configured
      \<or> (allowLoopback \<and> (\<exists>u. parseURL (trim_space origin) = Some u \<and> urlScheme u \<in> {''http'', ''https'', ''wails''}
           \<and> (to_lower (Hostname u) \<in> {''localhost'', ''wails.localhost''}
              \<or> (\<exists>ip. ParseIP (to_lower (Hostname u)) = Some ip \<and> IsLoopback ip)))))"
  by (auto simp: allowOrigin_def Let_def split: option.splits)

text \<open>
  No cross-site WebSocket: a request that carries an origin is upgraded only if the policy lets
  the origin through, and a rejected one does not count against the address's limit.
\<close>

lemma cross_site_upgrade_refused:
  assumes "ws_guard (\<lambda>x. allowOrigin parseURL x configured loopback) new allow cfg t ip isUpgrade originHeader limiters = (g, limiters')"
  shows "(g = Upgrade \<longrightarrow> isUpgrade \<and> (trim_space originHeader = [] \<or> allowOrigin parseURL originHeader configured loopback))
    \<and> (g = Forbidden \<longrightarrow> limiters' = limiters)"
  using assms by (auto simp: ws_guard_def Let_def allowOrigin_trim split: if_splits prod.splits)

lemma cross_site_upgrade_refused_example:
  "fst (ws_guard (\<lambda>x. allowOrigin (\<lambda>_. None) x [''https://notes''] True) (\<lambda>m. ()) (\<lambda>t l. (True, l)) (default_cfg ''s'') 0
      ''a'' True ''https://evil'' Map.empty) \<noteq> Upgrade"
proof
  assume up: "fst (ws_guard (\<lambda>x. allowOrigin (\<lambda>_. None) x [''https://notes''] True) (\<lambda>m. ()) (\<lambda>t l. (True, l)) (default_cfg ''s'') 0
      ''a'' True ''https://evil'' Map.empty) = Upgrade"
  have "plain ''https://evil''" "plain ''https://notes''" by code_simp+
  then have "trim_space ''https://evil'' \<noteq> []" "\<not> allowOrigin (\<lambda>_. None) ''https://evil'' [''https://notes''] True"
    by (simp_all add: trim_space_plain allowOrigin_def equal_fold_def to_lower_char_def starts_with_def)
  with cross_site_upgrade_refused [OF prod.collapse [symmetric], of "\<lambda>_. None" "[''https://notes'']" True "\<lambda>m. ()"
      "\<lambda>t l. (True, l)" "default_cfg ''s''" 0 "''a''" True "''https://evil''" Map.empty] up
  show False by simp
qed

end
