(* ===== verification/Serializer.thy ===== *)
theory Serializer
  imports Prelude
begin

text \<open>
  The write permits of \<open>internal/server/hub.go\<close>: \<open>roomSerializer\<close>, \<open>acquireRoomWrite\<close> and
  \<open>releaseRoomWrite\<close>, and the line of \<open>leaveRoom\<close> that forgets a room's channel.  A permit is a
  channel of capacity one; sending fills it and holds the permit, receiving gives it back.  A
  channel is a number, \<open>srFull\<close> the set of those that are full; each goroutine is idle, waits to
  send into the channel it looked up, or holds it.  The steps of the goroutines interleave freely.
\<close>

datatype permit = Idle | Acquiring string nat | Holding string nat

record serial =
  srChan :: "string \<rightharpoonup> nat"
  srNext :: nat
  srFull :: "nat set"
  srPermit :: "nat \<Rightarrow> permit"

definition no_permits :: serial where
  "no_permits = \<lparr>srChan = Map.empty, srNext = 0, srFull = {}, srPermit = (\<lambda>_. Idle)\<rparr>"

definition roomSerializer :: "string \<Rightarrow> serial \<Rightarrow> nat \<times> serial" where
  "roomSerializer roomID s =
     (case srChan s roomID of
        Some ch \<Rightarrow> (ch, s)
      | None \<Rightarrow> (let ch = srNext s in (ch, s\<lparr>srChan := (srChan s)(roomID \<mapsto> ch), srNext := Suc ch\<rparr>)))"

definition forget_serializer :: "string \<Rightarrow> serial \<Rightarrow> serial" where
  "forget_serializer roomID s = s\<lparr>srChan := (srChan s)(roomID := None)\<rparr>"

definition set_permit :: "nat \<Rightarrow> permit \<Rightarrow> serial \<Rightarrow> serial" where
  "set_permit g p s = s\<lparr>srPermit := (srPermit s)(g := p)\<rparr>"

text \<open>
  \<open>acquireRoomWrite\<close> looks the channel up and then blocks in a \<open>select\<close>: it sends when the channel
  is empty, or gives up when the timer fires.
\<close>

datatype move = Look nat string | Take nat | GiveUp nat | Release nat | Forget string

inductive permit_step :: "serial \<Rightarrow> move \<Rightarrow> serial \<Rightarrow> bool" where
  look: "srPermit s g = Idle \<Longrightarrow> roomSerializer roomID s = (ch, s') \<Longrightarrow>
    permit_step s (Look g roomID) (set_permit g (Acquiring roomID ch) s')"
| take: "srPermit s g = Acquiring roomID ch \<Longrightarrow> ch \<notin> srFull s \<Longrightarrow>
    permit_step s (Take g) (set_permit g (Holding roomID ch) (s\<lparr>srFull := insert ch (srFull s)\<rparr>))"
| give_up: "srPermit s g = Acquiring roomID ch \<Longrightarrow> permit_step s (GiveUp g) (set_permit g Idle s)"
| release: "srPermit s g = Holding roomID ch \<Longrightarrow>
    permit_step s (Release g) (set_permit g Idle (s\<lparr>srFull := srFull s - {ch}\<rparr>))"
| forget: "permit_step s (Forget roomID) (forget_serializer roomID s)"

inductive_cases permit_stepE: "permit_step s m s'"

inductive permit_run :: "serial \<Rightarrow> move list \<Rightarrow> serial \<Rightarrow> bool" for s where
  start: "permit_run s [] s"
| step: "permit_run s ms t \<Longrightarrow> permit_step t m u \<Longrightarrow> permit_run s (ms @ [m]) u"

section \<open>The invariant\<close>

fun channel :: "permit \<Rightarrow> nat option" where
  "channel Idle = None"
| "channel (Acquiring roomID ch) = Some ch"
| "channel (Holding roomID ch) = Some ch"

definition permits_ok :: "serial \<Rightarrow> bool" where
  "permits_ok s \<longleftrightarrow>
     (\<forall>roomID ch. srChan s roomID = Some ch \<longrightarrow> ch < srNext s)
     \<and> (\<forall>g ch. channel (srPermit s g) = Some ch \<longrightarrow> ch < srNext s)
     \<and> (\<forall>g roomID ch. srPermit s g = Holding roomID ch \<longrightarrow> ch \<in> srFull s)
     \<and> (\<forall>g h roomID roomID' ch. srPermit s g = Holding roomID ch \<longrightarrow> srPermit s h = Holding roomID' ch \<longrightarrow> g = h)"

lemma permits_ok_start: "permits_ok no_permits"
  by (simp add: permits_ok_def no_permits_def)

lemma roomSerializer_sel:
  assumes "roomSerializer roomID s = (ch, s')" and "permits_ok s"
  shows "srFull s' = srFull s" "srPermit s' = srPermit s" "srNext s \<le> srNext s'" "ch < srNext s'"
    "srChan s' = (srChan s)(roomID \<mapsto> ch)" "srChan s roomID = Some ch \<or> srChan s roomID = None \<and> ch = srNext s"
  using assms by (auto simp: roomSerializer_def permits_ok_def Let_def fun_upd_idem split: option.splits)

lemma permits_okD:
  assumes "permits_ok s"
  shows "srChan s roomID = Some ch \<Longrightarrow> ch < srNext s"
    and "channel (srPermit s g) = Some ch \<Longrightarrow> ch < srNext s"
    and "srPermit s g = Holding roomID ch \<Longrightarrow> ch \<in> srFull s"
    and "srPermit s g = Holding roomID ch \<Longrightarrow> srPermit s h = Holding roomID' ch \<Longrightarrow> g = h"
  using assms unfolding permits_ok_def by blast+

lemma permits_okI:
  assumes "\<And>roomID ch. srChan s roomID = Some ch \<Longrightarrow> ch < srNext s"
    and "\<And>g ch. channel (srPermit s g) = Some ch \<Longrightarrow> ch < srNext s"
    and "\<And>g roomID ch. srPermit s g = Holding roomID ch \<Longrightarrow> ch \<in> srFull s"
    and "\<And>g h roomID roomID' ch. srPermit s g = Holding roomID ch \<Longrightarrow> srPermit s h = Holding roomID' ch \<Longrightarrow> g = h"
  shows "permits_ok s"
  using assms unfolding permits_ok_def by blast

lemma permits_ok_look:
  assumes ok: "permits_ok s" and t: "roomSerializer roomID s = (ch, t)"
  shows "permits_ok (set_permit g (Acquiring roomID ch) t)"
proof (rule permits_okI)
  note t = roomSerializer_sel [OF t ok] and ok = permits_okD [OF ok]
  show "k < srNext (set_permit g (Acquiring roomID ch) t)"
    if "srChan (set_permit g (Acquiring roomID ch) t) x = Some k" for x k
    using that ok(1) [of x k] t(3-5) by (auto simp: set_permit_def split: if_splits)
  show "k < srNext (set_permit g (Acquiring roomID ch) t)"
    if "channel (srPermit (set_permit g (Acquiring roomID ch) t) h) = Some k" for h k
    using that ok(2) [of h k] t(2-4) by (auto simp: set_permit_def split: if_splits)
  show "k \<in> srFull (set_permit g (Acquiring roomID ch) t)"
    if "srPermit (set_permit g (Acquiring roomID ch) t) h = Holding x k" for h x k
    using that ok(3) [of h x k] t(1,2) by (auto simp: set_permit_def split: if_splits)
  show "h = h'"
    if "srPermit (set_permit g (Acquiring roomID ch) t) h = Holding x k"
      and "srPermit (set_permit g (Acquiring roomID ch) t) h' = Holding x' k" for h h' x x' k
    using that ok(4) [of h x k h' x'] t(2) by (auto simp: set_permit_def split: if_splits)
qed

lemma permits_ok_take:
  assumes ok: "permits_ok s" and g: "srPermit s g = Acquiring roomID ch" and free: "ch \<notin> srFull s"
  shows "permits_ok (set_permit g (Holding roomID ch) (s\<lparr>srFull := insert ch (srFull s)\<rparr>))" (is "permits_ok ?t")
proof (rule permits_okI)
  note ok = permits_okD [OF ok]
  show "k < srNext ?t" if "srChan ?t x = Some k" for x k
    using that ok(1) [of x k] by (simp add: set_permit_def)
  show "k < srNext ?t" if "channel (srPermit ?t h) = Some k" for h k
    using that ok(2) [of h k] ok(2) [of g ch] g by (auto simp: set_permit_def split: if_splits)
  show "k \<in> srFull ?t" if "srPermit ?t h = Holding x k" for h x k
    using that ok(3) [of h x k] by (auto simp: set_permit_def split: if_splits)
  show "h = h'" if "srPermit ?t h = Holding x k" and "srPermit ?t h' = Holding x' k" for h h' x x' k
    using that ok(4) [of h x k h' x'] ok(3) [of h x k] ok(3) [of h' x' k] free
    by (auto simp: set_permit_def split: if_splits)
qed

lemma permits_ok_release:
  assumes ok: "permits_ok s" and g: "srPermit s g = Holding roomID ch"
  shows "permits_ok (set_permit g Idle (s\<lparr>srFull := srFull s - {ch}\<rparr>))" (is "permits_ok ?t")
proof (rule permits_okI)
  note ok = permits_okD [OF ok]
  show "k < srNext ?t" if "srChan ?t x = Some k" for x k
    using that ok(1) [of x k] by (simp add: set_permit_def)
  show "k < srNext ?t" if "channel (srPermit ?t h) = Some k" for h k
    using that ok(2) [of h k] by (auto simp: set_permit_def split: if_splits)
  show "k \<in> srFull ?t" if "srPermit ?t h = Holding x k" for h x k
    using that ok(3) [of h x k] ok(4) [of h x k g roomID] g by (auto simp: set_permit_def split: if_splits)
  show "h = h'" if "srPermit ?t h = Holding x k" and "srPermit ?t h' = Holding x' k" for h h' x x' k
    using that ok(4) [of h x k h' x'] by (auto simp: set_permit_def split: if_splits)
qed

lemma permits_ok_step:
  assumes "permit_step s m s'" and "permits_ok s"
  shows "permits_ok s'"
  using assms(1)
proof (cases rule: permit_step.cases)
  case (look g roomID ch t)
  then show ?thesis using permits_ok_look [OF assms(2)] by simp
next
  case (take g roomID ch)
  then show ?thesis using permits_ok_take [OF assms(2)] by simp
next
  case (give_up g roomID ch)
  show ?thesis
    unfolding give_up(2) using permits_okD [OF assms(2)]
    by (intro permits_okI) (fastforce simp: set_permit_def split: if_splits)+
next
  case (release g roomID ch)
  then show ?thesis using permits_ok_release [OF assms(2)] by simp
next
  case (forget roomID)
  show ?thesis
    unfolding forget(2) using permits_okD [OF assms(2)]
    by (intro permits_okI) (fastforce simp: forget_serializer_def split: if_splits)+
qed

lemma permits_ok_run: "permit_run s ms t \<Longrightarrow> permits_ok s \<Longrightarrow> permits_ok t"
  by (induction rule: permit_run.induct) (auto intro: permits_ok_step)

text \<open>
  As long as nobody forgets a room's channel, everyone who looked the room up since it was made
  has the same one.
\<close>

definition one_channel :: "string \<Rightarrow> serial \<Rightarrow> bool" where
  "one_channel roomID s \<longleftrightarrow>
     (\<forall>g ch. srPermit s g = Acquiring roomID ch \<or> srPermit s g = Holding roomID ch \<longrightarrow> srChan s roomID = Some ch)"

lemma one_channel_step:
  assumes "permit_step s m s'" and "permits_ok s" and "one_channel roomID s" and "m \<noteq> Forget roomID"
  shows "one_channel roomID s'"
  using assms(1)
proof (cases rule: permit_step.cases)
  case (look g x ch t)
  note t = roomSerializer_sel [OF look(4) assms(2)]
  show ?thesis
    using assms(3) t(2,5,6) unfolding one_channel_def look set_permit_def by (force split: if_splits)
qed (use assms(3,4) in \<open>auto simp: one_channel_def set_permit_def forget_serializer_def split: if_splits\<close>)

lemma one_channel_run:
  "permit_run s ms t \<Longrightarrow> permits_ok s \<Longrightarrow> one_channel roomID s \<Longrightarrow> Forget roomID \<notin> set ms \<Longrightarrow> one_channel roomID t"
  by (induction rule: permit_run.induct) (auto intro: one_channel_step permits_ok_run)

text \<open>So two that hold the permit of one room are one.\<close>

lemma one_holder:
  assumes "permits_ok s" and "one_channel roomID s"
    and "srPermit s g = Holding roomID ch" and "srPermit s h = Holding roomID ch'"
  shows "g = h"
proof -
  from assms(2-4) have "ch = ch'" unfolding one_channel_def by (metis option.inject)
  then show ?thesis using permits_okD(4) [OF assms(1)] assms(3,4) by blast
qed

lemma one_channel_start: "one_channel roomID no_permits"
  by (simp add: one_channel_def no_permits_def)

section \<open>Properties\<close>

text \<open>
  Writes to one room exclude each other: however the goroutines interleave, at most one holds
  the permit of a room, as long as the room's channel is not forgotten on the way.
\<close>

lemma room_writes_exclusive:
  assumes "permit_run no_permits ms s" and "Forget roomID \<notin> set ms"
    and "srPermit s g = Holding roomID ch" and "srPermit s h = Holding roomID ch'"
  shows "g = h"
  using one_holder [OF permits_ok_run [OF assms(1) permits_ok_start]
    one_channel_run [OF assms(1) permits_ok_start one_channel_start assms(2)] assms(3,4)] .

definition one_writer :: serial where
  "one_writer = set_permit 0 (Holding ''r'' 0) (no_permits\<lparr>srChan := [''r'' \<mapsto> 0], srNext := 1, srFull := {0}\<rparr>)"

lemma one_writer_run: "permit_run no_permits [Look 0 ''r'', Take 0] one_writer"
proof -
  let ?s = "set_permit 0 (Acquiring ''r'' 0) (no_permits\<lparr>srChan := [''r'' \<mapsto> 0], srNext := 1\<rparr>)"
  have "permit_step no_permits (Look 0 ''r'') ?s"
    by (rule permit_step.look) (simp_all add: no_permits_def roomSerializer_def)
  moreover have "permit_step ?s (Take 0) one_writer"
    using permit_step.take [of ?s 0 "''r''" 0] by (simp add: one_writer_def set_permit_def no_permits_def)
  ultimately show ?thesis
    using permit_run.step [OF permit_run.step [OF permit_run.start]] by simp
qed

lemma room_writes_exclusive_example: "srPermit one_writer 1 \<noteq> Holding ''r'' 5"
proof
  assume "srPermit one_writer 1 = Holding ''r'' 5"
  then have "(0 :: nat) = 1"
    by (rule room_writes_exclusive [OF one_writer_run, rotated 2]) (simp_all add: one_writer_def set_permit_def)
  then show False by simp
qed

text \<open>
  Forgetting the channel, which \<open>leaveRoom\<close> does when a room becomes empty while writes to it may
  still be running, loses the exclusion: the next writer gets a new channel, and then two hold
  the permit of one room.
\<close>

lemma forgotten_channel_two_writers:
  "\<exists>s ch ch'. permit_run no_permits [Look 0 roomID, Take 0, Forget roomID, Look 1 roomID, Take 1] s
    \<and> srPermit s 0 = Holding roomID ch \<and> srPermit s 1 = Holding roomID ch'"
proof (intro exI conjI)
  define s1 where "s1 = set_permit 0 (Acquiring roomID 0) (no_permits\<lparr>srChan := [roomID \<mapsto> 0], srNext := 1\<rparr>)"
  define s2 where "s2 = set_permit 0 (Holding roomID 0) (s1\<lparr>srFull := {0}\<rparr>)"
  define s3 where "s3 = forget_serializer roomID s2"
  define s4 where "s4 = set_permit 1 (Acquiring roomID 1) (s3\<lparr>srChan := [roomID \<mapsto> 1], srNext := 2\<rparr>)"
  define s5 where "s5 = set_permit 1 (Holding roomID 1) (s4\<lparr>srFull := {1, 0}\<rparr>)"
  note defs = s1_def s2_def s3_def s4_def s5_def no_permits_def set_permit_def forget_serializer_def roomSerializer_def
  have "permit_step no_permits (Look 0 roomID) s1"
    unfolding s1_def by (rule permit_step.look) (simp_all add: defs)
  moreover have "permit_step s1 (Take 0) s2"
    using permit_step.take [of s1 0 roomID 0] by (simp add: defs)
  moreover have "permit_step s2 (Forget roomID) s3"
    unfolding s3_def by (rule permit_step.forget)
  moreover have "permit_step s3 (Look 1 roomID) s4"
    unfolding s4_def by (rule permit_step.look) (simp_all add: defs)
  moreover have "permit_step s4 (Take 1) s5"
    using permit_step.take [of s4 1 roomID 1] by (simp add: defs)
  ultimately show "permit_run no_permits [Look 0 roomID, Take 0, Forget roomID, Look 1 roomID, Take 1] s5"
    using permit_run.step [OF permit_run.step [OF permit_run.step [OF permit_run.step [OF permit_run.step [OF permit_run.start]]]]]
    by simp
  show "srPermit s5 0 = Holding roomID 0" "srPermit s5 1 = Holding roomID 1" by (simp_all add: defs)
qed

end
