(* ===== verification/Migrate.thy ===== *)
theory Migrate
  imports Prelude
begin

text \<open>
  Opening the database (\<open>Open\<close>, \<open>migrate\<close> and \<open>ensureClosedAtColumn\<close> of
  \<open>internal/storage/sqlite/sqlite.go\<close>).  The database with its schema is a state of an unknown type
  \<open>'s\<close>; what the driver does with a statement is a record of parameters: whether the row of a
  migration is found in \<open>migration_versions\<close> (an error counts as not found), running a script,
  recording a migration, the columns of \<open>rooms\<close>, and adding the column \<open>closed_at\<close>; None is an
  error.  A script has several statements and no transaction, so one that fails (False) may leave
  the effects of its first statements.  The migrations are embedded files in the order of their
  names; reading them cannot fail.
\<close>

record 's driver =
  drFound :: "string \<Rightarrow> 's \<Rightarrow> bool"
  drExec :: "string \<Rightarrow> 's \<Rightarrow> bool \<times> 's"
  drRecord :: "string \<Rightarrow> 's \<Rightarrow> 's option"
  drColumns :: "'s \<Rightarrow> string list option"
  drAddClosedAt :: "'s \<Rightarrow> 's option"

text \<open>An entry of the embedded directory: its name, whether it is a directory, its body.\<close>

record entry =
  enName :: string
  enIsDir :: bool
  enBody :: string

datatype migrate_error = ApplyFailed string | RecordFailed string | ColumnsFailed | AlterFailed

definition ensureClosedAtColumn :: "'s driver \<Rightarrow> 's \<Rightarrow> (migrate_error, unit) result \<times> 's" where
  "ensureClosedAtColumn dr s =
     (case drColumns dr s of
        None \<Rightarrow> (Inl ColumnsFailed, s)
      | Some names \<Rightarrow>
          if ''closed_at'' \<in> set names then (Inr (), s)
          else case drAddClosedAt dr s of
            None \<Rightarrow> (Inl AlterFailed, s)
          | Some s' \<Rightarrow> (Inr (), s'))"

fun migrate :: "'s driver \<Rightarrow> entry list \<Rightarrow> 's \<Rightarrow> (migrate_error, unit) result \<times> 's" where
  "migrate dr [] s = ensureClosedAtColumn dr s"
| "migrate dr (e # es) s =
     (if enIsDir e then migrate dr es s
      else if drFound dr (enName e) s then migrate dr es s
      else case drExec dr (enBody e) s of
        (False, s1) \<Rightarrow> (Inl (ApplyFailed (enName e)), s1)
      | (True, s1) \<Rightarrow>
          (case drRecord dr (enName e) s1 of
             None \<Rightarrow> (Inl (RecordFailed (enName e)), s1)
           | Some s2 \<Rightarrow> migrate dr es s2))"

section \<open>Open and Close\<close>

text \<open>
  \<open>Open\<close>: whether the directory of the file can be made is a flag, and \<open>sql.Open\<close> a parameter, from
  the data source name to the database, None for an error.  The handle is \<open>sql.DB\<close> with the limits of its
  pool (the idle time in nanoseconds); when the migrations fail it is closed before the error is
  returned.  Which of the options in the data source name the driver heeds is not said here: what
  matters of them, that foreign keys are enforced, is an argument of the store's operations.
\<close>

record handle =
  haDSN :: string
  haMaxOpenConns :: nat
  haMaxIdleConns :: nat
  haMaxIdleTime :: int
  haOpen :: bool

datatype open_error = MkdirFailed | OpenFailed | MigrateFailed migrate_error

definition db_path :: "string \<Rightarrow> string" where
  "db_path path = (if path = [] then ''data/timenotes-collab.db'' else path)"

definition dsn_of :: "string \<Rightarrow> string" where
  "dsn_of path = path @ ''?_journal_mode=WAL&_busy_timeout=5000&_synchronous=NORMAL&_cache_size=-16000&_txlock=immediate&_foreign_keys=on''"

definition new_handle :: "string \<Rightarrow> handle" where
  "new_handle dsn = \<lparr>haDSN = dsn, haMaxOpenConns = 8, haMaxIdleConns = 4, haMaxIdleTime = 5 * 60 * 1000000000, haOpen = True\<rparr>"

definition store_Close :: "handle \<Rightarrow> handle" where
  "store_Close h = h\<lparr>haOpen := False\<rparr>"

definition Open ::
  "bool \<Rightarrow> (string \<Rightarrow> 's option) \<Rightarrow> 's driver \<Rightarrow> entry list \<Rightarrow> string
     \<Rightarrow> (open_error, unit) result \<times> (handle \<times> 's) option" where
  "Open mkdirFails sqlOpen dr es path =
     (if mkdirFails then (Inl MkdirFailed, None)
      else case sqlOpen (dsn_of (db_path path)) of
        None \<Rightarrow> (Inl OpenFailed, None)
      | Some s \<Rightarrow>
          (let h = new_handle (dsn_of (db_path path))
           in case migrate dr es s of
                (Inl e, s') \<Rightarrow> (Inl (MigrateFailed e), Some (store_Close h, s'))
              | (Inr _, s') \<Rightarrow> (Inr (), Some (h, s'))))"

text \<open>A handle is left open exactly when \<open>Open\<close> succeeds.\<close>

lemma open_or_closed:
  assumes "Open mkdirFails sqlOpen dr es path = (out, Some (h, s))"
  shows "haOpen h \<longleftrightarrow> out = Inr ()"
  using assms
  by (auto simp: Open_def new_handle_def store_Close_def Let_def split: if_splits option.splits prod.splits sum.splits)

section \<open>The driver\<close>

text \<open>
  What the code relies on: a recorded migration is found from then on, whatever is run later; a
  column that was added is listed; running a script or recording does not drop \<open>closed_at\<close>.
\<close>

definition remembers :: "'s driver \<Rightarrow> bool" where
  "remembers dr \<longleftrightarrow>
     (\<forall>name s s'. drRecord dr name s = Some s' \<longrightarrow> drFound dr name s')
     \<and> (\<forall>name x s. drFound dr name s \<longrightarrow> drFound dr name (snd (drExec dr x s)))
     \<and> (\<forall>name x s s'. drFound dr name s \<longrightarrow> drRecord dr x s = Some s' \<longrightarrow> drFound dr name s')
     \<and> (\<forall>name s s'. drFound dr name s \<longrightarrow> drAddClosedAt dr s = Some s' \<longrightarrow> drFound dr name s')
     \<and> (\<forall>s s'. drAddClosedAt dr s = Some s' \<longrightarrow> (\<exists>names. drColumns dr s' = Some names \<and> ''closed_at'' \<in> set names))"

lemma recorded_found: "remembers dr \<Longrightarrow> drRecord dr name s = Some s' \<Longrightarrow> drFound dr name s'"
  unfolding remembers_def by (elim conjE) blast

lemma found_kept:
  assumes "remembers dr" and "drFound dr name s"
  shows "drFound dr name (snd (drExec dr x s))"
    and "drRecord dr x s = Some s' \<Longrightarrow> drFound dr name s'"
    and "drAddClosedAt dr s = Some s' \<Longrightarrow> drFound dr name s'"
  using assms unfolding remembers_def by (elim conjE; blast)+

lemma closed_at_added:
  assumes "remembers dr" and "drAddClosedAt dr s = Some s'"
  obtains names where "drColumns dr s' = Some names" "''closed_at'' \<in> set names"
  using assms unfolding remembers_def by (elim conjE) blast

text \<open>The branches of the column check and of one migration.\<close>

lemma ensure_cases:
  assumes "ensureClosedAtColumn dr s = (Inr (), s')"
  obtains (present) names where "drColumns dr s = Some names" "''closed_at'' \<in> set names" "s' = s"
    | (added) "drAddClosedAt dr s = Some s'"
  using assms by (auto simp: ensureClosedAtColumn_def split: option.splits if_splits)

lemma migrate_cases:
  assumes "migrate dr (e # es) s = (Inr (), s')"
  obtains (skip) "enIsDir e \<or> drFound dr (enName e) s" "migrate dr es s = (Inr (), s')"
    | (apply_it) s1 s2 where "\<not> enIsDir e" "drExec dr (enBody e) s = (True, s1)" "drRecord dr (enName e) s1 = Some s2"
        "migrate dr es s2 = (Inr (), s')"
  using assms by (auto split: option.splits if_splits prod.splits bool.splits)

lemma ensure_again:
  assumes r: "remembers dr" and "ensureClosedAtColumn dr s = (Inr (), s')"
  shows "ensureClosedAtColumn dr s' = (Inr (), s')"
  using assms(2)
proof (cases rule: ensure_cases)
  case (present names)
  with assms(2) show ?thesis by simp
next
  case added
  from closed_at_added [OF r added] obtain names where "drColumns dr s' = Some names" "''closed_at'' \<in> set names" .
  then show ?thesis by (simp add: ensureClosedAtColumn_def)
qed

lemma migrate_keeps:
  assumes r: "remembers dr" and "migrate dr es s = (Inr (), s')" and "drFound dr name s"
  shows "drFound dr name s'"
  using assms(2,3)
proof (induction es arbitrary: s)
  case Nil
  from Nil(1) have "ensureClosedAtColumn dr s = (Inr (), s')" by simp
  then show ?case
    by (cases rule: ensure_cases) (use Nil(2) found_kept [OF r Nil(2)] in auto)
next
  case (Cons e es)
  from Cons.prems(1) show ?case
  proof (cases rule: migrate_cases)
    case skip
    then show ?thesis using Cons by blast
  next
    case (apply_it s1 s2)
    have "drFound dr name s1" using found_kept(1) [OF r Cons.prems(2), of "enBody e"] apply_it(2) by simp
    then have "drFound dr name s2" using apply_it(3) by (rule found_kept(2) [OF r])
    with apply_it(4) show ?thesis by (rule Cons.IH)
  qed
qed

lemma migrate_records:
  assumes r: "remembers dr" and "migrate dr es s = (Inr (), s')" and "e \<in> set es" and dir: "\<not> enIsDir e"
  shows "drFound dr (enName e) s'"
  using assms(2,3)
proof (induction es arbitrary: s)
  case (Cons x es)
  from Cons.prems(1) show ?case
  proof (cases rule: migrate_cases)
    case skip
    with Cons migrate_keeps [OF r skip(2), of "enName e"] dir show ?thesis by auto
  next
    case (apply_it s1 s2)
    with Cons migrate_keeps [OF r apply_it(4)] recorded_found [OF r apply_it(3)] show ?thesis by auto
  qed
qed simp

lemma migrate_all_found:
  "(\<And>e. e \<in> set es \<Longrightarrow> \<not> enIsDir e \<Longrightarrow> drFound dr (enName e) s) \<Longrightarrow> migrate dr es s = ensureClosedAtColumn dr s"
  by (induction es) auto

lemma migrate_closed_at:
  "migrate dr es s = (Inr (), s') \<Longrightarrow> \<exists>t. ensureClosedAtColumn dr t = (Inr (), s')"
proof (induction es arbitrary: s)
  case (Cons e es)
  from Cons.prems show ?case
    by (cases rule: migrate_cases) (erule Cons.IH)+
next
  case Nil
  then show ?case by (intro exI) simp
qed

text \<open>An opened database has every migration recorded and the column that closing needs or had it added.\<close>

lemma opened_migrated:
  assumes "remembers dr" and "Open mkdirFails sqlOpen dr es path = (Inr (), Some (h, s))"
  shows "(\<forall>e \<in> set es. enIsDir e \<or> drFound dr (enName e) s) \<and> ensureClosedAtColumn dr s = (Inr (), s)"
proof -
  obtain s0 where m: "migrate dr es s0 = (Inr (), s)"
    using assms(2) by (auto simp: Open_def Let_def split: if_splits option.splits prod.splits sum.splits)
  from migrate_closed_at [OF m] obtain t where "ensureClosedAtColumn dr t = (Inr (), s)" ..
  from ensure_again [OF assms(1) this] migrate_records [OF assms(1) m] show ?thesis by blast
qed

section \<open>Properties\<close>

text \<open>
  Opening a database again changes nothing: once the migrations have run through, running
  them again, with the same files or fewer, succeeds and leaves the database as it is.
\<close>

lemma migrate_once:
  assumes "remembers dr" and "migrate dr es s = (Inr (), s')" and "set es' \<subseteq> set es"
  shows "migrate dr es' s' = (Inr (), s')"
proof -
  have "migrate dr es' s' = ensureClosedAtColumn dr s'"
  proof (rule migrate_all_found)
    fix e assume "e \<in> set es'" "\<not> enIsDir e"
    with assms(3) show "drFound dr (enName e) s'" by (intro migrate_records [OF assms(1,2)]) auto
  qed
  moreover from migrate_closed_at [OF assms(2)] obtain t where "ensureClosedAtColumn dr t = (Inr (), s')" ..
  ultimately show ?thesis using ensure_again [OF assms(1)] by simp
qed

text \<open>
  A migration is not atomic: when its script ran but recording it failed, every later start
  runs the script again, and if it cannot be run twice, as \<open>002_counters.sql\<close>, which adds columns,
  the server cannot open its database any more, whatever the other migrations are.
\<close>

lemma half_applied_migration_is_fatal:
  assumes "\<not> enIsDir e" and "\<not> drFound dr (enName e) s" and "drExec dr (enBody e) s = (True, s1)"
    and "drRecord dr (enName e) s1 = None" and "\<not> drFound dr (enName e) s1" and "drExec dr (enBody e) s1 = (False, s1)"
  shows "migrate dr (e # es) s = (Inl (RecordFailed (enName e)), s1)
    \<and> migrate dr (e # es') s1 = (Inl (ApplyFailed (enName e)), s1)"
  using assms by simp

text \<open>
  A small database for the witnesses: the names recorded and the columns of \<open>rooms\<close>.  A body is the
  column it adds, which fails when the column is there; recording fails while \<open>broken\<close>.
\<close>

definition small_driver :: "bool \<Rightarrow> (string list \<times> string list) driver" where
  "small_driver broken =
     \<lparr>drFound = (\<lambda>name s. name \<in> set (fst s)),
      drExec = (\<lambda>b s. if b \<in> set (snd s) then (False, s) else (True, (fst s, b # snd s))),
      drRecord = (\<lambda>name s. if broken then None else Some (name # fst s, snd s)),
      drColumns = (\<lambda>s. Some (snd s)),
      drAddClosedAt = (\<lambda>s. Some (fst s, ''closed_at'' # snd s))\<rparr>"

lemma small_driver_remembers: "remembers (small_driver broken)"
  by (auto simp: remembers_def small_driver_def)

definition counters_migration :: entry where
  "counters_migration = \<lparr>enName = ''002_counters.sql'', enIsDir = False, enBody = ''storage_bytes''\<rparr>"

lemma migrate_once_example:
  "migrate (small_driver False) [counters_migration] ([''002_counters.sql''], [''closed_at'', ''storage_bytes''])
     = (Inr (), ([''002_counters.sql''], [''closed_at'', ''storage_bytes'']))"
  by (rule migrate_once [OF small_driver_remembers, of _ "[counters_migration]" "([], [])"])
    (simp_all add: small_driver_def counters_migration_def ensureClosedAtColumn_def)

lemma half_applied_migration_is_fatal_example:
  "migrate (small_driver True) [counters_migration] ([], []) = (Inl (RecordFailed ''002_counters.sql''), ([], [''storage_bytes'']))
    \<and> migrate (small_driver True) [counters_migration] ([], [''storage_bytes''])
        = (Inl (ApplyFailed ''002_counters.sql''), ([], [''storage_bytes'']))"
  using half_applied_migration_is_fatal [of counters_migration "small_driver True" "([], [])" "([], [''storage_bytes''])" "[]" "[]"]
  by (simp add: small_driver_def counters_migration_def)

end
