(* ===== verification/Delivery.thy ===== *)
theory Delivery
  imports System "HOL-Library.Sublist"
begin

text \<open>
  What becomes of a connection over a whole run.  \<open>evolution\<close> is the contract of a relation between
  a connection earlier and later: it is a preorder that queueing, closing, the writer, and any
  change of the fields the queue does not use stay inside.  Inside the locale every operation of
  the hub, every step and every run is shown to stay inside it, once; it is interpreted three
  times: for the order of delivery, for the bound of the queue, and for closed queues.
\<close>

definition evolves :: "(client \<Rightarrow> client \<Rightarrow> bool) \<Rightarrow> world \<Rightarrow> world \<Rightarrow> bool" where
  "evolves R w w' \<longleftrightarrow> (\<forall>k. R (wClient w k) (wClient w' k))"

text \<open>The later connection differs in fields the queue does not use, or is hung up.\<close>

definition same_queue :: "client \<Rightarrow> client \<Rightarrow> bool" where
  "same_queue x y \<longleftrightarrow> cSend y = cSend x \<and> cCap y = cCap x \<and> cWritten y = cWritten x \<and> cClosed y = cClosed x
     \<and> cRoomID y = cRoomID x \<and> cJoinedAt y = cJoinedAt x \<and> (cConnOpen y \<longrightarrow> cConnOpen x)"

lemma same_queue_updates [simp]:
  "same_queue x x" "same_queue x (setUser u x)" "same_queue x (x\<lparr>cViolations := n\<rparr>)"
  "same_queue x (x\<lparr>cConnOpen := False\<rparr>)" "same_queue x (x\<lparr>cID := i\<rparr>)" "same_queue x ((setUser u x)\<lparr>cID := i\<rparr>)"
  by (simp_all add: same_queue_def setUser_def)

locale evolution =
  fixes R :: "client \<Rightarrow> client \<Rightarrow> bool"
  assumes trans: "R x y \<Longrightarrow> R y z \<Longrightarrow> R x z"
    and other: "same_queue x y \<Longrightarrow> R x y"
    and queue: "R x (snd (queue b e x))"
    and shutdown: "R x (shutdown x)"
    and wrote: "R x (writeLoop_step ok x)"
begin

lemma refl [simp]: "R x x"
  by (rule other) simp

lemma evolves_refl [simp]: "evolves R w w"
  by (simp add: evolves_def)

lemma evolves_trans: "evolves R w w1 \<Longrightarrow> evolves R w1 w2 \<Longrightarrow> evolves R w w2"
  unfolding evolves_def by (metis trans)

lemma evolves_same: "wClient w' = wClient w \<Longrightarrow> evolves R w w'"
  by (simp add: evolves_def)

lemma evolves_then: "wClient w2 = wClient w1 \<Longrightarrow> evolves R w w1 \<Longrightarrow> evolves R w w2"
  by (simp add: evolves_def)

lemma evolves_set: "R (wClient w c) x \<Longrightarrow> evolves R w (set_client c x w)"
  by (simp add: evolves_def)

lemma evolves_queue_to [simp]: "evolves R w (queue_to slot e c w)"
  unfolding queue_to_def by (rule evolves_set [OF queue])

lemma evolves_shutdown [simp]: "evolves R w (shutdown_client c w)"
  by (simp add: evolves_def shutdown)

lemma deliver_R: "R (h k) (snd (deliver slot env cs h) k)"
proof (induction cs arbitrary: h)
  case (Cons c cs)
  let ?q = "snd (queue (slot c) (env c) (h c))"
  have "R (h k) ((h(c := ?q)) k)" by (simp add: queue)
  then have "R (h k) (snd (deliver slot env cs (h(c := ?q))) k)" by (rule trans) (rule Cons.IH)
  then show ?case by (simp add: split_beta)
qed simp

lemma evolves_deliver: "wClient w' = snd (deliver slot env cs (wClient w)) \<Longrightarrow> evolves R w w'"
  by (simp add: evolves_def deliver_R)

lemma evolves_broadcast [simp]: "evolves R w (broadcast slot e r x w)"
  unfolding broadcast_def by (rule evolves_deliver) simp

lemma evolves_sendTo [simp]: "evolves R w (sendTo slot i e r w)"
  by (simp add: sendTo_def split: option.split)

lemma evolves_send_error [simp]: "evolves R w (send_error slot st i m c w)"
  unfolding send_error_def sendError_def by (rule evolves_set [OF queue])

lemma evolves_forward [simp]: "evolves R w (forward slot c r e w)"
  by (simp add: forward_def)

lemma evolves_spawn [simp]: "evolves R w (spawn j w)"
  by (rule evolves_same) (simp add: spawn_def)

lemma evolves_sync [simp]: "evolves R w (broadcastSyncRequest slot st r w)"
  unfolding broadcastSyncRequest_def by (rule evolves_deliver) simp

section \<open>Messages\<close>

lemma evolves_doc_update [simp]: "evolves R w (handle_doc_update cfg slot st c r e w)"
  using evolves_trans [OF evolves_spawn evolves_broadcast]
  by (simp add: handle_doc_update_def split: sum.split option.split)

lemma evolves_handlers [simp]:
  "evolves R w (handle_doc_snapshot cfg slot st c r e w)"
  "evolves R w (handle_chat slot st c r e w)" "evolves R w (handle_signal slot st c r e w)"
  "evolves R w (handle_relay slot st c r e w)" "evolves R w (handle_ping slot st c e w)"
  by (simp_all add: handle_doc_snapshot_def handle_chat_def handle_signal_def handle_relay_def handle_ping_def Let_def
      split: sum.split option.split)

lemma evolves_presence [simp]: "evolves R w (handle_presence slot st now c r e w)"
  using evolves_trans [OF evolves_set [OF other] evolves_broadcast]
  by (simp add: handle_presence_def Let_def split: sum.split)

lemma evolves_join_decision [simp]: "evolves R w (handle_join_decision slot st c r e w)"
  by (simp add: handle_join_decision_def evolves_same split: sum.split option.split)

lemma evolves_kick [simp]: "evolves R w (handle_peer_kick slot st c r e w)"
proof -
  have "evolves R w (broadcast slot e2 r [] (set_room r x (shutdown_client k (queue_to slot e1 k w))))" for e1 e2 k x
    by (rule evolves_trans [OF evolves_trans [OF evolves_queue_to evolves_then [OF _ evolves_shutdown]] evolves_broadcast]) simp
  then show ?thesis
    by (simp add: handle_peer_kick_def Let_def split: sum.split option.split)
qed

lemma evolves_handleEnvelope [simp]: "evolves R w (handleEnvelope cfg slot st now c r e w)"
  by (simp add: handleEnvelope_def)

section \<open>Leaving\<close>

lemma evolves_migration [simp]: "evolves R w (snd (tryHostMigrationLocked slot st r w))"
proof (cases "earliest (wClient w) None (map snd (rClients (wRoom w r)))")
  case (Some e)
  have "R (wClient w k) (((wClient w)(e := setUser u (wClient w e))) k)" for k u
    by (simp add: other)
  then have "R (wClient w k) (snd (deliver slot env cs ((wClient w)(e := setUser u (wClient w e)))) k)" for k u env cs
    using deliver_R by (rule trans)
  then show ?thesis
    by (simp add: tryHostMigrationLocked_def Let_def Some evolves_def)
qed (simp add: tryHostMigrationLocked_def)

lemma evolves_leaveRoom [simp]: "evolves R w (leaveRoom_locked slot st c r w)"
proof -
  have w1: "evolves R w (left_world c r w)"
    by (rule evolves_then [OF _ evolves_shutdown [of w c]]) simp
  moreover have "evolves R (left_world c r w) (closed_world r (left_world c r w))"
    by (rule evolves_same) simp
  ultimately have "evolves R w (after_leave slot st c r w)"
    unfolding after_leave_def Let_def
    using evolves_trans [OF w1] evolves_migration by simp
  moreover obtain info where "leaveRoom_locked slot st c r w = set_phase c (Leaving r info) (after_leave slot st c r w)"
    using leaveRoom_locked_eq [of slot st c r w] by blast
  ultimately show ?thesis by (simp add: evolves_def)
qed

lemma evolves_rest [simp]: "evolves R w (leaveRoom_rest slot st f now c r info w)"
  by (simp add: leaveRoom_rest_def Let_def evolves_def deliver_R)

lemma evolves_readLoop [simp]: "evolves R w (readLoop_iter cfg slot st now allow c r frame w)"
  using evolves_trans [OF evolves_set [OF other] evolves_leaveRoom] evolves_trans [OF evolves_set [OF other] evolves_handleEnvelope]
  by (simp add: readLoop_iter_def Let_def evolves_set other split: option.split)

section \<open>Joining\<close>

lemma evolves_phase: "evolves R w (set_phase c p w1) = evolves R w w1"
  by (simp add: evolves_def)

lemma evolves_room: "evolves R w (set_room r x w1) = evolves R w w1"
  by (simp add: evolves_def)

lemma evolves_reject [simp]: "evolves R w (reject slot st c why w)"
  unfolding reject_def evolves_phase by (rule evolves_trans [OF evolves_queue_to evolves_shutdown])

lemma evolves_lookup [simp]: "evolves R w (joinRoom_lookup cfg slot st c state w)"
  by (auto simp: joinRoom_lookup_def hub_room_def Let_def evolves_phase evolves_same split: option.split)

lemma evolves_as_host [simp]: "evolves R w (join_as_host slot st c state r w)"
  unfolding join_as_host_def Let_def evolves_phase
  by (rule evolves_trans [OF evolves_same evolves_queue_to]) simp

lemma evolves_as_pending [simp]: "evolves R w (join_as_pending slot st reqrnd now c state r w)"
proof -
  have "evolves R w (queue_to slot e c w1)" if "wClient w1 = wClient w" for e w1
    by (rule evolves_trans [OF evolves_same [OF that] evolves_queue_to])
  from evolves_trans [OF this evolves_queue_to] this show ?thesis
    by (simp add: join_as_pending_def Let_def evolves_phase split: option.split)
qed

lemma evolves_enter [simp]: "evolves R w (joinRoom_enter cfg slot st rnd reqrnd now c r state w)"
proof -
  have "evolves R w (f (set_client c ((setUser u (wClient w c))\<lparr>cID := i\<rparr>) w))" if "\<And>v. evolves R v (f v)" for f u i
    by (rule evolves_trans [OF evolves_set [OF other] that]) simp
  then show ?thesis by (simp add: joinRoom_enter_def Let_def)
qed

lemma evolves_finish [simp]: "evolves R w (joinRoom_finish slot st c r p d w)"
proof -
  have same: "evolves R w v \<Longrightarrow> evolves R w (broadcast slot e2 r i (queue_to slot e1 c v))" for v e1 e2 i
    by (rule evolves_trans [OF evolves_trans [OF _ evolves_queue_to] evolves_broadcast])
  have "evolves R w (reject slot s c why (set_room r x w))" for s why x
    by (rule evolves_trans [OF evolves_same evolves_reject]) simp
  moreover have "evolves R w (set_room r y (set_room r x w))" for x y
    by (rule evolves_same) simp
  ultimately show ?thesis
    by (simp add: joinRoom_finish_def Let_def evolves_phase same)
qed

section \<open>Jobs, steps and runs\<close>

lemma evolves_job [simp]: "evolves R w (run_job bind cfg slot st acq f1 f2 now j w)"
proof (cases j)
  case (JobUpdate c r i b)
  have "evolves R w (broadcastSyncRequest slot s r (queue_to slot e c (w\<lparr>wDB := d\<rparr>)))" for s e d
    by (rule evolves_trans [OF evolves_trans [OF evolves_same evolves_queue_to] evolves_sync]) simp
  moreover have "evolves R w (spawn (JobCompact c) (w\<lparr>wDB := d\<rparr>))" for d
    by (rule evolves_same) (simp add: spawn_def)
  ultimately show ?thesis
    using JobUpdate by (simp add: run_update_def Let_def split: prod.split sum.split)
next
  case (JobSnapshot c r s base)
  then show ?thesis by (simp add: run_snapshot_def Let_def evolves_same)
next
  case (JobCompact c)
  then show ?thesis by (simp add: maybeAutoCompact_def Let_def split: sum.split option.split)
qed

lemma step_evolves:
  assumes "hub_step sv w e w'" and "k < wNextClient w"
  shows "R (wClient w k) (wClient w' k)"
  using assms(1)
proof cases
  case (connect st rnd f1 f2 now t frame x state db)
  then show ?thesis using assms(2) by (simp add: connect_def Let_def)
next
  case (job n slot sts acquired f1 f2 now)
  then have "evolves R (w\<lparr>wJobs := drop_nth n (wJobs w)\<rparr>) w'" by simp
  then show ?thesis by (simp add: evolves_def)
next
  case (decision c r p d)
  then show ?thesis by (simp add: receive_decision_def)
next
  case (timeout c r p)
  then show ?thesis by (simp add: approval_timeout_def)
next
  case (writer c ok)
  then show ?thesis using wrote by simp
next
  case (hangup c)
  then show ?thesis by (simp add: other)
qed (use evolves_lookup evolves_enter evolves_finish evolves_readLoop evolves_rest in \<open>auto simp: evolves_def\<close>)

end

end
