(* ===== verification/DeliveryProps.thy ===== *)
theory DeliveryProps
  imports Delivery Runs Demo
begin

text \<open>
  Order, bounds and completeness of what connections receive (\<open>queue\<close>, \<open>shutdown\<close> and \<open>writeLoop\<close>
  of \<open>internal/server/hub.go\<close>), over whole runs of the server: three interpretations of the
  contract \<open>evolution\<close> and what follows from them.
\<close>

section \<open>Runs\<close>

lemma step_next: "hub_step sv w e w' \<Longrightarrow> wNextClient w \<le> wNextClient w'"
proof (erule hub_step.cases, goal_cases)
  case (10 n slot sts acquired f1 f2 now)
  with quiet_sel(7) [OF quiet_job] show ?case by simp
qed (auto simp: connect_def Let_def receive_decision_def approval_timeout_def)

context evolution begin

lemma run_evolves:
  "hub_run sv w es w' \<Longrightarrow> k < wNextClient w \<Longrightarrow> k < wNextClient w' \<and> R (wClient w k) (wClient w' k)"
proof (induction rule: hub_run.induct)
  case (step es v e v')
  then have "k < wNextClient v" "R (wClient w k) (wClient v k)" by simp_all
  with step_evolves [OF step.hyps(2)] step_next [OF step.hyps(2)] show ?case
    using trans by fastforce
qed simp

end

section \<open>Three relations\<close>

text \<open>What was written stays written; while the connection is open, what was queued stays queued.\<close>

definition delivered :: "client \<Rightarrow> client \<Rightarrow> bool" where
  "delivered x y \<longleftrightarrow> prefix (cWritten x) (cWritten y) \<and>
     (cConnOpen y \<longrightarrow> cConnOpen x \<and> prefix (stream x) (stream y))"

definition within :: "client \<Rightarrow> client \<Rightarrow> bool" where
  "within x y \<longleftrightarrow> cCap y = cCap x \<and> (0 < cCap x \<and> length (cSend x) \<le> cCap x \<longrightarrow> length (cSend y) \<le> cCap x)"

text \<open>The queue of a closed connection is only drained, and stays closed.\<close>

definition sealed :: "client \<Rightarrow> client \<Rightarrow> bool" where
  "sealed x y \<longleftrightarrow> (cClosed x \<longrightarrow> cClosed y \<and> suffix (cSend y) (cSend x))"

lemma delivered_write_one: "prefix (cWritten x) (cWritten (write_one x))"
  by (simp add: write_one_def)

interpretation order: evolution delivered
proof
  fix x b e
  show "delivered x (snd (queue b e x))"
    using send.content_offer [of b e x]
    by (auto simp: delivered_def queue_def write_one_def Let_def)
next
  fix x ok
  show "delivered x (writeLoop_step ok x)"
    using stream_write_one [of x] by (auto simp: delivered_def writeLoop_step_def delivered_write_one write_one_def)
qed (auto simp: delivered_def same_queue_def stream_def shutdown_def)

interpretation capacity: evolution within
proof
  fix x b e
  show "within x (snd (queue b e x))"
    by (auto simp: within_def queue_bounded)
qed (auto simp: within_def same_queue_def shutdown_def writeLoop_step_def write_one_def)

interpretation closing: evolution sealed
proof
  fix x b e
  show "sealed x (snd (queue b e x))"
    by (simp add: sealed_def queue_def)
next
  fix x ok
  show "sealed x (writeLoop_step ok x)"
    by (cases "cSend x") (auto simp: sealed_def writeLoop_step_def write_one_def suffix_def)
qed (auto simp: sealed_def same_queue_def shutdown_def intro: suffix_order.trans)

lemma step_fresh:
  assumes "hub_step sv w e w'" and "\<not> k < wNextClient w" and "k < wNextClient w'"
  shows "\<exists>i u t. wClient w' k = new_client i u t"
  using assms(1)
proof cases
  case (connect st rnd f1 f2 now t frame x state db)
  with assms(2,3) auth_client [OF connect(3)] show ?thesis
    by (auto simp: connect_def Let_def less_Suc_eq)
next
  case (job n slot sts acquired f1 f2 now)
  with assms(2,3) quiet_sel(7) [OF quiet_job] show ?thesis by simp
qed (use assms(2,3) in \<open>auto simp: receive_decision_def approval_timeout_def\<close>)

lemma queue_within:
  assumes "hub_run sv (init_world db) es w"
  shows "k < wNextClient w \<Longrightarrow> cCap (wClient w k) = clientSendQueueSize \<and> length (cSend (wClient w k)) \<le> clientSendQueueSize"
  using assms
proof (induction rule: hub_run.induct)
  case start
  then show ?case by (simp add: init_world_def)
next
  case (step es v e v')
  show ?case
  proof (cases "k < wNextClient v")
    case True
    have "0 < clientSendQueueSize" by (simp add: clientSendQueueSize_def)
    with True step.IH capacity.step_evolves [OF step.hyps(2) True] show ?thesis by (auto simp: within_def)
  next
    case False
    with step_fresh [OF step.hyps(2) False step.prems] show ?thesis by (auto simp: new_client_def)
  qed
qed

lemma written_all:
  "cConnOpen x \<Longrightarrow> (writeLoop_step True ^^ length (cSend x)) x = x\<lparr>cSend := [], cWritten := stream x\<rparr>"
proof (induction "cSend x" arbitrary: x)
  case Nil
  then show ?case by (simp add: stream_def)
next
  case (Cons e es)
  have step: "writeLoop_step True x = write_one x" using Cons.prems Cons.hyps(2) [symmetric] by (simp add: writeLoop_step_def)
  have "cSend (write_one x) = es" "cConnOpen (write_one x)"
    using Cons.prems Cons.hyps(2) [symmetric] by (simp_all add: write_one_def)
  with Cons.hyps(1) [of "write_one x"]
  have "(writeLoop_step True ^^ length es) (write_one x) = (write_one x)\<lparr>cSend := [], cWritten := stream x\<rparr>" by simp
  moreover have "(write_one x)\<lparr>cSend := [], cWritten := stream x\<rparr> = x\<lparr>cSend := [], cWritten := stream x\<rparr>"
    by (simp add: write_one_def)
  ultimately show ?case
    using step Cons.hyps(2) [symmetric] by (simp add: funpow_swap1)
qed

section \<open>Properties\<close>

text \<open>
  C14: Delivery is in order: over any run, what a connection was sent is what it had been sent
  before, followed by the later messages; nothing is lost, repeated or reordered, neither on
  the socket nor, as long as the socket is open, in the queue.
\<close>

theorem deliveries_in_order:
  assumes "hub_run sv w es w'" and "k < wNextClient w"
  shows "prefix (cWritten (wClient w k)) (cWritten (wClient w' k))
    \<and> (cConnOpen (wClient w' k) \<longrightarrow> prefix (stream (wClient w k)) (stream (wClient w' k)))"
  using order.run_evolves [OF assms] by (simp add: delivered_def)

theorem deliveries_in_order_witness:
  "prefix (stream (wClient pending_world 0)) (stream (wClient admitted_world 0)) \<and> cConnOpen (wClient admitted_world 0)"
proof -
  have "cConnOpen (wClient admitted_world 0)" by code_simp
  with deliveries_in_order [OF admitted_run, of 0] show ?thesis by (simp add: pending_world_def)
qed



text \<open>
  Whoever was disconnected, by a kick, a rejection or by leaving, is sent nothing more: from
  then on the queue only drains.
\<close>

lemma disconnected_gets_nothing:
  assumes "hub_run sv w es w'" and "k < wNextClient w" and "cClosed (wClient w k)"
  shows "suffix (cSend (wClient w' k)) (cSend (wClient w k)) \<and> cClosed (wClient w' k)"
  using closing.run_evolves [OF assms(1,2)] assms(3) by (simp add: sealed_def)

definition kick_frame :: "string \<Rightarrow> envelope" where
  "kick_frame i = json_frame TypePeerKick [(''clientId'', JStr i)]"

definition kicked_world :: world where "kicked_world = demo_message 0 (kick_frame ''b'') pair_world"

definition told_world :: world where
  "told_world = set_client 1 (writeLoop_step True (wClient kicked_world 1)) kicked_world"

lemma disconnected_gets_nothing_example:
  "suffix (cSend (wClient told_world 1)) (cSend (wClient kicked_world 1)) \<and> length (cSend (wClient kicked_world 1)) = 1
    \<and> map eType (cWritten (wClient told_world 1)) = [TypePeerKicked]"
proof -
  have "hub_run demo_sv kicked_world ([] @ [Write 1 True]) told_world"
    unfolding told_world_def by (rule hub_run.step [OF hub_run.start hub_step.writer])
  moreover have "1 < wNextClient kicked_world" "cClosed (wClient kicked_world 1)" by code_simp+
  ultimately have "suffix (cSend (wClient told_world 1)) (cSend (wClient kicked_world 1))"
    using disconnected_gets_nothing by blast
  moreover have "length (cSend (wClient kicked_world 1)) = 1"
    "map eType (cWritten (wClient told_world 1)) = [TypePeerKicked]" by code_simp+
  ultimately show ?thesis by simp
qed

text \<open>
  C32: A closed queue is drained before the connection ends: once as many writes succeed as
  messages are waiting, every message the connection was given is on the socket, and the next
  turn of the writer closes it.
\<close>

theorem writer_drains_closed_queue:
  assumes "cConnOpen x" and "cClosed x"
  shows "(writeLoop_step True ^^ Suc (length (cSend x))) x = x\<lparr>cSend := [], cWritten := stream x, cConnOpen := False\<rparr>"
  using assms by (simp add: written_all writeLoop_step_def)

theorem writer_drains_closed_queue_witness:
  "cConnOpen (wClient kicked_world 1) \<and> map eType (cWritten ((writeLoop_step True ^^ 2) (wClient kicked_world 1))) = [TypePeerKicked]"
proof -
  have x: "cConnOpen (wClient kicked_world 1)" "cClosed (wClient kicked_world 1)"
    "length (cSend (wClient kicked_world 1)) = 1" "map eType (stream (wClient kicked_world 1)) = [TypePeerKicked]"
    by code_simp+
  from writer_drains_closed_queue [OF x(1,2)] x(1,3,4) show ?thesis by (simp add: numeral_2_eq_2)
qed

end
