(* ===== verification/Messages.thy ===== *)
theory Messages
  imports Authority
begin

text \<open>
  How far a message of a connection reaches (\<open>readLoop\<close> and \<open>handleEnvelope\<close> of
  \<open>internal/server/hub.go\<close>): \<open>contained c r w w'\<close> says that from \<open>w\<close> to \<open>w'\<close> nothing but room \<open>r\<close>,
  its pending joins, connection \<open>c\<close> and the members of \<open>r\<close> was touched.  It is a preorder, so
  each operation has one lemma; with the senders of \<open>Streams\<close> it gives what a message may do.
\<close>

definition contained :: "nat \<Rightarrow> nat \<Rightarrow> world \<Rightarrow> world \<Rightarrow> bool" where
  "contained c r w w' \<longleftrightarrow>
     wRooms w' = wRooms w \<and> wDB w' = wDB w \<and> wNextClient w' = wNextClient w
     \<and> (\<forall>q. q \<noteq> r \<longrightarrow> wRoom w' q = wRoom w q)
     \<and> set (rClients (wRoom w' r)) \<subseteq> set (rClients (wRoom w r))
     \<and> set (rPending (wRoom w' r)) \<subseteq> set (rPending (wRoom w r))
     \<and> (\<forall>p. p \<notin> snd ` set (rPending (wRoom w r)) \<longrightarrow> wPending w' p = wPending w p)
     \<and> (\<forall>k. k \<noteq> c \<longrightarrow> wPhase w' k = wPhase w k)
     \<and> (\<forall>k. k \<noteq> c \<longrightarrow> k \<notin> snd ` members w r \<longrightarrow> wClient w' k = wClient w k)"

lemma contained_refl [simp]: "contained c r w w"
  by (simp add: contained_def)

lemma contained_trans:
  assumes "contained c r w w1" and "contained c r w1 w2"
  shows "contained c r w w2"
proof -
  have "snd ` members w1 r \<subseteq> snd ` members w r"
    "snd ` set (rPending (wRoom w1 r)) \<subseteq> snd ` set (rPending (wRoom w r))"
    using assms(1) unfolding contained_def by (intro image_mono; blast)+
  then have "k \<notin> snd ` members w r \<Longrightarrow> k \<notin> snd ` members w1 r"
    "p \<notin> snd ` set (rPending (wRoom w r)) \<Longrightarrow> p \<notin> snd ` set (rPending (wRoom w1 r))" for k p
    by blast+
  moreover have "members w2 r \<subseteq> members w r" "set (rPending (wRoom w2 r)) \<subseteq> set (rPending (wRoom w r))"
    using assms unfolding contained_def by (blast intro: subset_trans)+
  ultimately show ?thesis using assms unfolding contained_def by simp
qed

text \<open>Steps that only touch connections.\<close>

lemma contained_clients:
  assumes "wRooms w' = wRooms w" "wDB w' = wDB w" "wNextClient w' = wNextClient w" "wRoom w' = wRoom w"
    "wPending w' = wPending w" "wPhase w' = wPhase w"
    and "\<And>k. k \<noteq> c \<Longrightarrow> k \<notin> snd ` members w r \<Longrightarrow> wClient w' k = wClient w k"
  shows "contained c r w w'"
  using assms unfolding contained_def by simp

lemma deliver_other: "k \<notin> set cs \<Longrightarrow> snd (deliver slot env cs h) k = h k"
  by (simp add: deliver_send_all send.send_all_other)

lemma queue_to_other [simp]:
  "wRooms (queue_to slot e k w) = wRooms w" "wDB (queue_to slot e k w) = wDB w"
  "wClient (queue_to slot e k w) = (wClient w)(k := snd (queue (slot k) e (wClient w k)))"
  by (simp_all add: queue_to_def)

lemma broadcast_other [simp]:
  "wRooms (broadcast slot e r x w) = wRooms w" "wDB (broadcast slot e r x w) = wDB w"
  by (simp_all add: broadcast_def)

lemma contained_self [simp]: "contained c r w (set_client c x w)"
  by (rule contained_clients) simp_all

lemma contained_queue_to: "k = c \<or> k \<in> snd ` members w r \<Longrightarrow> contained c r w (queue_to slot e k w)"
  by (rule contained_clients) auto

lemma contained_shutdown: "k = c \<or> k \<in> snd ` members w r \<Longrightarrow> contained c r w (shutdown_client k w)"
  by (rule contained_clients) auto

lemma contained_deliver:
  assumes "\<And>k. k \<in> set cs \<Longrightarrow> k \<in> snd ` members w r"
  shows "contained c r w (w\<lparr>wClient := snd (deliver slot env cs (wClient w))\<rparr>)"
proof (rule contained_clients)
  fix k assume "k \<notin> snd ` members w r"
  with assms have "k \<notin> set cs" by blast
  then show "wClient (w\<lparr>wClient := snd (deliver slot env cs (wClient w))\<rparr>) k = wClient w k"
    by (simp add: deliver_other)
qed simp_all

lemma contained_broadcast [simp]: "contained c r w (broadcast slot e r x w)"
  unfolding broadcast_def by (rule contained_deliver) (auto simp: targets_def)

lemma contained_sendTo [simp]: "contained c r w (sendTo slot i e r w)"
proof (cases "map_of (rClients (wRoom w r)) i")
  case (Some k)
  then have "k \<in> snd ` members w r" by (auto dest: map_of_SomeD intro: rev_image_eqI)
  with Some show ?thesis by (simp add: sendTo_def contained_queue_to)
qed (simp add: sendTo_def)

lemma contained_forward [simp]: "contained c r w (forward slot c r e w)"
  by (simp add: forward_def)

lemma contained_send_error [simp]: "contained c r w (send_error slot st i m c w)"
  by (simp add: send_error_def)

lemma contained_spawn [simp]: "contained c r w (spawn j w)"
  by (rule contained_clients) (simp_all add: spawn_def)

section \<open>Handlers\<close>

lemma contained_handlers [simp]:
  "contained c r w (handle_doc_snapshot cfg slot st c r e w)"
  "contained c r w (handle_chat slot st c r e w)" "contained c r w (handle_signal slot st c r e w)"
  "contained c r w (handle_relay slot st c r e w)" "contained c r w (handle_ping slot st c e w)"
  by (simp_all add: handle_doc_snapshot_def handle_chat_def handle_signal_def handle_relay_def handle_ping_def
      Let_def contained_queue_to split: sum.split option.split)

lemma contained_doc_update [simp]: "contained c r w (handle_doc_update cfg slot st c r e w)"
  using contained_trans [OF contained_spawn contained_broadcast]
  by (simp add: handle_doc_update_def split: sum.split option.split)

lemma contained_presence [simp]: "contained c r w (handle_presence slot st now c r e w)"
  using contained_trans [OF contained_self contained_broadcast]
  by (simp add: handle_presence_def Let_def split: sum.split)

lemma contained_join_decision [simp]: "contained c r w (handle_join_decision slot st c r e w)"
proof -
  have "contained c r w (w\<lparr>wPending := (wPending w)(p := x)\<rparr>)"
    if "find P (map snd (rPending (wRoom w r))) = Some p" for P p x
  proof -
    have "p \<in> snd ` set (rPending (wRoom w r))"
      using that unfolding find_Some_iff by (metis nth_mem set_map)
    then show ?thesis by (auto simp: contained_def)
  qed
  then show ?thesis
    by (simp add: handle_join_decision_def split: sum.split option.split)
qed

lemma contained_remove [simp]:
  "contained c r w (set_room r ((wRoom w r)\<lparr>rClients := AList.delete i (rClients (wRoom w r))\<rparr>) w)"
  by (auto simp: contained_def)

lemma contained_kick [simp]: "contained c r w (handle_peer_kick slot st c r e w)"
proof -
  have "contained c r w (broadcast slot e2 r [] (set_room r (room\<lparr>rClients := AList.delete i (rClients room)\<rparr>) w1))"
    if "map_of (rClients (wRoom w r)) i = Some k" and "w1 = shutdown_client k (queue_to slot e1 k w)"
      and "room = wRoom w1 r" for e1 e2 k i w1 room
  proof -
    have "k \<in> snd ` members w r" using that(1) by (auto dest: map_of_SomeD intro: rev_image_eqI)
    then have "contained c r w w1"
      unfolding that(2) by (intro contained_trans [OF contained_queue_to contained_shutdown]) simp_all
    then show ?thesis
      unfolding that(3) by (rule contained_trans [OF contained_trans [OF _ contained_remove] contained_broadcast])
  qed
  then show ?thesis
    by (simp add: handle_peer_kick_def Let_def split: sum.split option.split)
qed

lemma contained_handleEnvelope [simp]: "contained c r w (handleEnvelope cfg slot st now c r e w)"
  by (simp add: handleEnvelope_def)

section \<open>leaveRoom and readLoop\<close>

lemma contained_left [simp]: "contained c r w (left_world c r w)"
  by (auto simp: contained_def left_world_def Let_def)

lemma refuse_others:
  "p \<notin> set ps \<Longrightarrow> foldl (\<lambda>h p. h(p := snd (decide d (h p)))) h ps p = h p"
  by (induction ps arbitrary: h) auto

lemma contained_closed [simp]: "contained c r w (closed_world r w)"
proof -
  have "foldl (\<lambda>h p. h(p := snd (decide d (h p)))) h (map snd (rPending (wRoom w r))) p = h p"
    if "p \<notin> snd ` set (rPending (wRoom w r))" for d h p
    by (rule refuse_others) (use that in simp)
  then show ?thesis
    by (simp add: contained_def closed_world_def close_pending_def Let_def)
qed

lemma contained_migration [simp]: "contained c r w (snd (tryHostMigrationLocked slot st r w))"
proof (cases "earliest (wClient w) None (map snd (rClients (wRoom w r)))")
  case (Some e)
  let ?w1 = "set_client e (setUser ((getUser (wClient w e))\<lparr>userRole := ''host''\<rparr>) (wClient w e))
    (set_room r ((wRoom w r)\<lparr>rHostID := cID (wClient w e)\<rparr>) w)"
  have "e \<in> snd ` members w r" using earliest_props [OF Some] by auto
  then have "contained c r w ?w1" by (auto simp: contained_def)
  moreover have "contained c r ?w1 (?w1\<lparr>wClient := snd (deliver slot (\<lambda>_. env) (map snd (rClients (wRoom w r))) (wClient ?w1))\<rparr>)" for env
    by (rule contained_deliver) simp
  ultimately have "contained c r w (?w1\<lparr>wClient := snd (deliver slot (\<lambda>_. env) (map snd (rClients (wRoom w r))) (wClient ?w1))\<rparr>)" for env
    by (rule contained_trans)
  then show ?thesis by (simp add: tryHostMigrationLocked_def Let_def Some)
qed (simp add: tryHostMigrationLocked_def)

lemma contained_phase: "contained c r w w1 \<Longrightarrow> contained c r w (set_phase c p w1)"
  by (simp add: contained_def)

lemma contained_leaveRoom [simp]: "contained c r w (leaveRoom_locked slot st c r w)"
proof -
  have "contained c r w (after_leave slot st c r w)"
    unfolding after_leave_def Let_def
    using contained_trans [OF contained_left contained_closed] contained_trans [OF contained_left contained_migration] by simp
  moreover obtain info where "leaveRoom_locked slot st c r w = set_phase c (Leaving r info) (after_leave slot st c r w)"
    using leaveRoom_locked_eq [of slot st c r w] by blast
  ultimately show ?thesis by (simp add: contained_phase)
qed

lemma contained_readLoop: "contained c r w (readLoop_iter cfg slot st now allow c r frame w)"
  using contained_trans [OF contained_self contained_leaveRoom] contained_trans [OF contained_self contained_handleEnvelope]
  by (simp add: readLoop_iter_def Let_def split: option.split)

end
