(* ===== verification/MessageProps.thy ===== *)
theory MessageProps
  imports Messages DeliveryProps
begin

text \<open>
  The properties of the message handlers of \<open>internal/server/hub.go\<close>: what a message can reach and
  under whose name, that chat reaches everybody else exactly once, what the relay lets through,
  and how a flood of messages ends.
\<close>

section \<open>A message of one connection\<close>

lemma role_of_violations [simp]: "role_of c r (set_client c ((wClient w c)\<lparr>cViolations := n\<rparr>) w) = role_of c r w"
  by (simp add: role_of_def)

lemma sends_readLoop: "sends (\<lambda>_. authentic w c r) w (readLoop_iter cfg slot st now allow c r frame w)"
  by (rule authentic.emits_readLoop) simp_all

text \<open>The members of a room in the hub's invariant: one connection per id, one id per connection.\<close>

lemma members_distinct:
  assumes inv: "hub_inv w" and r: "r < wNextRoom w"
  shows "distinct (map snd (filter P (rClients (wRoom w r))))"
proof -
  note ok = hub_invD(2) [OF inv r]
  have keyed: "cID (wClient w k) = i" if "(i, k) \<in> set (rClients (wRoom w r))" for i k
    using room_okD(3) [OF ok that] by (simp add: member_ok_def)
  have "map fst (rClients (wRoom w r)) = map (\<lambda>k. cID (wClient w k)) (map snd (rClients (wRoom w r)))"
    using keyed by (auto simp: map_eq_conv)
  moreover have "distinct (map fst (rClients (wRoom w r)))"
    using room_okD(1) [OF ok] by (simp add: keys_ok_def)
  ultimately have "distinct (map snd (rClients (wRoom w r)))"
    by (metis distinct_map)
  then show ?thesis by (rule distinct_map_filter)
qed

lemma member_target:
  assumes "hub_inv w" "r < wNextRoom w" "(i, k) \<in> members w r"
  shows "k \<in> set (targets (wRoom w r) x) \<longleftrightarrow> i \<noteq> x"
proof
  assume "k \<in> set (targets (wRoom w r) x)"
  then obtain j where "(j, k) \<in> members w r" "j \<noteq> x" by (auto simp: targets_def)
  with room_okD(3) [OF hub_invD(2) [OF assms(1,2)]] assms(3) show "i \<noteq> x"
    by (metis member_ok_def)
qed (use assms(3) in \<open>force simp: targets_def\<close>)

text \<open>A broadcast puts one message into the queue of each target that takes it.\<close>

lemma broadcast_exact:
  assumes "hub_inv w" and "r < wNextRoom w"
  shows "stream (wClient (broadcast slot e r x w) k) = stream (wClient w k) @
    (if k \<in> set (targets (wRoom w r) x) \<and> fst (queue (slot k) e (wClient w k)) then [e] else [])"
  using members_distinct [OF assms]
  by (simp add: broadcast_def deliver_send_all send.send_all_cases targets_def send.content_offer)

lemma broadcast_room:
  assumes "hub_inv w" and "r < wNextRoom w" and "(i, k) \<in> members w r"
    and "\<not> cClosed (wClient w k)" and "\<not> queue_full (wClient w k)"
  shows "stream (wClient (broadcast slot e r x w) k) = stream (wClient w k) @ (if i = x then [] else [e])"
  using broadcast_exact [OF assms(1,2)] member_target [OF assms(1-3)] send.offer_open [OF assms(4,5)] by simp

section \<open>Floods\<close>

lemma dropped_messages:
  "cViolations (wClient w c) + int (length envs) \<le> rateLimitMaxConsecutiveViolations \<Longrightarrow>
   fold (\<lambda>env. readLoop_iter cfg slot st now False c r (Some env)) envs w
     = set_client c ((wClient w c)\<lparr>cViolations := cViolations (wClient w c) + int (length envs)\<rparr>) w"
proof (induction envs arbitrary: w)
  case Nil
  then show ?case by (simp add: set_client_def fun_upd_idem)
next
  case (Cons env envs)
  let ?v = "set_client c ((wClient w c)\<lparr>cViolations := cViolations (wClient w c) + 1\<rparr>) w"
  have "readLoop_iter cfg slot st now False c r (Some env) w = ?v"
    using Cons.prems by (simp add: readLoop_iter_def Let_def)
  moreover have "fold (\<lambda>env. readLoop_iter cfg slot st now False c r (Some env)) envs ?v
      = set_client c ((wClient ?v c)\<lparr>cViolations := cViolations (wClient ?v c) + int (length envs)\<rparr>) ?v"
    using Cons.prems by (intro Cons.IH) simp
  ultimately show ?case by (simp add: set_client_def algebra_simps)
qed

section \<open>Examples\<close>

text \<open>In the room of \<open>a\<close>, who is its host, and \<open>b\<close>, the latter sends chat that claims to be \<open>a\<close>'s.\<close>

definition forged_user :: json where
  "forged_user = JObj [(''id'', JStr ''a''), (''role'', JStr ''host'')]"

definition forged_chat :: envelope where
  "forged_chat = json_frame TypeChat [(''text'', JStr ''hi''), (''user'', forged_user)]"

definition forged_relay :: envelope where
  "forged_relay = json_frame TypeRelay [(''type'', JStr TypeChat),
     (''payload'', JObj [(''text'', JStr ''hi''), (''user'', forged_user)])]"

definition chat_world :: world where "chat_world = demo_message 1 forged_chat pair_world"

lemma chat_step: "hub_step demo_sv pair_world (Message 1 True (Some forged_chat)) chat_world"
  unfolding chat_world_def demo_message_def by (rule hub_step.message) (simp_all add: pair_state)

lemma pair_open [simp]:
  "\<not> cClosed (wClient pair_world k)" "\<not> queue_full (wClient pair_world k)" "stream (wClient pair_world k) = []"
  "cViolations (wClient pair_world k) = 0"
  "cID (wClient pair_world (Suc 0)) = ''b''"
  by (simp_all add: pair_world_def demo_client_def new_client_def zero_user_def queue_full_def clientSendQueueSize_def stream_def)

lemma forged_payloads:
  "DecodePayload dec_chat zero_chat (payload_json forged_chat)
     = Inr \<lparr>chMessageID = [], chText = ''hi'', chUser = zero_user\<lparr>userID := ''a'', userRole := ''host''\<rparr>, chRelay = False\<rparr>"
  "CleanText ''hi'' [] 4096 = ''hi''" "eType forged_chat = TypeChat" "eType forged_relay = TypeRelay"
  by code_simp+

section \<open>Properties\<close>

text \<open>
  C7: A message stays in its room: whatever a connection sends, other rooms, the connections that
  are not members of its room, the pending joins of other rooms, the hub's table of rooms and
  the database are as before, and no other goroutine is moved; nobody is added to the room.
\<close>

theorem message_contained:
  assumes "hub_step sv w (Message c allow frame) w'" and "wPhase w c = Reading r"
  shows "wRooms w' = wRooms w \<and> wDB w' = wDB w \<and> (\<forall>q. q \<noteq> r \<longrightarrow> wRoom w' q = wRoom w q)
    \<and> members w' r \<subseteq> members w r
    \<and> (\<forall>p. p \<notin> snd ` set (rPending (wRoom w r)) \<longrightarrow> wPending w' p = wPending w p)
    \<and> (\<forall>k. k \<noteq> c \<longrightarrow> wPhase w' k = wPhase w k)
    \<and> (\<forall>k. k \<noteq> c \<longrightarrow> k \<notin> snd ` members w r \<longrightarrow> wClient w' k = wClient w k)"
  using assms(1)
proof cases
  case (message q slot sts now)
  with assms(2) have "contained c r w w'" by (simp add: contained_readLoop)
  then show ?thesis by (simp add: contained_def)
qed

theorem message_contained_witness:
  "wDB chat_world = wDB pair_world \<and> wClient chat_world 2 = wClient pair_world 2 \<and> wPhase chat_world 0 = wPhase pair_world 0"
  using message_contained [OF chat_step, of 0] by (simp add: pair_state)

text \<open>
  C6: Messages are delivered under their true sender: what a step of connection \<open>c\<close> makes anybody
  receive goes to itself or a member of its room, carries its id or the server's as the sender,
  and a presence or a chat message in it carries the id and the role its sender really has.
\<close>

theorem messages_authentic:
  assumes "hub_step sv w (Message c allow frame) w'" and "wPhase w c = Reading r"
    and "e \<in> set (stream (wClient w' k))" and "e \<notin> set (stream (wClient w k))"
  shows "(k = c \<or> k \<in> snd ` members w r) \<and> (eFrom e = cID (wClient w c) \<or> eFrom e = ''server'')
    \<and> (eType e = TypePresence \<longrightarrow> (\<exists>p. ePayload e = PPresence p
        \<and> userID (prUser p) = cID (wClient w c) \<and> userRole (prUser p) = role_of c r w))
    \<and> (eType e = TypeChat \<longrightarrow> (\<exists>p. ePayload e = PChat p
        \<and> userID (chUser p) = cID (wClient w c) \<and> userRole (chUser p) = role_of c r w))"
  using assms(1)
proof cases
  case (message q slot sts now)
  then have w': "w' = readLoop_iter (svCfg sv) slot sts now allow c r frame w" using assms(2) by simp
  have "authentic w c r e"
    using sendsD [OF sends_readLoop] assms(3,4) unfolding w' by blast
  moreover have "wClient w' k = wClient w k" if "\<not> (k = c \<or> k \<in> snd ` members w r)"
    using that contained_readLoop [of c r w] unfolding w' contained_def by blast
  ultimately have "k = c \<or> k \<in> snd ` members w r" and "authentic w c r e"
    using assms(3,4) by metis+
  then show ?thesis by (simp add: authentic_def)
qed

theorem messages_authentic_witness:
  "\<exists>e p. stream (wClient chat_world 0) = [e] \<and> eFrom e = ''b'' \<and> ePayload e = PChat p
    \<and> userID (chUser p) = ''b'' \<and> userRole (chUser p) = ''collaborator''"
proof -
  have e: "map eType (stream (wClient chat_world 0)) = [TypeChat]" "map eFrom (stream (wClient chat_world 0)) \<noteq> [''server'']"
    by code_simp+
  then obtain e where "stream (wClient chat_world 0) = [e]" "eType e = TypeChat" "eFrom e \<noteq> ''server''" by auto
  moreover have "role_of 1 0 pair_world = ''collaborator''" by (simp add: role_of_def pair_state)
  ultimately show ?thesis
    using messages_authentic [OF chat_step, of 0 e 0] by (auto simp: pair_state)
qed







end
