(* ===== verification/Sessions.thy ===== *)
theory Sessions
  imports MessageProps StoreProps
begin

text \<open>
  The database behind the hub (\<open>internal/server/hub.go\<close>): who is let in, which state a joining
  client is given, and what becomes of an update that a client sent.
\<close>

section \<open>Authentication\<close>

lemma auth_accepted:
  assumes "handleSocket_auth hmac cfg st rnd f1 f2 now t frame db = (AuthAccepted x s, db')"
  obtains env a u where "frame = Some env" "eType env = TypeAuth"
    "DecodePayload dec_auth zero_auth (payload_json env) = Inr a"
    "x = new_client (trim_space (auRoomID a)) u t" "trim_space (auRoomID a) \<noteq> []" "trim_space (auRoomKey a) \<noteq> []"
    "u = (clean_user rnd (auUser a))\<lparr>userLastSeen := now\<rparr>"
    "EnsureRoom f1 now (trim_space (auRoomID a)) (roomKeyHash hmac (hcSecret cfg) (trim_space (auRoomID a)) (trim_space (auRoomKey a))) db
       = (Inr (), db')"
    "LoadRoomState f2 db' db' (trim_space (auRoomID a)) = Inr s"
  using assms unfolding handleSocket_auth_def Let_def
  by (auto simp: auth_error_def split: option.splits if_splits sum.splits prod.splits)

section \<open>The state of a pending join\<close>

lemma step_pending:
  assumes "hub_step sv w e w'" and "p < wNextPending w"
  shows "pjState (wPending w' p) = pjState (wPending w p) \<and> p < wNextPending w'"
proof -
  have decide: "pjState (snd (decide d x)) = pjState x" for d x
    by (simp add: decide_def split: option.split)
  have refuse: "pjState (foldl (\<lambda>h p. h(p := snd (decide d (h p)))) h ps q) = pjState (h q)" for d h ps q
    by (induction ps arbitrary: h) (auto simp: decide)
  have closed: "pjState (wPending (closed_world r v) q) = pjState (wPending v q)" for r v q
    by (simp add: closed_world_def close_pending_def Let_def refuse)
  have leave: "pjState (wPending (leaveRoom_locked slot st c r v) q) = pjState (wPending v q)
      \<and> wNextPending (leaveRoom_locked slot st c r v) = wNextPending v" for slot st c r v q
  proof -
    obtain info where "leaveRoom_locked slot st c r v = set_phase c (Leaving r info) (after_leave slot st c r v)"
      using leaveRoom_locked_eq [of slot st c r v] by blast
    moreover have "wNextPending (snd (tryHostMigrationLocked slot s r v')) = wNextPending v'" for s v'
      by (simp add: tryHostMigrationLocked_def Let_def split: option.split)
    ultimately show ?thesis by (simp add: after_leave_def Let_def closed)
  qed
  have presence: "wNextPending (handle_presence slot st now c r env v) = wNextPending v" for slot st now c r env v
    by (simp add: handle_presence_def Let_def split: sum.split)
  have kick: "wNextPending (handle_peer_kick slot st c r env v) = wNextPending v" for slot st c r env v
    by (simp add: handle_peer_kick_def Let_def split: sum.split option.split)
  have dec: "pjState (wPending (handle_join_decision slot st c r env v) q) = pjState (wPending v q)
      \<and> wNextPending (handle_join_decision slot st c r env v) = wNextPending v" for slot st c r env v q
    by (simp add: handle_join_decision_def decide split: sum.split option.split)
  have handle: "pjState (wPending (handleEnvelope cfg slot st now c r env v) q) = pjState (wPending v q)
      \<and> wNextPending (handleEnvelope cfg slot st now c r env v) = wNextPending v" for cfg slot st now c r env v q
    by (cases rule: handleEnvelope_cases [of v cfg slot st now c r env])
       (simp_all add: quiet_sel presence kick dec)
  show ?thesis
    using assms(1)
  proof cases
    case (message c r slot sts now allow frame)
    then show ?thesis using assms(2)
      by (simp add: readLoop_iter_def Let_def leave handle split: option.split)
  next
    case (job n now slot sts acquired f1 f2)
    with assms(2) quiet_sel(4,5) [OF quiet_job] show ?thesis by simp
  next
    case (enter c r state rnds slot sts rnd t)
    then show ?thesis using assms(2)
      by (auto simp: joinRoom_enter_def Let_def join_as_host_def join_as_pending_def split: option.split)
  next
    case (lookup c state slot sts)
    then show ?thesis using assms(2)
      by (auto simp: joinRoom_lookup_def hub_room_def Let_def split: option.split)
  next
    case (finish c r p d slot sts)
    then show ?thesis using assms(2)
      by (auto simp: joinRoom_finish_def Let_def)
  next
    case (rest c r info now slot sts f1)
    then show ?thesis using assms(2) by (simp add: leaveRoom_rest_def Let_def)
  qed (use assms(2) in \<open>auto simp: connect_def Let_def receive_decision_def approval_timeout_def\<close>)
qed

lemma run_pending:
  "hub_run sv w es w' \<Longrightarrow> p < wNextPending w \<Longrightarrow> pjState (wPending w' p) = pjState (wPending w p) \<and> p < wNextPending w'"
  by (induction rule: hub_run.induct) (simp_all add: step_pending)

lemma stream_queue_open:
  "\<not> cClosed x \<Longrightarrow> \<not> queue_full x \<Longrightarrow> stream (snd (queue b e x)) = stream x @ [e]"
  using send.offer_open by (simp add: stream_queue)

lemma sends_any: "sends (\<lambda>_ _. True) w (broadcast slot e r x w)"
  by (rule sends_broadcast) simp

lemma sends_grow: "sends P w w' \<Longrightarrow> \<exists>es. stream (wClient w' k) = stream (wClient w k) @ es"
  unfolding sends_def by blast

text \<open>What an approved connection is sent first.\<close>

lemma finish_auth_ok:
  assumes "approved d" and "\<not> rClosed (wRoom w r)" and "\<not> host_gone (wRoom w r)"
    and "\<not> cClosed (wClient w c)" and "\<not> queue_full (wClient w c)"
  shows "\<exists>e a es. stream (wClient (joinRoom_finish slot st c r p d w) c) = stream (wClient w c) @ e # es
    \<and> eType e = TypeAuthOK \<and> ePayload e = PAuthOK a
    \<and> aoCompactStateBase64 a = encode_compact (CompactState (pjState (wPending w p)))
    \<and> aoUpdates a = storedUpdatesForProtocol (Updates (pjState (wPending w p)))"
proof -
  let ?i = "cID (wClient w c)"
  let ?room = "(wRoom w r)\<lparr>rPending := AList.delete ?i (rPending (wRoom w r))\<rparr>"
  let ?e = "auth_ok_envelope (st 0) ?i (peersLocked ?room ?i (wClient w)) (pjState (wPending w p)) False (rHostID (wRoom w r))"
  let ?w1 = "set_room r (?room\<lparr>rClients := AList.update ?i c (rClients (wRoom w r))\<rparr>) (set_room r ?room w)"
  let ?w2 = "queue_to slot ?e c ?w1"
  have "\<not> host_gone ?room" using assms(3) by (simp add: host_gone_def)
  then have "joinRoom_finish slot st c r p d w = set_phase c (Reading r)
      (broadcast slot (NewEnvelope (st 1) TypePeerJoined ''server'' [] (PUser (getUser (wClient ?w2 c)))) r ?i ?w2)"
    using assms(1,2) by (simp add: joinRoom_finish_def Let_def)
  moreover have "stream (wClient ?w2 c) = stream (wClient w c) @ [?e]"
    using assms(4,5) by (simp add: stream_queue_open)
  moreover obtain es where "stream (wClient (broadcast slot (NewEnvelope (st 1) TypePeerJoined ''server'' [] (PUser (getUser (wClient ?w2 c)))) r ?i ?w2) c)
      = stream (wClient ?w2 c) @ es"
    using sends_grow [OF sends_any] by blast
  ultimately show ?thesis
    by (auto simp: auth_ok_envelope_def NewEnvelope_def)
qed

section \<open>Updates\<close>

lemma append_error_same: "AppendUpdate f now rid u db = (Inl e, db') \<Longrightarrow> db' = db"
  by (auto simp: AppendUpdate_def Let_def split: option.splits if_splits)

lemma append_storage:
  assumes "AppendUpdate f now rid u db = (Inr seq, db')"
  shows "RoomStorageBytes no_fails rid db' = map_sum id (\<lambda>n. n + int (length u)) (RoomStorageBytes no_fails rid db)"
proof -
  obtain r where r: "select_room db rid = Some r" and
    db': "db' = update_rooms (\<lambda>r. rwID r = rid) (\<lambda>r. r\<lparr>rwUpdateSeq := seq,
        rwStorageBytes := rwStorageBytes r + int (length u), rwUpdateCount := rwUpdateCount r + 1, rwUpdatedAt := now\<rparr>)
      (db\<lparr>dbUpdates := dbUpdates db @ [\<lparr>urRoomID = rid, urSeq = seq, urBlob = u, urCreatedAt = now\<rparr>]\<rparr>)"
    using assms by (auto simp: AppendUpdate_def insert_update_def Let_def split: option.splits if_splits)
  have "rwID r = rid" "select_room (db\<lparr>dbUpdates := us\<rparr>) rid = Some r" for us
    using r by (auto simp: select_room_def find_Some_iff)
  then show ?thesis
    by (simp add: db' RoomStorageBytes_def no_fails_def store_simps r)
qed

text \<open>The branches of the goroutine that persists an update.\<close>

lemma run_update_cases:
  assumes "w' = run_update cfg slot st acquired f1 f2 now c r updateID update w"
  obtains (persisted) seq db' where "acquired" "\<not> storage_exceeded cfg f1 (cRoomID (wClient w c)) (int (length update)) (wDB w)"
      "AppendUpdate f2 now (cRoomID (wClient w c)) update (wDB w) = (Inr seq, db')"
      "w' = spawn (JobCompact c) (w\<lparr>wDB := db'\<rparr>)"
  | (rejected) why where "w' = queue_to slot (rejected_envelope (st 0) c updateID why w) c w"
  | (failed) e where "AppendUpdate f2 now (cRoomID (wClient w c)) update (wDB w) = (Inl e, wDB w)"
      "w' = broadcastSyncRequest slot (\<lambda>k. st (Suc k)) r (queue_to slot (rejected_envelope (st 0) c updateID txt_persist_failed w) c w)"
proof (cases "acquired \<and> \<not> storage_exceeded cfg f1 (cRoomID (wClient w c)) (int (length update)) (wDB w)")
  case True
  obtain out db' where a: "AppendUpdate f2 now (cRoomID (wClient w c)) update (wDB w) = (out, db')" by fastforce
  show thesis
  proof (cases out)
    case (Inl e)
    with append_error_same a have "db' = wDB w" by blast
    with a Inl True show thesis
      by (intro failed [of e]) (simp_all add: assms run_update_def Let_def)
  next
    case (Inr seq)
    with a True show thesis
      by (intro persisted [of seq db']) (simp_all add: assms run_update_def Let_def)
  qed
next
  case False
  then show thesis
    by (intro rejected [of "if acquired then txt_storage_full else txt_busy_retry"])
      (auto simp: assms run_update_def Let_def)
qed

section \<open>Examples\<close>

lemma trim_letters: "trim_space ''r'' = ''r''" "trim_space ''k'' = ''k''"
proof -
  have "plain ''r''" "plain ''k''" by code_simp+
  then show "trim_space ''r'' = ''r''" "trim_space ''k'' = ''k''" by (simp_all only: trim_space_plain)
qed

text \<open>\<open>b\<close> waits for approval in a room whose host has just sent an update.\<close>

lemma pair_append: "AppendUpdate f now rid u (wDB pair_world) \<noteq> (Inr seq, db)"
  by (simp add: AppendUpdate_def select_room_def pair_world_def empty_db_def)

definition room_db :: db where "room_db = snd (EnsureRoom no_fails ''t1'' ''r'' ''h'' empty_db)"

definition busy_world :: world where
  "busy_world = pending_world\<lparr>wJobs := [JobUpdate 0 0 ''u'' [7]], wDB := room_db\<rparr>"

definition stored_world :: world where
  "stored_world = run_job id (svCfg demo_sv) always stamped True no_fails no_fails ''t2'' (wJobs busy_world ! 0)
     (busy_world\<lparr>wJobs := drop_nth 0 (wJobs busy_world)\<rparr>)"

lemma busy_inv: "hub_inv busy_world"
  unfolding busy_world_def by (rule inv_quiet [OF pending_inv]) (simp add: quiet_def)

lemma stored_run: "hub_run demo_sv busy_world [RunJob 0] stored_world"
proof -
  have "hub_step demo_sv busy_world (RunJob 0) stored_world"
    using hub_step.job [where n = 0 and w = busy_world and sv = demo_sv and slot = always and sts = stamped
      and acquired = True and ?f1.0 = no_fails and ?f2.0 = no_fails and now = "''t2''"]
    by (simp add: stored_world_def busy_world_def demo_sv_def)
  from hub_run.step [OF hub_run.start this] show ?thesis by simp
qed

lemma stored_facts:
  "LoadRoomState no_fails (wDB stored_world) (wDB stored_world) ''r'' = Inr \<lparr>CompactState = None, Updates = [(1, [7])]\<rparr>"
  "\<not> rClosed (wRoom stored_world 0)" "\<not> host_gone (wRoom stored_world 0)"
  "\<not> cClosed (wClient stored_world 1)" "cSend (wClient stored_world 1) = []" "cCap (wClient stored_world 1) = 2048"
  by code_simp+

section \<open>Properties\<close>

text \<open>
  C12: Nobody enters a room without its key: a connection is authenticated only by an auth message
  that names a room and a key, neither of them blank; the room then exists, is open and stored
  under the hash of that key, and if it existed before, it was open and stored under it before.
  The fields other members are shown are cut to their limits.
\<close>

theorem authentication_needs_key:
  assumes "store_inv db" and "now \<noteq> []"
    and "handleSocket_auth hmac cfg st rnd f1 f2 now t frame db = (AuthAccepted x s, db')"
  shows "\<exists>env a h. frame = Some env \<and> eType env = TypeAuth
    \<and> DecodePayload dec_auth zero_auth (payload_json env) = Inr a
    \<and> cRoomID x = trim_space (auRoomID a) \<and> trim_space (auRoomID a) \<noteq> [] \<and> trim_space (auRoomKey a) \<noteq> []
    \<and> h = roomKeyHash hmac (hcSecret cfg) (cRoomID x) (trim_space (auRoomKey a))
    \<and> open_with db' (cRoomID x) h \<and> (abs db (cRoomID x) = None \<or> open_with db (cRoomID x) h)
    \<and> LoadRoomState f2 db' db' (cRoomID x) = Inr s
    \<and> length (userName (cUser x)) \<le> 64 \<and> length (userColor (cUser x)) \<le> 16 \<and> length (userPageID (cUser x)) \<le> 64"
proof (rule auth_accepted [OF assms(3)])
  fix env a u
  assume f: "frame = Some env" "eType env = TypeAuth" "DecodePayload dec_auth zero_auth (payload_json env) = Inr a"
    and x: "x = new_client (trim_space (auRoomID a)) u t" and ne: "trim_space (auRoomID a) \<noteq> []" "trim_space (auRoomKey a) \<noteq> []"
    and u: "u = (clean_user rnd (auUser a))\<lparr>userLastSeen := now\<rparr>"
    and e: "EnsureRoom f1 now (trim_space (auRoomID a)) (roomKeyHash hmac (hcSecret cfg) (trim_space (auRoomID a)) (trim_space (auRoomKey a))) db
       = (Inr (), db')"
    and l: "LoadRoomState f2 db' db' (trim_space (auRoomID a)) = Inr s"
  have "length txt_anonymous \<le> 64" by code_simp
  then have "length (userName (cUser x)) \<le> 64 \<and> length (userColor (cUser x)) \<le> 16 \<and> length (userPageID (cUser x)) \<le> 64"
    using CleanText_length [of "userName (auUser a)" txt_anonymous 64] CleanText_length [of "userColor (auUser a)" "''#888888''" 16]
      CleanText_length [of "userPageID (auUser a)" "[]" 64]
    by (simp add: x new_client_def u clean_user_def)
  with f ne l ensure_accepts [OF assms(1,2) e] show ?thesis
    by (simp add: x new_client_def)
qed

theorem authentication_needs_key_witness:
  "open_with (snd (demo_auth ''a'' 1 empty_db)) ''r'' (''r'' @ [CHR 0x00] @ ''k'')"
proof -
  have "accepted (demo_auth ''a'' 1 empty_db)" by code_simp
  then obtain x s db where auth: "demo_auth ''a'' 1 empty_db = (AuthAccepted x s, db)"
    by (cases "demo_auth ''a'' 1 empty_db") (auto simp: accepted_def split: auth_result.splits)
  have "DecodePayload dec_auth zero_auth (payload_json (auth_frame ''a''))
      = Inr \<lparr>auRoomID = ''r'', auRoomKey = ''k'', auUser = zero_user\<lparr>userID := ''a''\<rparr>\<rparr>"
    by code_simp
  with authentication_needs_key [OF store_inv_empty _ auth [unfolded demo_auth_def]] auth show ?thesis
    by (auto simp: trim_letters roomKeyHash_def demo_sv_def)
qed



text \<open>
  The quota holds: an update that is stored leaves the counter of the room's bytes within the
  configured limit, when the counter could be read.
\<close>

lemma stored_update_within_quota:
  assumes "w' = run_update cfg slot st acquired f1 f2 now c r updateID update w"
    and "wDB w' \<noteq> wDB w" and "\<not> f1 0"
  shows "\<exists>n. RoomStorageBytes no_fails (cRoomID (wClient w c)) (wDB w') = Inr n \<and> n \<le> hcRoomMaxStorageBytes cfg"
  using assms(1)
proof (cases rule: run_update_cases)
  case (persisted seq db')
  let ?rid = "cRoomID (wClient w c)"
  have "RoomStorageBytes f1 ?rid (wDB w) = RoomStorageBytes no_fails ?rid (wDB w)"
    using assms(3) by (simp add: RoomStorageBytes_def no_fails_def)
  moreover obtain n where "RoomStorageBytes no_fails ?rid (wDB w) = Inr n"
    by (simp add: RoomStorageBytes_def no_fails_def)
  ultimately show ?thesis
    using persisted(2) append_storage [OF persisted(3)] by (simp add: persisted(4) spawn_def storage_exceeded_def)
qed (use assms(2) in \<open>simp_all add: broadcastSyncRequest_def\<close>)

lemma stored_update_within_quota_example:
  "\<exists>n. RoomStorageBytes no_fails ''r'' (wDB (run_update (svCfg demo_sv) always stamped True no_fails no_fails ''t'' 0 0 ''u'' [7] busy_world)) = Inr n
     \<and> n \<le> hcRoomMaxStorageBytes (svCfg demo_sv)"
proof -
  have "dbUpdates (wDB (run_update (svCfg demo_sv) always stamped True no_fails no_fails ''t'' 0 0 ''u'' [7] busy_world)) \<noteq> dbUpdates (wDB busy_world)"
    by code_simp
  then have "wDB (run_update (svCfg demo_sv) always stamped True no_fails no_fails ''t'' 0 0 ''u'' [7] busy_world) \<noteq> wDB busy_world"
    by auto
  moreover have "cRoomID (wClient busy_world 0) = ''r''" by (simp add: busy_world_def pending_world_def)
  ultimately show ?thesis
    using stored_update_within_quota [where cfg = "svCfg demo_sv" and slot = always and st = stamped and acquired = True and ?f1.0 = no_fails
      and ?f2.0 = no_fails and now = "''t''" and c = 0 and r = 0 and updateID = "''u''" and update = "[7]" and w = busy_world, OF refl]
    by (simp add: no_fails_def)
qed



end
