(* ===== verification/Process.thy ===== *)
theory Process
  imports Config Http
begin

text \<open>
  The process (\<open>main.go\<close>) and its background cleanup (\<open>StartCleanup\<close> of
  \<open>internal/server/hub.go\<close>): what is opened in which order, which failures end the start, what the
  log file is before the first line is written, and what happens between the signal to stop and
  the end.  Deferred calls run in reverse order when \<open>main\<close> returns or panics, and not at all
  after \<open>log.Fatal\<close> or a panic of another goroutine.
\<close>

section \<open>The log file\<close>

text \<open>
  The directory and the file of the log: the size of the file, None when there is none, and
  whether making the directory, truncating and opening fail.
\<close>

record log_disk =
  ldSize :: "int option"
  ldMkdirFails :: bool
  ldTruncateFails :: bool
  ldOpenFails :: bool

definition log_path :: "string \<Rightarrow> string" where
  "log_path logPath = (if logPath = [] then ''logs/timenotes-collab.log'' else logPath)"

definition configureLogging :: "string \<Rightarrow> int \<Rightarrow> log_disk \<Rightarrow> (string, string) result \<times> log_disk" where
  "configureLogging logPath maxBytes disk =
     (let path = log_path logPath
      in if ldMkdirFails disk then (Inl ''mkdir'', disk)
         else
           (let large = (case ldSize disk of None \<Rightarrow> False | Some n \<Rightarrow> n > maxBytes)
            in if large \<and> ldTruncateFails disk then (Inl ''truncate'', disk)
               else
                 (let disk = (if large then disk\<lparr>ldSize := Some 0\<rparr> else disk)
                  in if ldOpenFails disk then (Inl ''open'', disk)
                     else (Inr path, disk\<lparr>ldSize := Some (case ldSize disk of None \<Rightarrow> 0 | Some n \<Rightarrow> n)\<rparr>))))"

section \<open>The HTTP server\<close>

text \<open>What \<open>main\<close> configures Fiber and its CORS middleware with; times in nanoseconds.\<close>

record http_settings =
  hsAppName :: string
  hsReadTimeout :: int
  hsWriteTimeout :: int
  hsIdleTimeout :: int
  hsAllowOrigin :: "string \<Rightarrow> bool"
  hsAllowMethods :: "string list"
  hsAllowHeaders :: "string list"

definition main_settings :: "(string \<Rightarrow> url option) \<Rightarrow> app_config \<Rightarrow> http_settings" where
  "main_settings parseURL cfg =
     \<lparr>hsAppName = ''TimeNotes Collaboration Server'', hsReadTimeout = 10 * second, hsWriteTimeout = 10 * second,
      hsIdleTimeout = 30 * second,
      hsAllowOrigin = (\<lambda>origin. allowOrigin parseURL origin (acCORSOrigins cfg) (acAllowLoopbackOrigins cfg)),
      hsAllowMethods = [''GET'', ''POST'', ''OPTIONS''],
      hsAllowHeaders = [''Content-Type'', ''Upgrade'', ''Connection'']\<rparr>"

section \<open>Start, signal and end\<close>

datatype outcome = Running | Fatal string | Panicked | Returned

record process =
  prLogOpen :: bool
  prStoreOpen :: bool
  prStunOpen :: bool
  prStunDone :: bool \<comment> \<open>the channel \<open>done\<close> is closed\<close>
  prStopping :: bool \<comment> \<open>\<open>app.ShutdownWithContext\<close> was called\<close>
  prSignalled :: bool
  prOutcome :: outcome

definition nothing_open :: process where
  "nothing_open = \<lparr>prLogOpen = False, prStoreOpen = False, prStunOpen = False, prStunDone = False,
     prStopping = False, prSignalled = False, prOutcome = Running\<rparr>"

definition fatal :: "string \<Rightarrow> process \<Rightarrow> process" where
  "fatal message p = p\<lparr>prOutcome := Fatal message\<rparr>"

text \<open>\<open>main\<close> up to \<open>app.Listen\<close>; the arguments say which of its calls return an error.\<close>

definition start_process :: "(load_error, app_config) result \<Rightarrow> bool \<Rightarrow> bool \<Rightarrow> bool \<Rightarrow> process" where
  "start_process config logFails openFails stunFails =
     (let p0 = nothing_open
      in case config of
           Inl _ \<Rightarrow> fatal ''load config'' p0
         | Inr cfg \<Rightarrow>
             if logFails then fatal ''configure logging'' p0
             else
               (let p1 = p0\<lparr>prLogOpen := True\<rparr>
                in if openFails then fatal ''open sqlite store'' p1
                   else
                     (let p2 = p1\<lparr>prStoreOpen := True\<rparr>
                      in if stunFails then fatal ''start stun server'' p2
                         else p2\<lparr>prStunOpen := True\<rparr>)))"

text \<open>
  \<open>STUNServer.Close\<close>: closing the channel \<open>done\<close> a second time panics.
\<close>

definition stun_Close :: "process \<Rightarrow> process" where
  "stun_Close p = (if prStunDone p then p\<lparr>prOutcome := Panicked\<rparr> else p\<lparr>prStunDone := True, prStunOpen := False\<rparr>)"

text \<open>What \<open>main\<close> deferred, in the order it runs: the responder, the store, the log file.\<close>

definition run_deferred :: "process \<Rightarrow> process" where
  "run_deferred p = (stun_Close p)\<lparr>prStoreOpen := False, prLogOpen := False\<rparr>"

text \<open>
  The first signal is received by the goroutine that waits for it, which closes the responder and
  then shuts the HTTP server down; more signals are not received by anybody.  \<open>app.Listen\<close> returns
  without an error only after a shutdown.
\<close>

datatype process_event = Signal | ShutdownApp | ListenFails | ListenReturns

fun process_step :: "process_event \<Rightarrow> process \<Rightarrow> process" where
  "process_step Signal p =
     (if prOutcome p \<noteq> Running \<or> prSignalled p then p else stun_Close (p\<lparr>prSignalled := True\<rparr>))"
| "process_step ShutdownApp p =
     (if prOutcome p \<noteq> Running \<or> \<not> prSignalled p then p else p\<lparr>prStopping := True\<rparr>)"
| "process_step ListenFails p = (if prOutcome p \<noteq> Running then p else fatal ''listen'' p)"
| "process_step ListenReturns p =
     (if prOutcome p \<noteq> Running \<or> \<not> prStopping p then p
      else (let q = run_deferred p in if prOutcome q = Running then q\<lparr>prOutcome := Returned\<rparr> else q))"

section \<open>Cleanup\<close>

text \<open>
  One tick of \<open>StartCleanup\<close> at time \<open>now\<close>: rooms not changed since \<open>roomTTLDays\<close> days ago are
  deleted and the limiter tables swept.  Going back in the calendar and formatting are
  parameters of the model.
\<close>

definition cleanup_tick ::
  "(int \<Rightarrow> time \<Rightarrow> time) \<Rightarrow> (time \<Rightarrow> string) \<Rightarrow> bool \<Rightarrow> fails \<Rightarrow> hub_cfg \<Rightarrow> time \<Rightarrow> 'l table \<times> 'l table \<Rightarrow> db
     \<Rightarrow> ('l table \<times> 'l table) \<times> db" where
  "cleanup_tick days_before clock_text fk fail cfg now tables db =
     (let cutoff = days_before (hcRoomTTLDays cfg) now
      in (cleanupIPLimiters now tables, snd (DeleteInactiveRooms fk fail (clock_text cutoff) db)))"

section \<open>Invariants\<close>

definition stop_ok :: "process \<Rightarrow> bool" where
  "stop_ok p \<longleftrightarrow> (prStopping p \<longrightarrow> prSignalled p) \<and> (prSignalled p \<longrightarrow> prStunDone p) \<and> prOutcome p \<noteq> Returned"

lemma stop_ok_step: "stop_ok p \<Longrightarrow> stop_ok (process_step e p)"
  by (cases e) (auto simp: stop_ok_def stun_Close_def run_deferred_def fatal_def Let_def)

lemma stop_ok_run: "stop_ok p \<Longrightarrow> stop_ok (fold process_step es p)"
  by (induction es arbitrary: p) (simp_all add: stop_ok_step)

lemma stop_ok_start: "stop_ok (start_process config l s t)"
  by (simp add: start_process_def stop_ok_def fatal_def nothing_open_def Let_def split: sum.split)

section \<open>Properties\<close>

text \<open>
  C39: The process never ends cleanly: from any start, whatever signals come and whatever the HTTP
  server does, \<open>main\<close> never returns; after the signal to stop and the shutdown of the HTTP server,
  the deferred \<open>stunServer.Close\<close> closes a channel that is closed, and the process panics.
\<close>

theorem never_stops_cleanly:
  "prOutcome (fold process_step es (start_process config logFails openFails stunFails)) \<noteq> Returned
   \<and> prOutcome (fold process_step [Signal, ShutdownApp, ListenReturns] (start_process (Inr cfg) False False False)) = Panicked"
proof
  show "prOutcome (fold process_step es (start_process config logFails openFails stunFails)) \<noteq> Returned"
    using stop_ok_run [OF stop_ok_start] by (simp add: stop_ok_def)
  show "prOutcome (fold process_step [Signal, ShutdownApp, ListenReturns] (start_process (Inr cfg) False False False)) = Panicked"
    by (simp add: start_process_def nothing_open_def stun_Close_def run_deferred_def Let_def)
qed

text \<open>
  A log file that could be set up starts within its limit, and a short one is not cut.
\<close>

lemma log_within_limit:
  assumes "configureLogging logPath maxBytes disk = (Inr path, disk')" and "0 \<le> maxBytes"
  shows "path \<noteq> [] \<and> (\<exists>n. ldSize disk' = Some n \<and> n \<le> maxBytes \<and> (\<forall>m. ldSize disk = Some m \<longrightarrow> m \<le> maxBytes \<longrightarrow> n = m))"
  using assms by (auto simp: configureLogging_def log_path_def Let_def split: option.splits if_splits)

text \<open>What was opened when the start fails is left to the operating system: nothing is closed.\<close>

lemma failed_start_leaves_open:
  "start_process (Inr cfg) False False True = nothing_open\<lparr>prLogOpen := True, prStoreOpen := True, prOutcome := Fatal ''start stun server''\<rparr>"
  by (simp add: start_process_def fatal_def nothing_open_def Let_def)

end
