(* ===== verification/Server.thy ===== *)
theory Server
  imports Sessions DeliveryProps
begin

text \<open>
  The hub and the store together (\<open>internal/server/hub.go\<close> over \<open>internal/storage\<close>): which operation
  of the store a step of the server is, where the jobs that write come from, and for every
  change of a stored document the connection, the message and the key behind it.
\<close>

section \<open>What a step does to the store\<close>

fun job_client :: "job \<Rightarrow> nat" where
  "job_client (JobUpdate c r i b) = c"
| "job_client (JobSnapshot c r s base) = c"
| "job_client (JobCompact c) = c"

fun job_op :: "world \<Rightarrow> string \<Rightarrow> job \<Rightarrow> store_op option" where
  "job_op w now (JobUpdate c r i b) = Some (OpAppend now (cRoomID (wClient w c)) b)"
| "job_op w now (JobSnapshot c r s base) = Some (OpSave now (cRoomID (wClient w c)) s base)"
| "job_op w now (JobCompact c) = None"

fun issues :: "world \<Rightarrow> event \<Rightarrow> store_op \<Rightarrow> bool" where
  "issues w (RunJob n) op = (n < length (wJobs w) \<and> job_op w (op_clock op) (wJobs w ! n) = Some op)"
| "issues w (Rest c) op = (op = OpClose (op_clock op) (cRoomID (wClient w c)))"
| "issues w Cleanup op = (op = OpPurge (op_clock op))"
| "issues w Connect (OpEnsure now rid h) = True"
| "issues w Refuse (OpEnsure now rid h) = True"
| "issues w CreateRoom (OpEnsure now rid h) = True"
| "issues w _ _ = False"

lemma auth_store:
  assumes "handleSocket_auth hmac cfg st rnd f1 f2 now t frame db = (out, db')"
  shows "db' = db \<or> (\<exists>rid h. db' = snd (EnsureRoom f1 now rid h db))"
proof -
  have ensured: "\<exists>rid h. d = snd (EnsureRoom f1 now rid h db)" if "EnsureRoom f1 now rid h db = (x, d)" for rid h x d
    using that by (metis snd_conv)
  show ?thesis
    using assms unfolding handleSocket_auth_def Let_def
    by (auto intro: ensured split: option.splits if_splits sum.splits prod.splits)
qed

lemma job_store:
  "wDB (run_job bind cfg slot st acq f1 f2 now j w) = wDB w \<or>
   (\<exists>op. job_op w now j = Some op \<and> op_clock op = now
      \<and> wDB (run_job bind cfg slot st acq f1 f2 now j w) = sqlite_step bind fk (wDB w) (f2, op))"
proof (cases j)
  case (JobUpdate c r i b)
  let ?w = "run_update cfg slot st acq f1 f2 now c r i b w"
  have "wDB ?w = wDB w \<or> wDB ?w = snd (AppendUpdate f2 now (cRoomID (wClient w c)) b (wDB w))"
    by (cases rule: run_update_cases [OF refl, where cfg = cfg and slot = slot and st = st and acquired = acq
          and ?f1.0 = f1 and ?f2.0 = f2 and now = now and c = c and r = r and updateID = i and update = b and w = w])
      (simp_all add: spawn_def broadcastSyncRequest_def)
  with JobUpdate show ?thesis by simp
next
  case (JobSnapshot c r s base)
  then show ?thesis by (simp add: run_snapshot_def Let_def send_error_def)
next
  case (JobCompact c)
  then show ?thesis by (simp add: maybeAutoCompact_def Let_def split: sum.split option.split)
qed

lemma rest_store:
  "wDB (leaveRoom_rest slot st f now c r info w) = wDB w \<or>
   wDB (leaveRoom_rest slot st f now c r info w) = snd (CloseRoom f now (cRoomID (wClient w c)) (wDB w))"
  by (simp add: leaveRoom_rest_def Let_def)

lemma step_store:
  assumes "hub_step sv w e w'"
  shows "wDB w' = wDB w \<or> (\<exists>f op. op_clock op \<noteq> [] \<and> issues w e op
    \<and> wDB w' = sqlite_step (svBind sv) (svForeignKeys sv) (wDB w) (f, op))"
  using assms
proof cases
  case (connect st rnd f1 f2 now t frame x state db)
  from auth_store [OF connect(3)] connect(4) show ?thesis
    by (auto simp: connect(1,2) connect_def Let_def intro!: exI [of _ "OpEnsure now rid h" for rid h])
next
  case (refuse st rnd f1 f2 now t frame out db)
  from auth_store [OF refuse(3)] refuse(5) show ?thesis
    by (auto simp: refuse(1,2) intro!: exI [of _ "OpEnsure now rid h" for rid h])
next
  case (rest c r info now slot sts f1)
  from rest_store [of slot sts f1 now c r info w] rest(5) show ?thesis
    by (auto simp: rest(1,2) intro!: exI [of _ f1] exI [of _ "OpClose now (cRoomID (wClient w c))"])
next
  case (job n now slot sts acquired f1 f2)
  let ?v = "w\<lparr>wJobs := drop_nth n (wJobs w)\<rparr>"
  have same: "job_op ?v now (wJobs w ! n) = job_op w now (wJobs w ! n)" by (cases "wJobs w ! n") simp_all
  from job_store [of "svBind sv" "svCfg sv" slot sts acquired f1 f2 now "wJobs w ! n" ?v "svForeignKeys sv"]
  show ?thesis unfolding job(1,2) same
    using job(3,4) by fastforce
next
  case (cleanup cutoff f1)
  then show ?thesis
    by (intro disjI2 exI [of _ f1] exI [of _ "OpPurge cutoff"]) simp
next
  case (create now f1 roomID keyHash)
  then show ?thesis
    by (intro disjI2 exI [of _ f1] exI [of _ "OpEnsure now roomID keyHash"]) simp
next
  case (message c r slot sts now allow frame)
  then show ?thesis using contained_readLoop unfolding contained_def by blast
next
  case (lookup c state slot sts)
  then show ?thesis
    by (auto simp: joinRoom_lookup_def hub_room_def Let_def reject_def split: option.split)
next
  case (enter c r state rnds slot sts rnd t)
  then show ?thesis
    by (auto simp: joinRoom_enter_def Let_def join_as_host_def join_as_pending_def reject_def split: option.split)
next
  case (finish c r p d slot sts)
  then show ?thesis by (auto simp: joinRoom_finish_def Let_def reject_def)
qed (simp_all add: receive_decision_def approval_timeout_def)

text \<open>Seen from outside: the kind of operation an event may be.\<close>

fun issuer :: "event \<Rightarrow> store_op \<Rightarrow> bool" where
  "issuer (RunJob n) (OpAppend now rid u) = True"
| "issuer (RunJob n) (OpSave now rid s base) = True"
| "issuer (Rest c) (OpClose now rid) = True"
| "issuer Cleanup (OpPurge cutoff) = True"
| "issuer Connect (OpEnsure now rid h) = True"
| "issuer Refuse (OpEnsure now rid h) = True"
| "issuer CreateRoom (OpEnsure now rid h) = True"
| "issuer _ _ = False"

lemma issues_issuer: "issues w e op \<Longrightarrow> issuer e op"
proof (cases e)
  case (RunJob n)
  then show "issues w e op \<Longrightarrow> issuer e op" by (cases op; cases "wJobs w ! n") auto
qed (cases op; simp)+

lemma step_abs:
  assumes "hub_step sv w e w'" and "store_inv (wDB w)"
  shows "store_inv (wDB w')"
    and "abs (wDB w') = abs (wDB w) \<or> (\<exists>op. issues w e op \<and> abs (wDB w') = spec_step (svBind sv) (abs (wDB w)) op)"
proof -
  from step_store [OF assms(1)]
  have "store_inv (wDB w') \<and> (abs (wDB w') = abs (wDB w) \<or>
      (\<exists>op. issues w e op \<and> abs (wDB w') = spec_step (svBind sv) (abs (wDB w)) op))"
  proof (elim disjE exE conjE)
    fix f op
    assume "op_clock op \<noteq> []" "issues w e op" "wDB w' = sqlite_step (svBind sv) (svForeignKeys sv) (wDB w) (f, op)"
    with sqlite.step_simulates [OF assms(2), of op "svBind sv" "svForeignKeys sv" f] show ?thesis
      by (auto simp: sqlite_step_eq)
  qed (use assms(2) in simp)
  then show "store_inv (wDB w')"
    and "abs (wDB w') = abs (wDB w) \<or> (\<exists>op. issues w e op \<and> abs (wDB w') = spec_step (svBind sv) (abs (wDB w)) op)"
    by blast+
qed

lemma run_abs:
  assumes "hub_run sv w0 es w" and "store_inv (wDB w0)"
  shows "store_inv (wDB w) \<and> (\<exists>ops. subseq (map fst ops) es \<and> list_all (\<lambda>(e, op). issuer e op) ops
    \<and> abs (wDB w) = foldl (spec_step (svBind sv)) (abs (wDB w0)) (map snd ops))"
  using assms(1)
proof (induction rule: hub_run.induct)
  case start
  then show ?case using assms(2) by (auto intro: exI [of _ "[]"])
next
  case (step es w e w')
  then obtain ops where ops: "subseq (map fst ops) es" "list_all (\<lambda>(e, op). issuer e op) ops"
    "abs (wDB w) = foldl (spec_step (svBind sv)) (abs (wDB w0)) (map snd ops)" and inv: "store_inv (wDB w)"
    by blast
  note inv_op = step_abs [OF step.hyps(2) inv]
  from inv_op(2) show ?case
  proof (elim disjE exE conjE)
    assume "abs (wDB w') = abs (wDB w)"
    with ops inv_op(1) list_emb_append_mono [of _ "map fst ops" es "[]" "[e]"] show ?thesis
      by (auto intro!: exI [of _ ops])
  next
    fix op assume "issues w e op" "abs (wDB w') = spec_step (svBind sv) (abs (wDB w)) op"
    with ops inv_op(1) issues_issuer show ?thesis
      by (intro conjI exI [of _ "ops @ [(e, op)]"]) (auto intro: list_emb_append_mono)
  qed
qed

section \<open>Where jobs come from\<close>

text \<open>What a message asks the server to write.\<close>

definition sent_update :: "envelope \<Rightarrow> (string \<times> bytes) option" where
  "sent_update env =
     (if eType env \<noteq> TypeDocUpdate then None
      else case DecodePayload dec_doc_update zero_doc_update (payload_json env) of
        Inl _ \<Rightarrow> None
      | Inr p \<Rightarrow> (case DecodeBytes (duUpdateBase64 p) of
          Inr (Some b) \<Rightarrow> Some (duUpdateID p, b)
        | _ \<Rightarrow> None))"

definition sent_snapshot :: "envelope \<Rightarrow> (bytes option \<times> int) option" where
  "sent_snapshot env =
     (if eType env \<noteq> TypeDocSnapshot then None
      else case DecodePayload dec_doc_snapshot zero_doc_snapshot (payload_json env) of
        Inl _ \<Rightarrow> None
      | Inr p \<Rightarrow> (case DecodeBytes (dsStateBase64 p) of
          Inr s \<Rightarrow> Some (s, dsBaseSeq p)
        | Inl _ \<Rightarrow> None))"

fun asks :: "envelope \<Rightarrow> job \<Rightarrow> bool" where
  "asks env (JobUpdate c r i b) = (sent_update env = Some (i, b))"
| "asks env (JobSnapshot c r s base) = (sent_snapshot env = Some (s, base))"
| "asks env (JobCompact c) = True"

lemma asks_stamp [simp]: "asks (env\<lparr>eFrom := x, eSentAt := t\<rparr>) j = asks env j"
  by (cases j) (simp_all add: sent_update_def sent_snapshot_def payload_json_def)

lemma jobs_handlers [simp]:
  "wJobs (broadcast slot e r x w) = wJobs w" "wJobs (queue_to slot e k w) = wJobs w"
  "wJobs (send_error slot st i m c w) = wJobs w" "wJobs (spawn j w) = wJobs w @ [j]"
  by (simp_all add: broadcast_def queue_to_def send_error_def spawn_def)

lemma jobs_forward [simp]: "wJobs (forward slot c r e w) = wJobs w"
  by (simp add: forward_def sendTo_def split: option.split)

lemma jobs_envelope:
  assumes "j \<in> set (wJobs (handleEnvelope cfg slot st now c r env w))"
  shows "j \<in> set (wJobs w) \<or> job_client j = c \<and> asks env j"
proof -
  have "j \<in> set (wJobs (handle_doc_update cfg slot st c r env w)) \<Longrightarrow> eType env = TypeDocUpdate \<Longrightarrow>
      j \<in> set (wJobs w) \<or> job_client j = c \<and> asks env j"
    by (auto simp: handle_doc_update_def sent_update_def Let_def split: sum.splits option.splits if_splits)
  moreover have "j \<in> set (wJobs (handle_doc_snapshot cfg slot st c r env w)) \<Longrightarrow> eType env = TypeDocSnapshot \<Longrightarrow>
      j \<in> set (wJobs w) \<or> job_client j = c \<and> asks env j"
    by (auto simp: handle_doc_snapshot_def sent_snapshot_def split: sum.splits if_splits)
  moreover have "wJobs (handle_presence slot st now c r env w) = wJobs w" "wJobs (handle_chat slot st c r env w) = wJobs w"
    "wJobs (handle_signal slot st c r env w) = wJobs w" "wJobs (handle_relay slot st c r env w) = wJobs w"
    "wJobs (handle_join_decision slot st c r env w) = wJobs w" "wJobs (handle_ping slot st c env w) = wJobs w"
    "wJobs (handle_peer_kick slot st c r env w) = wJobs w"
    by (simp_all add: handle_presence_def handle_chat_def handle_signal_def handle_relay_def handle_join_decision_def
        handle_ping_def handle_peer_kick_def Let_def split: sum.split option.split)
  ultimately show ?thesis
    using assms by (simp add: handleEnvelope_def split: if_splits)
qed

text \<open>A job is asked for by a message, or is the look at the counter after an update.\<close>

fun asked :: "event \<Rightarrow> job \<Rightarrow> bool" where
  "asked (Message c True (Some env)) j = (job_client j = c \<and> asks env j)"
| "asked _ _ = False"

fun writes :: "job \<Rightarrow> bool" where
  "writes (JobCompact c) = False"
| "writes _ = True"

lemma jobs_leave [simp]: "wJobs (leaveRoom_locked slot st c r w) = wJobs w"
proof -
  obtain info where "leaveRoom_locked slot st c r w = set_phase c (Leaving r info) (after_leave slot st c r w)"
    using leaveRoom_locked_eq [of slot st c r w] by blast
  moreover have "wJobs (snd (tryHostMigrationLocked slot s r v)) = wJobs v" for s v
    by (simp add: tryHostMigrationLocked_def Let_def split: option.split)
  ultimately show ?thesis by (simp add: after_leave_def Let_def)
qed

lemma jobs_run:
  assumes "j \<in> set (wJobs (run_job bind cfg slot st acq f1 f2 now k w))" and "writes j"
  shows "j \<in> set (wJobs w)"
proof (cases k)
  case (JobUpdate c r i b)
  let ?w = "run_update cfg slot st acq f1 f2 now c r i b w"
  have "wJobs ?w = wJobs w \<or> wJobs ?w = wJobs w @ [JobCompact c]"
    by (cases rule: run_update_cases [OF refl, where cfg = cfg and slot = slot and st = st and acquired = acq
          and ?f1.0 = f1 and ?f2.0 = f2 and now = now and c = c and r = r and updateID = i and update = b and w = w])
      (simp_all add: broadcastSyncRequest_def)
  with assms JobUpdate show ?thesis by auto
next
  case (JobSnapshot c r s base)
  with assms(1) show ?thesis by (simp add: run_snapshot_def Let_def split: if_splits)
next
  case (JobCompact c)
  with assms(1) show ?thesis by (simp add: maybeAutoCompact_def Let_def split: sum.splits option.splits if_splits)
qed

lemma step_jobs:
  assumes "hub_step sv w e w'" and "j \<in> set (wJobs w')" and "writes j"
  shows "j \<in> set (wJobs w) \<or> asked e j \<and> job_client j < wNextClient w"
  using assms(1)
proof cases
  case (message c r allow frame slot sts now)
  show ?thesis
  proof (cases frame)
    case (Some env)
    then show ?thesis
      using assms(2) message(3) unfolding message(1,2) readLoop_iter_def
      by (cases allow) (auto simp: Let_def split: if_splits dest!: jobs_envelope)
  qed (use assms(2) message(2) in \<open>simp add: readLoop_iter_def\<close>)
next
  case (job n now slot sts acquired f1 f2)
  from jobs_run [OF assms(2) [unfolded job(2)] assms(3)]
  show ?thesis by (auto simp: drop_nth_def dest: in_set_takeD in_set_dropD)
next
  case (lookup c state slot sts)
  then have "wJobs w' = wJobs w"
    by (auto simp: joinRoom_lookup_def hub_room_def Let_def reject_def split: option.split)
  then show ?thesis using assms(2) by simp
next
  case (enter c r state rnds slot sts rnd t)
  then show ?thesis using assms(2)
    by (auto simp: joinRoom_enter_def Let_def join_as_host_def join_as_pending_def reject_def split: option.splits if_splits)
next
  case (finish c r p d slot sts)
  then show ?thesis using assms(2) by (auto simp: joinRoom_finish_def Let_def reject_def split: if_splits)
next
  case (rest c r info now slot sts f1)
  then show ?thesis using assms(2) by (simp add: leaveRoom_rest_def Let_def split: if_splits)
qed (use assms(2) in \<open>simp_all add: receive_decision_def approval_timeout_def connect_def Let_def\<close>)

section \<open>Sessions\<close>

text \<open>The room a connection authenticated for never changes.\<close>

definition same_room :: "client \<Rightarrow> client \<Rightarrow> bool" where
  "same_room x y \<longleftrightarrow> cRoomID y = cRoomID x"

interpretation session: evolution same_room
proof (unfold_locales, unfold same_room_def)
  fix x b e ok
  show "cRoomID (snd (queue b e x)) = cRoomID x" by (simp add: queue_def write_one_def Let_def)
  show "cRoomID (shutdown x) = cRoomID x" by (simp add: shutdown_def)
  show "cRoomID (writeLoop_step ok x) = cRoomID x" by (simp add: writeLoop_step_def write_one_def)
qed (simp_all add: same_queue_def)

text \<open>Connection \<open>c\<close> is accepted in \<open>v\<close> on the strength of \<open>env\<close>, which names a room and a key.\<close>

definition accepted_with :: "server \<Rightarrow> world \<Rightarrow> nat \<Rightarrow> envelope \<Rightarrow> string \<Rightarrow> string \<Rightarrow> world \<Rightarrow> bool" where
  "accepted_with sv v c env rid key v' \<longleftrightarrow> c = wNextClient v \<and> eType env = TypeAuth \<and>
     (\<exists>st rnd f1 f2 now t x s db a.
        handleSocket_auth (svHmac sv) (svCfg sv) st rnd f1 f2 now t (Some env) (wDB v) = (AuthAccepted x s, db)
        \<and> now \<noteq> [] \<and> v' = connect x s db v
        \<and> DecodePayload dec_auth zero_auth (payload_json env) = Inr a
        \<and> trim_space (auRoomID a) = rid \<and> trim_space (auRoomKey a) = key)"

lemma connect_step:
  assumes "hub_step sv w Connect w'"
  shows "\<exists>env key. accepted_with sv w (wNextClient w) env (cRoomID (wClient w' (wNextClient w))) key w'
    \<and> wNextClient w' = Suc (wNextClient w)"
  using assms
proof cases
  case (connect st rnd f1 f2 now t frame x s db)
  from auth_accepted [OF connect(2)] obtain env a u where env: "frame = Some env" "eType env = TypeAuth"
    "DecodePayload dec_auth zero_auth (payload_json env) = Inr a" and x: "x = new_client (trim_space (auRoomID a)) u t"
    by metis
  have new: "wClient w' (wNextClient w) = x" "wNextClient w' = Suc (wNextClient w)" "cRoomID x = trim_space (auRoomID a)"
    by (simp_all add: connect(1) connect_def Let_def x new_client_def)
  have "accepted_with sv w (wNextClient w) env (trim_space (auRoomID a)) (trim_space (auRoomKey a)) w'"
    unfolding accepted_with_def
    by (intro exI conjI, rule refl, rule env(2), rule connect(2) [unfolded env(1)], rule connect(3), rule connect(1),
        rule env(3), rule refl, rule refl)
  with new show ?thesis by metis
qed

lemma accepted_opens:
  assumes "accepted_with sv v c env rid key v'" and "store_inv (wDB v)"
  shows "store_inv (wDB v') \<and> open_with (wDB v') rid (roomKeyHash (svHmac sv) (hcSecret (svCfg sv)) rid key)"
proof -
  from assms(1) obtain st rnd f1 f2 now t x s db a where
    auth: "handleSocket_auth (svHmac sv) (svCfg sv) st rnd f1 f2 now t (Some env) (wDB v) = (AuthAccepted x s, db)"
    and now: "now \<noteq> []" and v': "v' = connect x s db v" and a: "DecodePayload dec_auth zero_auth (payload_json env) = Inr a"
    "trim_space (auRoomID a) = rid" "trim_space (auRoomKey a) = key"
    unfolding accepted_with_def by metis
  have db: "wDB v' = db" by (simp add: v' connect_def Let_def)
  from auth_accepted [OF auth] a have "EnsureRoom f1 now rid (roomKeyHash (svHmac sv) (hcSecret (svCfg sv)) rid key) (wDB v) = (Inr (), db)"
    by (metis Inr_inject option.inject)
  from ensure_accepts [OF assms(2) now this] show ?thesis by (simp add: db)
qed

lemma accepted_next: "accepted_with sv v c env rid key v' \<Longrightarrow> c = wNextClient v"
  by (simp add: accepted_with_def)

lemma step_clients:
  assumes "hub_step sv w e w'" and "c < wNextClient w'"
  shows "c < wNextClient w \<or> e = Connect \<and> c = wNextClient w"
proof -
  have "wNextClient w' = wNextClient w \<or> e = Connect \<and> wNextClient w' = Suc (wNextClient w)"
    using assms(1)
  proof cases
    case (job n now slot sts acquired f1 f2)
    with quiet_sel(7) [OF quiet_job] show ?thesis by simp
  qed (simp_all add: connect_def Let_def receive_decision_def approval_timeout_def)
  with assms(2) show ?thesis by auto
qed

text \<open>Every connection was accepted once, and its room is the one it named then.\<close>

lemma run_origin:
  assumes "hub_run sv (init_world db) es w" and "c < wNextClient w"
  shows "\<exists>es1 es2 v v' env key. es = es1 @ Connect # es2 \<and> hub_run sv (init_world db) es1 v
    \<and> accepted_with sv v c env (cRoomID (wClient w c)) key v' \<and> hub_run sv v' es2 w"
  using assms
proof (induction rule: hub_run.induct)
  case start
  then show ?case by (simp add: init_world_def)
next
  case (step es w e w')
  from step_clients [OF step.hyps(2) step.prems] show ?case
  proof (elim disjE conjE)
    assume c: "c < wNextClient w"
    from step.IH [OF c] obtain es1 es2 v v' env key where "es = es1 @ Connect # es2" "hub_run sv (init_world db) es1 v"
      "accepted_with sv v c env (cRoomID (wClient w c)) key v'" "hub_run sv v' es2 w"
      by metis
    moreover have "cRoomID (wClient w' c) = cRoomID (wClient w c)"
      using session.step_evolves [OF step.hyps(2) c] by (simp add: same_room_def)
    moreover have "hub_run sv v' (es2 @ [e]) w'"
      using calculation(4) step.hyps(2) by (rule hub_run.step)
    ultimately have "es @ [e] = es1 @ Connect # (es2 @ [e]) \<and> hub_run sv (init_world db) es1 v
        \<and> accepted_with sv v c env (cRoomID (wClient w' c)) key v' \<and> hub_run sv v' (es2 @ [e]) w'"
      by simp
    then show ?thesis by metis
  next
    assume e: "e = Connect" and c: "c = wNextClient w"
    from connect_step [OF step.hyps(2) [unfolded e]] obtain env key
      where "accepted_with sv w c env (cRoomID (wClient w' c)) key w'"
      unfolding c by blast
    with e step.hyps(1) hub_run.start [of sv w'] have "es @ [e] = es @ Connect # [] \<and> hub_run sv (init_world db) es w
        \<and> accepted_with sv w c env (cRoomID (wClient w' c)) key w' \<and> hub_run sv w' [] w'"
      by simp
    then show ?thesis by metis
  qed
qed

lemma run_messages: "hub_run sv w0 es w \<Longrightarrow> Message c allow f \<in> set es \<Longrightarrow> c < wNextClient w"
proof (induction rule: hub_run.induct)
  case (step es w e w')
  from step_next [OF step.hyps(2)] step show ?case by (auto elim: message_stepE)
qed simp

lemma run_jobs:
  "hub_run sv w0 es w \<Longrightarrow> wJobs w0 = [] \<Longrightarrow> j \<in> set (wJobs w) \<Longrightarrow> writes j \<Longrightarrow>
   job_client j < wNextClient w \<and> (\<exists>m \<in> set es. asked m j)"
proof (induction rule: hub_run.induct)
  case (step es w e w')
  from step_jobs [OF step.hyps(2) step.prems(2,3)] show ?case
    using step.IH [OF step.prems(1) _ step.prems(3)] step_next [OF step.hyps(2)] by auto
qed simp

lemma askedE:
  assumes "asked m j"
  obtains env where "m = Message (job_client j) True (Some env)" "asks env j"
  using assms by (cases "(m, j)" rule: asked.cases) auto

section \<open>Documents\<close>

text \<open>Only \<open>AppendUpdate\<close> and \<open>SaveSnapshot\<close> change the document of a room.\<close>

definition doc :: "aroom \<Rightarrow> bytes option \<times> (int \<times> bytes) list" where
  "doc a = (aSnapshot a, aLog a)"

lemma spec_step_doc:
  assumes "m rid = Some a" and "spec_step bind m op rid = Some b" and "doc b \<noteq> doc a"
  shows "(\<exists>now u. op = OpAppend now rid u) \<or> (\<exists>now s base. op = OpSave now rid s base)"
  using assms by (cases op) (auto simp: spec_defs doc_def split: option.splits if_splits)

lemma spec_step_keeps:
  assumes "m rid = Some a" and "\<forall>t. op \<noteq> OpPurge t"
  shows "\<exists>b. spec_step bind m op rid = Some b \<and> aKeyHash b = aKeyHash a"
  using assms by (cases op) (auto simp: spec_defs split: option.splits if_splits)

lemma run_key:
  assumes "hub_run sv v es w" and "store_inv (wDB v)" and "abs (wDB v) rid = Some a" and "Cleanup \<notin> set es"
  shows "\<exists>b. abs (wDB w) rid = Some b \<and> aKeyHash b = aKeyHash a"
  using assms(1,4)
proof (induction rule: hub_run.induct)
  case (step es w e w')
  then obtain b where b: "abs (wDB w) rid = Some b" "aKeyHash b = aKeyHash a" by auto
  have "store_inv (wDB w)" using run_abs [OF step.hyps(1) assms(2)] by blast
  from step_abs(2) [OF step.hyps(2) this] show ?case
  proof (elim disjE exE conjE)
    fix op assume op: "issues w e op" "abs (wDB w') = spec_step (svBind sv) (abs (wDB w)) op"
    have "\<forall>t. op \<noteq> OpPurge t" using issues_issuer [OF op(1)] step.prems by (cases e) auto
    from spec_step_keeps [where m = "abs (wDB w)" and rid = rid, OF b(1) this, of "svBind sv"] b(2) op(2) show ?thesis by auto
  qed (use b in simp)
qed (use assms(3) in simp)

lemma issued_write:
  assumes "issues w e op" and "op = OpAppend now rid u \<or> op = OpSave now rid s base"
  shows "\<exists>n. e = RunJob n \<and> n < length (wJobs w) \<and> job_op w (op_clock op) (wJobs w ! n) = Some op
    \<and> cRoomID (wClient w (job_client (wJobs w ! n))) = rid \<and> writes (wJobs w ! n)"
proof (cases e)
  case (RunJob n)
  with assms show ?thesis by (cases "wJobs w ! n") auto
qed (use assms in auto)

end
