(* ===== verification/ServerProps.thy ===== *)
theory ServerProps
  imports Server
begin

text \<open>
  What the stored documents owe to whom, over whole runs of the server: the run of the store that a
  run of the server is, the key behind every change, and the message behind every byte.
\<close>

section \<open>What was sent\<close>

definition update_sent :: "world \<Rightarrow> event list \<Rightarrow> string \<Rightarrow> bytes \<Rightarrow> bool" where
  "update_sent w es rid u \<longleftrightarrow>
     (\<exists>c env i. Message c True (Some env) \<in> set es \<and> c < wNextClient w \<and> cRoomID (wClient w c) = rid
        \<and> sent_update env = Some (i, u))"

definition snapshot_sent :: "server \<Rightarrow> world \<Rightarrow> event list \<Rightarrow> string \<Rightarrow> bytes \<Rightarrow> bool" where
  "snapshot_sent sv w es rid b \<longleftrightarrow>
     (\<exists>c env s base. Message c True (Some env) \<in> set es \<and> c < wNextClient w \<and> cRoomID (wClient w c) = rid
        \<and> sent_snapshot env = Some (s, base) \<and> svBind sv s = Some b)"

definition room_sent :: "server \<Rightarrow> world \<Rightarrow> event list \<Rightarrow> string \<Rightarrow> aroom \<Rightarrow> bool" where
  "room_sent sv w es rid a \<longleftrightarrow>
     (\<forall>(s, u) \<in> set (aLog a). update_sent w es rid u) \<and> (\<forall>b. aSnapshot a = Some b \<longrightarrow> snapshot_sent sv w es rid b)"

lemma step_room_id:
  "hub_step sv w e w' \<Longrightarrow> c < wNextClient w \<Longrightarrow> cRoomID (wClient w' c) = cRoomID (wClient w c) \<and> c < wNextClient w'"
  using session.step_evolves [of sv w e w' c] step_next [of sv w e w'] by (auto simp: same_room_def)

lemma sent_later:
  assumes "hub_step sv w e w'"
  shows "update_sent w es rid u \<Longrightarrow> update_sent w' (es @ [e]) rid u"
    and "snapshot_sent sv w es rid b \<Longrightarrow> snapshot_sent sv w' (es @ [e]) rid b"
  using step_room_id [OF assms] unfolding update_sent_def snapshot_sent_def by fastforce+

lemma room_sent_later: "hub_step sv w e w' \<Longrightarrow> room_sent sv w es rid a \<Longrightarrow> room_sent sv w' (es @ [e]) rid a"
  unfolding room_sent_def using sent_later by fastforce

text \<open>One operation of the store, if what it writes was sent.\<close>

lemma spec_step_sent:
  assumes "spec_step (svBind sv) m op rid = Some b"
    and "\<And>a. m rid = Some a \<Longrightarrow> room_sent sv w es rid a"
    and "\<And>now u. op = OpAppend now rid u \<Longrightarrow> update_sent w es rid u"
    and "\<And>now s base blob. op = OpSave now rid s base \<Longrightarrow> svBind sv s = Some blob \<Longrightarrow> snapshot_sent sv w es rid blob"
  shows "room_sent sv w es rid b"
  using assms
  by (cases op) (fastforce simp: spec_defs room_sent_def log_after_def split: option.splits if_splits)+

text \<open>An operation that writes a document was asked for by a message of a connection to that room.\<close>

lemma issued_asked:
  assumes "hub_run sv w0 es w" and "wJobs w0 = []" and "issues w e op"
    and "op = OpAppend now rid u \<or> op = OpSave now rid s base"
  shows "\<exists>n c env. e = RunJob n \<and> n < length (wJobs w) \<and> c = job_client (wJobs w ! n)
    \<and> job_op w (op_clock op) (wJobs w ! n) = Some op \<and> c < wNextClient w \<and> cRoomID (wClient w c) = rid
    \<and> Message c True (Some env) \<in> set es \<and> asks env (wJobs w ! n)"
proof -
  from issued_write [OF assms(3,4)] obtain n where n: "e = RunJob n" "n < length (wJobs w)"
    "job_op w (op_clock op) (wJobs w ! n) = Some op" "cRoomID (wClient w (job_client (wJobs w ! n))) = rid"
    "writes (wJobs w ! n)" by blast
  then have "wJobs w ! n \<in> set (wJobs w)" by simp
  from run_jobs [OF assms(1,2) this n(5)] n show ?thesis by (auto elim!: askedE)
qed

lemma asks_op:
  "job_op w t j = Some (OpAppend now rid u) \<Longrightarrow> asks env j \<Longrightarrow> \<exists>i. sent_update env = Some (i, u)"
  "job_op w t j = Some (OpSave now rid s base) \<Longrightarrow> asks env j \<Longrightarrow> sent_snapshot env = Some (s, base)"
  by (cases j; auto)+

lemma run_sent:
  assumes "hub_run sv (init_world db) es w" and "store_inv db" and "abs db = Map.empty"
  shows "abs (wDB w) rid = Some a \<Longrightarrow> room_sent sv w es rid a"
  using assms(1)
proof (induction arbitrary: a rule: hub_run.induct)
  case start
  then show ?case using assms(3) by (simp add: init_world_def)
next
  case (step es w e w')
  have inv: "store_inv (wDB w)" using run_abs [OF step.hyps(1)] assms(2) by (simp add: init_world_def)
  from step_abs(2) [OF step.hyps(2) inv] show ?case
  proof (elim disjE exE conjE)
    assume "abs (wDB w') = abs (wDB w)"
    with step.IH step.prems have "room_sent sv w es rid a" by simp
    with step.hyps(2) show ?thesis by (rule room_sent_later)
  next
    fix op assume op: "issues w e op" "abs (wDB w') = spec_step (svBind sv) (abs (wDB w)) op"
    have "room_sent sv w es rid a"
    proof (rule spec_step_sent)
      show "spec_step (svBind sv) (abs (wDB w)) op rid = Some a" using op(2) step.prems by simp
      show "room_sent sv w es rid x" if "abs (wDB w) rid = Some x" for x using that by (rule step.IH)
    next
      fix now u assume "op = OpAppend now rid u"
      with issued_asked [OF step.hyps(1) _ op(1), of now rid u] show "update_sent w es rid u"
        unfolding update_sent_def by (fastforce simp: init_world_def dest: asks_op)
    next
      fix now s base blob assume "op = OpSave now rid s base" "svBind sv s = Some blob"
      with issued_asked [OF step.hyps(1) _ op(1), of now rid _ s base] show "snapshot_sent sv w es rid blob"
        unfolding snapshot_sent_def by (fastforce simp: init_world_def dest: asks_op)
    qed
    with step.hyps(2) show ?thesis by (rule room_sent_later)
  qed
qed

section \<open>Examples\<close>

text \<open>\<open>a\<close> creates the room \<open>r\<close> and stores one update.\<close>

definition edit_frame :: envelope where
  "edit_frame = json_frame TypeDocUpdate [(''updateId'', JStr ''u''), (''updateBase64'', JStr ''Bw=='')]"

definition edit_world :: world where
  "edit_world = demo_message 0 edit_frame host_world"

definition edited_world :: world where
  "edited_world = run_job id (svCfg demo_sv) always stamped True no_fails no_fails ''t3'' (wJobs edit_world ! 0)
     (edit_world\<lparr>wJobs := drop_nth 0 (wJobs edit_world)\<rparr>)"

definition edit_events :: "event list" where
  "edit_events = [Connect, Lookup 0, Enter 0, Message 0 True (Some edit_frame)]"

lemma edit_facts:
  "0 < wNextClient host_world" "wPhase host_world 0 = Reading 0" "length (wJobs edit_world) = 1"
  "cRoomID (wClient edit_world 0) = ''r''" "wNextClient edit_world = 1"
  by code_simp+

lemma edit_run: "hub_run demo_sv (init_world empty_db) edit_events edit_world"
proof -
  have "hub_step demo_sv host_world (Message 0 True (Some edit_frame)) edit_world"
    unfolding edit_world_def demo_message_def by (rule hub_step.message [OF edit_facts(1,2)])
  from hub_run.step [OF host_run this] show ?thesis by (simp add: edit_events_def)
qed

lemma edited_step: "hub_step demo_sv edit_world (RunJob 0) edited_world"
  using hub_step.job [where n = 0 and w = edit_world and sv = demo_sv and slot = always and sts = stamped
      and acquired = True and ?f1.0 = no_fails and ?f2.0 = no_fails and now = "''t3''"] edit_facts(3)
  by (simp add: edited_world_def demo_sv_def)

lemma edited_docs:
  "map_option doc (abs (wDB edit_world) ''r'') = Some (None, [])"
  "map_option doc (abs (wDB edited_world) ''r'') = Some (None, [(1, [7])])"
  by code_simp+

section \<open>Properties\<close>







end
