(* ===== verification/Progress.thy ===== *)
theory Progress
  imports DeliveryProps
begin

text \<open>
  The goroutine of a connection ends (\<open>handleSocket\<close>, \<open>joinRoom\<close>, \<open>readLoop\<close> and \<open>leaveRoom\<close> of
  \<open>internal/server/hub.go\<close>): every step of its own other than reading a message lowers a measure of its
  phase that no other step raises, and in every phase such a step is possible, or the end of the
  input is.
\<close>

section \<open>The measure\<close>

fun rank :: "phase \<Rightarrow> nat" where
  "rank (Authed s) = 6"
| "rank (Entering r s) = 5"
| "rank (Waiting r p) = 4"
| "rank (Decided r p d) = 3"
| "rank (Reading r) = 2"
| "rank (Leaving r info) = 1"
| "rank Gone = 0"

text \<open>The steps of the goroutine of \<open>c\<close> on the way in and out.\<close>

fun own_step :: "nat \<Rightarrow> event \<Rightarrow> bool" where
  "own_step c (Lookup k) = (k = c)"
| "own_step c (Enter k) = (k = c)"
| "own_step c (Decision k) = (k = c)"
| "own_step c (Timeout k) = (k = c)"
| "own_step c (Finish k) = (k = c)"
| "own_step c (Rest k) = (k = c)"
| "own_step c _ = False"

lemma lookup_phase:
  "\<exists>ph. wPhase (joinRoom_lookup cfg slot st c state w) = (wPhase w)(c := ph) \<and> rank ph \<le> 5"
  by (auto simp: joinRoom_lookup_def hub_room_def Let_def split: option.split)

lemma enter_phases:
  "\<exists>ph. wPhase (joinRoom_enter cfg slot st rnd reqrnd now c r state w) = (wPhase w)(c := ph) \<and> rank ph \<le> 4"
  by (auto simp: joinRoom_enter_def Let_def join_as_host_def join_pending_sel)

lemma finish_phase:
  "\<exists>ph. wPhase (joinRoom_finish slot st c r p d w) = (wPhase w)(c := ph) \<and> rank ph \<le> 2"
  by (auto simp: joinRoom_finish_def Let_def)

lemma step_rank:
  assumes "hub_step sv w e w'" and "k < wNextClient w"
  shows "rank (wPhase w' k) + (if own_step k e then 1 else 0) \<le> rank (wPhase w k)"
  using assms(1)
proof cases
  case (connect st rnd f1 f2 now t frame x state db)
  with assms(2) show ?thesis by (simp add: connect_def Let_def)
next
  case (lookup c state slot sts)
  then show ?thesis using lookup_phase [of "svCfg sv" slot sts c state w] by auto
next
  case (enter c r state rnds slot sts rnd t)
  then show ?thesis using enter_phases [of "svCfg sv" slot sts rnds rnd t c r state w] by auto
next
  case (finish c r p d slot sts)
  then show ?thesis using finish_phase [of slot sts c r p d w] by auto
next
  case (message c r allow frame slot sts now)
  then show ?thesis using message_phases [OF message(2)] by auto
next
  case (job n now slot sts acquired f1 f2)
  with quiet_sel(6) [OF quiet_job] show ?thesis by simp
qed (auto simp: receive_decision_def approval_timeout_def)

lemma run_rank:
  "hub_run sv w0 es w \<Longrightarrow> k < wNextClient w0 \<Longrightarrow>
   k < wNextClient w \<and> length (filter (own_step k) es) + rank (wPhase w k) \<le> rank (wPhase w0 k)"
proof (induction rule: hub_run.induct)
  case (step es w e w')
  with step_rank [OF step.hyps(2), of k] step_next [OF step.hyps(2)] show ?case by auto
qed simp

text \<open>Phases are ordered by how far they are: in this order the phase of a goroutine only grows.\<close>

instantiation phase :: preorder
begin

definition less_eq_phase :: "phase \<Rightarrow> phase \<Rightarrow> bool" where
  "less_eq_phase x y \<longleftrightarrow> rank y \<le> rank x"

definition less_phase :: "phase \<Rightarrow> phase \<Rightarrow> bool" where
  "less_phase x y \<longleftrightarrow> rank y < rank x"

instance
  by standard (auto simp: less_eq_phase_def less_phase_def)

end

lemma step_advances:
  assumes "hub_step sv w e w'" and "k < wNextClient w"
  shows "wPhase w k \<le> wPhase w' k" and "own_step k e \<Longrightarrow> wPhase w k < wPhase w' k"
  using step_rank [OF assms] by (auto simp: less_eq_phase_def less_phase_def split: if_splits)

lemma run_advances: "hub_run sv w es w' \<Longrightarrow> k < wNextClient w \<Longrightarrow> wPhase w k \<le> wPhase w' k"
  using run_rank [of sv w es w' k] by (simp add: less_eq_phase_def)

lemma gone_last: "x \<le> Gone" and gone_only: "Gone \<le> x \<Longrightarrow> x = Gone"
  by (cases x; simp add: less_eq_phase_def)+

text \<open>So a goroutine that has ended stays ended.\<close>

lemma run_gone: "hub_run sv w es w' \<Longrightarrow> k < wNextClient w \<Longrightarrow> wPhase w k = Gone \<Longrightarrow> wPhase w' k = Gone"
  using run_advances [of sv w es w' k] gone_only by auto

section \<open>A fresh id\<close>

text \<open>Unless a room is as full as there are suffixes, random bytes exist that give a free id.\<close>

lemma hex_encode_append: "hex_encode (a @ b) = hex_encode a @ hex_encode b"
  by (induction a) simp_all

lemma candidate_hex:
  assumes "length bs = 4"
  shows "candidate_id (\<lambda>_. Some (bs @ rest)) base i = base @ ''-'' @ hex_encode bs"
  using assms by (simp add: candidate_id_def NewID_def trim_prefix_def starts_with_def hex_encode_append)

lemma fresh_suffix:
  assumes "length (rClients room) + length (rPending room) < 2 ^ 32"
  shows "\<exists>bs. length bs = 4 \<and> \<not> id_taken room (base @ ''-'' @ hex_encode bs)"
proof (rule ccontr)
  assume none: "\<nexists>bs. length bs = 4 \<and> \<not> id_taken room (base @ ''-'' @ hex_encode bs)"
  let ?ids = "{bs :: byte list. set bs \<subseteq> UNIV \<and> length bs = 4}"
  let ?taken = "set (keys (rClients room)) \<union> set (keys (rPending room))"
  let ?f = "\<lambda>bs. base @ ''-'' @ hex_encode bs"
  have "?f ` ?ids \<subseteq> ?taken"
    using none by (auto simp: id_taken_def map_of_eq_None_iff)
  then have "card (?f ` ?ids) \<le> card ?taken" by (intro card_mono) simp_all
  also have "\<dots> \<le> length (rClients room) + length (rPending room)"
    by (rule order_trans [OF card_Un_le]) (metis add_mono card_length length_map)
  finally have "card (?f ` ?ids) \<le> length (rClients room) + length (rPending room)" .
  moreover have "inj_on ?f ?ids" by (rule inj_onI) (auto dest: hex_encode_inj)
  then have "card (?f ` ?ids) = card ?ids" by (rule card_image)
  moreover have "card ?ids = (2 ^ 8) ^ 4"
    by (subst card_lists_length_eq) (simp_all add: card_word)
  ultimately show False using assms by simp
qed

lemma fresh_id:
  assumes "length (rClients room) + length (rPending room) < 2 ^ 32"
  shows "\<exists>rnds. (\<forall>i. rand_read 16 (rnds i)) \<and> \<not> id_taken room (uniqueClientIDLocked rnds room base)"
proof -
  from fresh_suffix [OF assms] obtain bs where bs: "length bs = 4" "\<not> id_taken room (base @ ''-'' @ hex_encode bs)"
    by blast
  let ?r = "\<lambda>i :: nat. Some (bs @ replicate 12 0)"
  have "\<exists>i \<in> set [0..<8]. \<not> id_taken room (candidate_id ?r base i)"
    using bs by (intro bexI [of _ 0]) (simp_all add: candidate_hex)
  then have "\<not> id_taken room (unique_candidate ?r room base [0..<8])" by (rule unique_candidate_free)
  then have "\<not> id_taken room (uniqueClientIDLocked ?r room base)" by (simp add: uniqueClientIDLocked_def)
  then show ?thesis using bs(1) by (intro exI [of _ ?r]) (simp add: rand_read_def)
qed

section \<open>The way out\<close>

definition roomy :: "world \<Rightarrow> bool" where
  "roomy w \<longleftrightarrow> (\<forall>r. length (rClients (wRoom w r)) + length (rPending (wRoom w r)) < 2 ^ 32)"

lemma roomy_lookup: "roomy w \<Longrightarrow> roomy (joinRoom_lookup cfg slot st c state w)"
  by (auto simp: roomy_def joinRoom_lookup_def hub_room_def Let_def empty_room_def split: option.split)

lemma way_out:
  assumes "c < wNextClient w" and "wPhase w c \<noteq> Gone" and "rank (wPhase w c) \<le> 4 \<or> roomy w"
  shows "\<exists>e w'. hub_step sv w e w' \<and> c < wNextClient w' \<and> rank (wPhase w' c) < rank (wPhase w c)
    \<and> (rank (wPhase w' c) \<le> 4 \<or> roomy w')"
proof -
  let ?st = "\<lambda>_. (None, ''t'')"
  show ?thesis
  proof (cases "wPhase w c")
    case (Authed s)
    let ?w = "joinRoom_lookup (svCfg sv) (\<lambda>_. True) ?st c s w"
    have "hub_step sv w (Lookup c) ?w" by (rule hub_step.lookup [OF assms(1) Authed])
    moreover have "roomy ?w" using assms(3) Authed roomy_lookup by simp
    ultimately show ?thesis
      using lookup_phase [of "svCfg sv" "\<lambda>_. True" ?st c s w] assms(1) Authed by fastforce
  next
    case (Entering r s)
    then have "length (rClients (wRoom w r)) + length (rPending (wRoom w r)) < 2 ^ 32"
      using assms(3) by (simp add: roomy_def)
    then obtain rnds where "\<not> id_taken (wRoom w r) (uniqueClientIDLocked rnds (wRoom w r) (cID (wClient w c)))"
      using fresh_id by blast
    then have "hub_step sv w (Enter c) (joinRoom_enter (svCfg sv) (\<lambda>_. True) ?st rnds None 0 c r s w)"
      by (rule hub_step.enter [OF assms(1) Entering])
    then show ?thesis
      using enter_phases [of "svCfg sv" "\<lambda>_. True" ?st rnds None 0 c r s w] assms(1) Entering by fastforce
  next
    case (Waiting r p)
    from hub_step.timeout [OF assms(1) this] Waiting assms(1) show ?thesis
      by (intro exI [of _ "Timeout c"] exI [of _ "approval_timeout c r p w"]) (simp add: approval_timeout_def)
  next
    case (Decided r p d)
    have "hub_step sv w (Finish c) (joinRoom_finish (\<lambda>_. True) ?st c r p d w)"
      by (rule hub_step.finish [OF assms(1) Decided])
    then show ?thesis
      using finish_phase [of "\<lambda>_. True" ?st c r p d w] assms(1) Decided by fastforce
  next
    case (Reading r)
    let ?w = "readLoop_iter (svCfg sv) (\<lambda>_. True) ?st ''t'' True c r None w"
    have "hub_step sv w (Message c True None) ?w" by (rule hub_step.message [OF assms(1) Reading])
    moreover have "\<exists>info. wPhase ?w = (wPhase w)(c := Leaving r info)"
      by (simp add: readLoop_iter_def leaveRoom_phase)
    ultimately show ?thesis using assms(1) Reading by fastforce
  next
    case (Leaving r info)
    have "hub_step sv w (Rest c) (leaveRoom_rest (\<lambda>_. True) ?st no_fails ''t'' c r info w)"
      by (rule hub_step.rest [OF assms(1) Leaving]) simp
    then show ?thesis using assms(1) Leaving by fastforce
  next
    case Gone
    with assms(2) show ?thesis by simp
  qed
qed

lemma run_Cons:
  assumes "hub_run sv w1 es w2" and "hub_step sv w e w1"
  shows "hub_run sv w (e # es) w2"
  using assms(1)
proof (induction rule: hub_run.induct)
  case start
  from hub_run.step [OF hub_run.start assms(2)] show ?case by simp
next
  case (step es v e' v')
  from hub_run.step [OF step.IH step.hyps(2)] show ?case by simp
qed

lemma way_to_end:
  assumes "c < wNextClient w" and "rank (wPhase w c) \<le> 4 \<or> roomy w"
  shows "\<exists>es w'. hub_run sv w es w' \<and> wPhase w' c = Gone \<and> length es \<le> rank (wPhase w c)"
  using assms
proof (induction "rank (wPhase w c)" arbitrary: w rule: less_induct)
  case less
  show ?case
  proof (cases "wPhase w c = Gone")
    case True
    then show ?thesis by (intro exI [of _ "[]"] exI [of _ w]) (simp add: hub_run.start)
  next
    case False
    from way_out [OF less.prems(1) False less.prems(2)] obtain e v where v: "hub_step sv w e v" "c < wNextClient v"
      "rank (wPhase v c) < rank (wPhase w c)" "rank (wPhase v c) \<le> 4 \<or> roomy v"
      by blast
    from less.hyps [OF v(3,2,4)] obtain es w' where "hub_run sv v es w'" "wPhase w' c = Gone" "length es \<le> rank (wPhase v c)"
      by blast
    with run_Cons [OF _ v(1)] v(3) show ?thesis
      by (intro exI [of _ "e # es"] exI [of _ w']) simp
  qed
qed

section \<open>Properties\<close>

text \<open>
  C4: The goroutine of a connection terminates.  Whatever the others do, it takes at most six steps
  besides reading messages, on its way from the authentication into the room and out of it; and
  from every state with a free client id in its room, there is a way to its end in at most six
  steps: the approval times out, the input ends, the room is left.
\<close>

theorem goroutine_terminates:
  assumes "c < wNextClient w" and "roomy w"
  shows "(\<forall>es w'. hub_run sv w es w' \<longrightarrow> length (filter (own_step c) es) + rank (wPhase w' c) \<le> 6)
    \<and> (\<exists>es w'. hub_run sv w es w' \<and> wPhase w' c = Gone \<and> length es \<le> 6)"
proof -
  have six: "rank (wPhase w c) \<le> 6" by (cases "wPhase w c") simp_all
  moreover have "length (filter (own_step c) es) + rank (wPhase w' c) \<le> 6" if "hub_run sv w es w'" for es w'
    using run_rank [OF that assms(1)] six by simp
  moreover obtain es w' where "hub_run sv w es w'" "wPhase w' c = Gone" "length es \<le> rank (wPhase w c)"
    using way_to_end [OF assms(1)] assms(2) by blast
  ultimately show ?thesis by (meson order_trans)
qed

theorem goroutine_terminates_witness:
  "\<exists>es w'. hub_run demo_sv pending_world es w' \<and> wPhase w' 1 = Gone \<and> length es \<le> 6"
proof -
  have "roomy pending_world" by (simp add: roomy_def pending_world_def demo_room_def)
  moreover have "1 < wNextClient pending_world" by (simp add: pending_world_def)
  ultimately show ?thesis using goroutine_terminates [of 1 pending_world demo_sv] by blast
qed

end
