(* ===== verification/Typing.thy ===== *)
theory Typing
  imports Sessions Codec
begin

text \<open>
  The typing of what the server sends: every message in the queue or on the socket of a connection
  carries a payload of its type.  The contract \<open>issuing\<close> is carried from the handlers to every step
  of the server and interpreted a second time.
\<close>

section \<open>Every step\<close>

context issuing begin

lemma emits_setters:
  "emits w (set_phase c ph v) = emits w v" "emits w (set_room r x v) = emits w v" "emits w (shutdown_client c v) = emits w v"
  by (auto simp: sends_def)

lemma emits_then:
  assumes "emits w v" and "servers_own p" and "fits t p"
  shows "emits w (queue_to slot (NewEnvelope st t ''server'' x p) c v)"
    and "emits w (broadcast slot (NewEnvelope st t ''server'' x p) r y v)"
  using assms(2,3) by (auto intro!: sends_trans [OF assms(1)])

lemma emits_reject [simp]: "emits w (reject slot st c why w)"
  unfolding reject_def emits_setters by (rule emits_queue) simp_all

lemma emits_lookup: "emits w (joinRoom_lookup cfg slot st c state w)"
  by (auto simp: joinRoom_lookup_def hub_room_def Let_def intro: sends_same split: option.split)

lemma emits_as_host: "emits w (join_as_host slot st c state r w)"
  unfolding join_as_host_def Let_def auth_ok_envelope_def emits_setters
  by (rule emits_then) (simp_all add: emits_setters)

lemma emits_as_pending: "emits w (join_as_pending slot st reqrnd now c state r w)"
proof -
  have "emits w v" if "wClient v = wClient w" for v using that by (intro sends_same) simp
  then show ?thesis
    unfolding join_as_pending_def Let_def emits_setters
    by (cases "map_of (rClients (wRoom w r)) (rHostID (wRoom w r))") (simp_all add: emits_then)
qed

lemma emits_enter: "emits w (joinRoom_enter cfg slot st rnd reqrnd now c r state w)"
proof -
  have "emits w (f (set_client c ((setUser u (wClient w c))\<lparr>cID := x\<rparr>) w))" if "\<And>v. emits v (f v)" for f u x
    by (rule sends_trans [OF sends_client_same that]) (simp add: setUser_def stream_def)
  then show ?thesis by (simp add: joinRoom_enter_def Let_def emits_as_host emits_as_pending)
qed

lemma emits_finish: "emits w (joinRoom_finish slot st c r p d w)"
proof -
  have "emits w (reject slot s c why (set_room r x w))" for s why x
    by (rule sends_trans [OF _ emits_reject]) (simp add: emits_setters)
  then show ?thesis
    unfolding joinRoom_finish_def Let_def auth_ok_envelope_def
    by (simp add: emits_setters emits_then)
qed

lemma emits_rest: "emits w (leaveRoom_rest slot st f now c r info w)"
proof -
  have "emits w (w\<lparr>wClient := snd (deliver slot (\<lambda>_. NewEnvelope s TypePeerLeft ''server'' [] (PClientID x)) cs (wClient w))\<rparr>)"
    for s x cs by (rule emits_deliver) simp
  moreover have "emits w v" if "wClient v = wClient u" "emits w u" for u v using that by (simp add: sends_def)
  ultimately show ?thesis by (simp add: leaveRoom_rest_def Let_def sends_def)
qed

lemma emits_job: "emits w (run_job bind cfg slot st acq f1 f2 now j w)"
proof (cases j)
  case (JobUpdate c r x b)
  let ?w = "run_update cfg slot st acq f1 f2 now c r x b w"
  have rej: "emits w (queue_to slot (rejected_envelope s c x why w) c w)" for s why
    by (simp add: rejected_envelope_def)
  have "emits w ?w"
  proof (cases rule: run_update_cases [OF refl, where cfg = cfg and slot = slot and st = st and acquired = acq
        and ?f1.0 = f1 and ?f2.0 = f2 and now = now and c = c and r = r and updateID = x and update = b and w = w])
    case (1 seq db)
    then show ?thesis by (simp add: spawn_def sends_def)
  next
    case (2 why)
    then show ?thesis by (simp add: rej)
  next
    case (3 e)
    then show ?thesis
      unfolding 3(2) broadcastSyncRequest_def by (intro sends_trans [OF rej emits_deliver]) simp
  qed
  with JobUpdate show ?thesis by simp
next
  case (JobSnapshot c r s base)
  then show ?thesis by (simp add: run_snapshot_def Let_def sends_same)
next
  case (JobCompact c)
  then show ?thesis by (simp add: maybeAutoCompact_def Let_def split: sum.split option.split)
qed

text \<open>
  What a step adds to a stream, if the frames of a message are \<open>ok\<close> and its connection has the id
  and the role of the contract.
\<close>

lemma step_emits:
  assumes "hub_step sv w e w'" and "m \<in> set (stream (wClient w' k))" and "k < wNextClient w"
    and "\<And>c allow frame r. e = Message c allow frame \<Longrightarrow> wPhase w c = Reading r \<Longrightarrow>
      cID (wClient w c) = i \<and> role_of c r w = role \<and> (\<forall>env t. frame = Some env \<longrightarrow> ok (env\<lparr>eFrom := i, eSentAt := t\<rparr>))"
  shows "m \<in> set (stream (wClient w k)) \<or> P m"
proof -
  have "emits w w' \<or> set (stream (wClient w' k)) \<subseteq> set (stream (wClient w k))"
    using assms(1)
  proof cases
    case (message c r allow frame slot sts now)
    then show ?thesis
      using assms(4) [OF message(1,4)] by (auto intro!: emits_readLoop)
  next
    case (job n now slot sts acquired f1 f2)
    have "emits w (w\<lparr>wJobs := drop_nth n (wJobs w)\<rparr>)" by (rule sends_same) simp
    then show ?thesis unfolding job(2) using emits_job by (blast intro: sends_trans)
  next
    case (writer c b)
    then show ?thesis by (auto simp: writeLoop_step_def stream_def write_one_def dest: in_set_takeD list.set_sel(2))
  next
    case (connect st rnd f1 f2 now t frame x state db)
    then show ?thesis using assms(3) by (simp add: connect_def Let_def)
  qed (auto simp: emits_lookup emits_enter emits_finish emits_rest receive_decision_def approval_timeout_def stream_def)
  then show ?thesis using assms(2) sendsD by blast
qed

end

section \<open>The typing\<close>

definition typed :: "envelope \<Rightarrow> bool" where
  "typed e \<longleftrightarrow> fits (eType e) (ePayload e)"

definition is_raw :: "envelope \<Rightarrow> bool" where
  "is_raw e \<longleftrightarrow> (case ePayload e of Raw v \<Rightarrow> True | _ \<Rightarrow> False)"

text \<open>The payload of an envelope that \<open>ReadJSON\<close> gave is the text it was sent with.\<close>

lemma read_envelope_raw: "read_envelope v = Some e \<Longrightarrow> is_raw e"
  by (auto simp: read_envelope_def is_raw_def)

fun raw_event :: "event \<Rightarrow> bool" where
  "raw_event (Message c allow (Some env)) = is_raw env"
| "raw_event _ = True"

interpretation typed: issuing typed is_raw i role for i role
proof
  fix env x st
  assume "is_raw env"
  then show "typed (NewEnvelope st TypePong ''server'' x (ePayload env))"
    by (auto simp: typed_def is_raw_def split: payload.splits)
next
  fix env
  assume "is_raw env" "forwarded (eType env) (payload_json env)"
  then show "typed env" by (auto simp: typed_def is_raw_def payload_json_def split: payload.splits)
qed (simp_all add: typed_def)

lemma run_typed:
  assumes "hub_run sv (init_world db) es w" and "list_all raw_event es"
  shows "k < wNextClient w \<Longrightarrow> m \<in> set (stream (wClient w k)) \<Longrightarrow> typed m"
  using assms
proof (induction arbitrary: k m rule: hub_run.induct)
  case start
  then show ?case by (simp add: init_world_def)
next
  case (step es w e w')
  show ?case
  proof (cases "k < wNextClient w")
    case True
    have "m \<in> set (stream (wClient w k)) \<or> typed m"
    proof (cases "\<exists>c allow frame r. e = Message c allow frame \<and> wPhase w c = Reading r")
      case True
      then obtain c allow frame r where e: "e = Message c allow frame" "wPhase w c = Reading r" by blast
      have "frame = Some env \<Longrightarrow> is_raw (env\<lparr>eFrom := j, eSentAt := t\<rparr>)" for env j t
        using step.prems(3) by (auto simp: e(1) is_raw_def)
      with e show ?thesis
        by (intro typed.step_emits [OF step.hyps(2) step.prems(2) \<open>k < wNextClient w\<close>,
              where i = "cID (wClient w c)" and role = "role_of c r w"]) auto
    next
      case False
      then show ?thesis
        by (intro typed.step_emits [OF step.hyps(2) step.prems(2) \<open>k < wNextClient w\<close>,
              where i = "[]" and role = "[]"]) blast
    qed
    with step.IH [OF True] step.prems(3) show ?thesis by auto
  next
    case False
    from step.hyps(2) False step.prems(1,2) show ?thesis
    proof cases
      case (connect st rnd f1 f2 now t frame x state db)
      with step.prems(1,2) False auth_client [OF connect(3)] show ?thesis
        by (auto simp: connect_def Let_def new_client_def stream_def less_Suc_eq)
    next
      case (job n now slot sts acquired f1 f2)
      with quiet_sel(7) [OF quiet_job] False step.prems(1) show ?thesis by simp
    qed (use False step.prems(1) in \<open>auto simp: receive_decision_def approval_timeout_def\<close>)
  qed
qed

section \<open>The document on the wire\<close>

text \<open>A slice that is empty is sent as no text and decoded as nil.\<close>

definition nil_empty :: "bytes option \<Rightarrow> bytes option" where
  "nil_empty b = (if b = Some [] then None else b)"

lemma decode_compact: "DecodeBytes (encode_compact b) = Inr (nil_empty b)"
proof (cases b)
  case None
  then show ?thesis by (simp add: encode_compact_def nil_empty_def DecodeBytes_def)
next
  case (Some x)
  then show ?thesis by (simp add: encode_compact_def nil_empty_def DecodeBytes_EncodeBytes)
qed

lemma decode_stored:
  "map (\<lambda>u. (suSeq u, DecodeBytes (suUpdateBase64 u))) (storedUpdatesForProtocol us)
     = map (\<lambda>(q, b). (q, Inr (nil_empty (Some b)))) us"
  by (simp add: storedUpdatesForProtocol_def DecodeBytes_EncodeBytes nil_empty_def split_beta)

section \<open>Properties\<close>

lemma host_run_raw: "list_all raw_event [Connect, Lookup 0, Enter 0]"
  by simp

lemma host_stream: "map eType (stream (wClient host_world 0)) = [TypeAuthOK]" "0 < wNextClient host_world"
  by code_simp+



text \<open>
  C28: A client that decodes what it is let in with has the stored document: decoding the base64 of
  the auth_ok message gives the snapshot and the updates, byte for byte and with their sequence
  numbers, that \<open>LoadRoomState\<close> read, an empty snapshot and an empty update counting as none.
\<close>

theorem document_survives_wire:
  assumes "LoadRoomState f db db rid = Inr s"
    and "ePayload (auth_ok_envelope st i peers s isHost hostID) = PAuthOK a"
  shows "DecodeBytes (aoCompactStateBase64 a) = Inr (nil_empty (Option.bind (select_room db rid) rwCompact))
    \<and> map (\<lambda>u. (suSeq u, DecodeBytes (suUpdateBase64 u))) (aoUpdates a)
        = map (\<lambda>u. (urSeq u, Inr (nil_empty (Some (urBlob u))))) (sort_key urSeq (room_updates db rid))"
proof -
  have s: "CompactState s = Option.bind (select_room db rid) rwCompact"
    "Updates s = map (\<lambda>u. (urSeq u, urBlob u)) (sort_key urSeq (room_updates db rid))"
    using assms(1) by (auto simp: LoadRoomState_def split: if_splits option.splits)
  have a: "aoCompactStateBase64 a = encode_compact (CompactState s)" "aoUpdates a = storedUpdatesForProtocol (Updates s)"
    using assms(2) by (auto simp: auth_ok_envelope_def)
  show ?thesis unfolding a decode_compact decode_stored s by simp
qed

theorem document_survives_wire_witness:
  "\<exists>a. ePayload (auth_ok_envelope (None, ''t'') ''c'' [] \<lparr>CompactState = None, Updates = [(1, [7])]\<rparr> False ''h'') = PAuthOK a
    \<and> map (\<lambda>u. (suSeq u, DecodeBytes (suUpdateBase64 u))) (aoUpdates a) = [(1, Inr (Some [7]))]"
proof -
  obtain a where a: "ePayload (auth_ok_envelope (None, ''t'') ''c'' [] \<lparr>CompactState = None, Updates = [(1, [7])]\<rparr> False ''h'') = PAuthOK a"
    by (simp add: auth_ok_envelope_def)
  have "map (\<lambda>u. (urSeq u, urBlob u)) (sort_key urSeq (room_updates (wDB stored_world) ''r'')) = [(1, [7])]"
    by code_simp
  then have "map (\<lambda>u. (urSeq u, Inr (nil_empty (Some (urBlob u))))) (sort_key urSeq (room_updates (wDB stored_world) ''r''))
      = [(1, Inr (Some [7]))]"
    by (auto simp: nil_empty_def)
  with document_survives_wire [OF stored_facts(1) a] a show ?thesis by simp
qed

end
