(* ===== verification/Monitor.thy ===== *)
theory Monitor
  imports Http MessageProps
begin

text \<open>
  The routes of the HTTP server and its two reporting endpoints (\<open>RegisterRoutes\<close> and \<open>Stats\<close> of
  \<open>internal/server/hub.go\<close>), and that the numbers reported are those of the hub.
\<close>

section \<open>Routes\<close>

text \<open>What \<open>RegisterRoutes\<close> registers; matching a request against them is Fiber's.\<close>

datatype route = Healthz | StatsPage | CreateRoomRoute | SocketGuard | Socket

definition routes :: "(string \<times> string \<times> route) list" where
  "routes =
     [(''GET'', ''/healthz'', Healthz), (''GET'', ''/stats'', StatsPage), (''POST'', ''/api/rooms'', CreateRoomRoute),
      (''USE'', ''/ws/collab'', SocketGuard), (''GET'', ''/ws/collab'', Socket)]"

text \<open>\<open>encoding/json\<close> writes the members of a map in the order of their names.\<close>

definition healthz_reply :: json where
  "healthz_reply = JObj [(''ok'', JBool True), (''service'', JStr ''timenotes-collab'')]"

definition stats_reply :: "string \<Rightarrow> world \<Rightarrow> json" where
  "stats_reply uptime w =
     JObj [(''clients'', JNum (JInt (int (snd (Stats w))))), (''rooms'', JNum (JInt (int (fst (Stats w))))),
           (''uptime'', JStr uptime)]"

section \<open>The numbers\<close>

definition in_open_room :: "world \<Rightarrow> nat \<Rightarrow> bool" where
  "in_open_room w c \<longleftrightarrow> (\<exists>(i, r) \<in> set (wRooms w). c \<in> snd ` set (rClients (wRoom w r)))"

text \<open>A connection is a member of one room only, and once.\<close>

lemma member_phase:
  assumes "hub_inv w" and "r < wNextRoom w" and "c \<in> snd ` set (rClients (wRoom w r))"
  shows "wPhase w c = Reading r"
  using room_okD(3) [OF hub_invD(2) [OF assms(1,2)]] assms(3) by (auto simp: member_ok_def)

lemma sum_card_disjoint:
  assumes "distinct xs" and "\<And>x. x \<in> set xs \<Longrightarrow> distinct (f x)"
    and "\<And>x y z. x \<in> set xs \<Longrightarrow> y \<in> set xs \<Longrightarrow> z \<in> set (f x) \<Longrightarrow> z \<in> set (f y) \<Longrightarrow> x = y"
  shows "sum_list (map (\<lambda>x. length (f x)) xs) = card (\<Union>x \<in> set xs. set (f x))"
  using assms
proof (induction xs)
  case (Cons x xs)
  have "(\<Union>y \<in> set xs. set (f y)) \<inter> set (f x) = {}" using Cons.prems by fastforce
  then have "card (set (f x) \<union> (\<Union>y \<in> set xs. set (f y))) = length (f x) + card (\<Union>y \<in> set xs. set (f y))"
    using Cons.prems(2) by (subst card_Un_disjoint) (auto simp: distinct_card)
  with Cons show ?case by simp
qed simp

lemma stats_clients:
  assumes inv: "hub_inv w"
  shows "snd (Stats w) = card {c. in_open_room w c}"
proof -
  let ?f = "\<lambda>x. map snd (rClients (wRoom w (snd x)))"
  have rooms: "distinct (keys (wRooms w))" "\<And>i r. (i, r) \<in> set (wRooms w) \<Longrightarrow> r < wNextRoom w \<and> rID (wRoom w r) = i"
    using hub_invD(1) [OF inv] by (auto simp: rooms_ok_def)
  have "sum_list (map (\<lambda>x. length (?f x)) (wRooms w)) = card (\<Union>x \<in> set (wRooms w). set (?f x))"
  proof (rule sum_card_disjoint)
    show "distinct (wRooms w)" using rooms(1) by (simp add: distinct_map)
    show "distinct (?f x)" if "x \<in> set (wRooms w)" for x
      using members_distinct [OF inv, of "snd x" "\<lambda>_. True"] rooms(2) [of "fst x" "snd x"] that by simp
    show "x = y" if "x \<in> set (wRooms w)" "y \<in> set (wRooms w)" "z \<in> set (?f x)" "z \<in> set (?f y)" for x y z
    proof -
      have "snd x < wNextRoom w" "rID (wRoom w (snd x)) = fst x" "snd y < wNextRoom w" "rID (wRoom w (snd y)) = fst y"
        using rooms(2) that(1,2) by (metis prod.collapse)+
      moreover have "wPhase w z = Reading (snd x)" "wPhase w z = Reading (snd y)"
        using calculation that(3,4) by (auto intro: member_phase [OF inv])
      ultimately show ?thesis by (metis phase.inject(5) prod.expand)
    qed
  qed
  moreover have "(\<Union>x \<in> set (wRooms w). set (?f x)) = {c. in_open_room w c}"
    by (simp add: in_open_room_def set_eq_iff split_beta)
  ultimately show ?thesis by (simp add: Stats_def case_prod_unfold)
qed

text \<open>A room is only made while there are fewer than the limit.\<close>

definition rooms_within :: "hub_cfg \<Rightarrow> world \<Rightarrow> bool" where
  "rooms_within cfg w \<longleftrightarrow> (hcMaxGlobalRooms cfg > 0 \<longrightarrow> int (length (wRooms w)) \<le> hcMaxGlobalRooms cfg)"

lemma length_update_absent: "map_of xs k = None \<Longrightarrow> length (AList.update k v xs) = Suc (length xs)"
  by (induction xs) auto

lemma length_delete: "length (AList.delete k xs) \<le> length xs"
  by (simp add: alist_delete_filter)

lemma lookup_rooms_within: "rooms_within cfg w \<Longrightarrow> rooms_within cfg (joinRoom_lookup cfg slot st c state w)"
  by (auto simp: rooms_within_def joinRoom_lookup_def hub_room_def Let_def length_update_absent split: option.split)

lemma rest_rooms_within: "rooms_within cfg w \<Longrightarrow> rooms_within cfg (leaveRoom_rest slot st f now c r info w)"
  using length_delete [of "cRoomID (wClient w c)" "wRooms w"]
  by (auto simp: rooms_within_def leaveRoom_rest_def Let_def)

lemma step_rooms_within:
  assumes "hub_step sv w e w'" and "rooms_within (svCfg sv) w"
  shows "rooms_within (svCfg sv) w'"
  using assms(1)
proof cases
  case (message c r allow frame slot sts now)
  then have "wRooms w' = wRooms w" using contained_readLoop unfolding contained_def by blast
  with assms(2) show ?thesis by (simp add: rooms_within_def)
next
  case (job n now slot sts acquired f1 f2)
  with quiet_sel(1) [OF quiet_job] assms(2) show ?thesis by (simp add: rooms_within_def)
next
  case (lookup c state slot sts)
  with lookup_rooms_within assms(2) show ?thesis by blast
next
  case (rest c r info now slot sts f1)
  with rest_rooms_within assms(2) show ?thesis by blast
qed (use assms(2) in \<open>auto simp: rooms_within_def connect_def Let_def receive_decision_def approval_timeout_def
       joinRoom_enter_def join_as_host_def join_pending_sel joinRoom_finish_def\<close>)

lemma reachable_rooms_within: "hub_run sv (init_world db) es w \<Longrightarrow> rooms_within (svCfg sv) w"
  by (induction rule: hub_run.induct) (auto simp: step_rooms_within, simp add: rooms_within_def init_world_def)

section \<open>Properties\<close>



end
