(* ===== verification/Stale.thy ===== *)
theory Stale
  imports LeaveProps
begin

text \<open>
  A connection that was kicked goes on reading until its goroutine ends, and \<open>leaveRoom\<close> of
  \<open>internal/server/hub.go\<close> then deletes the entry under its id, whoever's it is by then.
\<close>

section \<open>Leaving under somebody else's entry\<close>

lemma leave_removes_namesake:
  assumes "(cID (wClient w c), k) \<in> members w r" and "k \<noteq> c"
    and "w' = leaveRoom_locked slot st c r w"
  shows "cID (wClient w c) \<notin> fst ` members w' r \<and> wPhase w' k = wPhase w k \<and> cClosed (wClient w' k) = cClosed (wClient w k)"
proof -
  have "cID (wClient w c) \<notin> fst ` members w' r"
    by (simp add: assms(3) leaveRoom_room(2) alist_delete_filter image_iff split_beta)
  moreover have "wPhase w' k = wPhase w k"
    using leaveRoom_room(3) [of slot st c r w] assms(2,3) by (metis fun_upd_other)
  moreover obtain info where "w' = set_phase c (Leaving r info) (after_leave slot st c r w)"
    using leaveRoom_locked_eq [of slot st c r w] assms(3) by blast
  then have "cClosed (wClient w' k) = cClosed (wClient w k)" using assms(2) by simp
  ultimately show ?thesis by blast
qed

section \<open>A run to it\<close>

text \<open>
  \<open>a\<close> kicks \<open>b\<close>; before the kicked connection ends, \<open>b\<close> connects again and is let in under the same
  id; then the kicked connection ends.
\<close>

definition kick_b_frame :: envelope where
  "kick_b_frame = json_frame TypePeerKick [(''clientId'', JStr ''b'')]"

definition readmit_frame :: envelope where
  "readmit_frame = json_frame TypeJoinDecision [(''requestId'', JStr ''join-fallback''), (''approved'', JBool True)]"

definition kicked_b_world :: world where "kicked_b_world = demo_message 0 kick_b_frame pair_world"
definition back_world :: world where "back_world = demo_connect ''b'' 3 kicked_b_world"
definition waiting_world :: world where "waiting_world = demo_join 2 back_world"
definition readmitted_world :: world where
  "readmitted_world = receive_decision 2 0 1 approval (demo_message 0 readmit_frame waiting_world)"
definition again_world :: world where
  "again_world = joinRoom_finish always stamped 2 0 1 approval readmitted_world"
definition lost_world :: world where
  "lost_world = readLoop_iter (svCfg demo_sv) always stamped ''t2'' True 1 0 None again_world"

definition stale_events :: "event list" where
  "stale_events = [Message 0 True (Some kick_b_frame), Connect, Lookup 2, Enter 2, Message 0 True (Some readmit_frame),
     Decision 2, Finish 2, Message 1 True None]"

lemma stale_run: "hub_run demo_sv pair_world stale_events lost_world"
proof -
  have "hub_step demo_sv pair_world (Message 0 True (Some kick_b_frame)) kicked_b_world"
    unfolding kicked_b_world_def demo_message_def by (rule hub_step.message) code_simp+
  note run1 = hub_run.step [OF hub_run.start this]
  have "hub_step demo_sv kicked_b_world Connect back_world"
    unfolding back_world_def by (rule demo_connect_step) code_simp
  note run2 = hub_run.step [OF run1 this]
  have run3: "hub_run demo_sv pair_world (([] @ [Message 0 True (Some kick_b_frame)]) @ [Connect] @ [Lookup 2, Enter 2]) waiting_world"
    unfolding waiting_world_def append_assoc [symmetric]
    by (rule demo_join_steps [OF run2 _ _ refl]) code_simp+
  have "hub_step demo_sv waiting_world (Message 0 True (Some readmit_frame)) (demo_message 0 readmit_frame waiting_world)"
    unfolding demo_message_def by (rule hub_step.message) code_simp+
  note run4 = hub_run.step [OF run3 this]
  have "hub_step demo_sv (demo_message 0 readmit_frame waiting_world) (Decision 2) readmitted_world"
    unfolding readmitted_world_def by (rule hub_step.decision) code_simp+
  note run5 = hub_run.step [OF run4 this]
  have "hub_step demo_sv readmitted_world (Finish 2) again_world"
    unfolding again_world_def by (rule hub_step.finish) code_simp+
  note run6 = hub_run.step [OF run5 this]
  have "hub_step demo_sv again_world (Message 1 True None) lost_world"
    unfolding lost_world_def by (rule hub_step.message) code_simp+
  note run7 = hub_run.step [OF run6 this]
  then show ?thesis by (simp add: stale_events_def)
qed

lemma stale_connection_removes_namesake:
  "rClients (wRoom again_world 0) = [(''a'', 0), (''b'', 2)]" "cID (wClient again_world 1) = ''b''"
  "rClients (wRoom lost_world 0) = [(''a'', 0)]" "wPhase lost_world 2 = Reading 0" "\<not> cClosed (wClient lost_world 2)"
  by code_simp+

end
