(* ===== verification/Race.thy ===== *)
theory Race
  imports Client
begin

text \<open>
  \<open>queue\<close> and \<open>shutdown\<close> of \<open>internal/server/hub.go\<close> step by step: calls of both on one connection
  run concurrently, and the writer receives.  A send on a closed Go channel panics, also one that
  is waiting when the channel is closed; \<open>sync.Once\<close> lets one call run and makes the others wait.
  Elsewhere a call of \<open>queue\<close> is one step; here it is shown what that is worth, and what it hides.
\<close>

section \<open>The calls\<close>

text \<open>
  Where a call is: in \<open>queue\<close> before its first check, at its first send, before its second check,
  at the send with the timer, and after it with its result; in \<open>shutdown\<close> before \<open>Do\<close>, before the
  flag, before the close, and after it; or panicked.
\<close>

datatype call =
    QCheck envelope
  | QSend envelope
  | QAgain envelope
  | QWait envelope
  | Queued envelope bool
  | SEnter
  | SFlag
  | SClose
  | SDone
  | SendPanic envelope
  | ClosePanic

datatype once = OnceFree | OnceRunning | OnceDone

text \<open>
  \<open>coFlag\<close> is \<open>client.closed\<close>.  What was received, and what was sent by which call, is kept for the
  statements.
\<close>

record conn =
  coBuf :: "envelope list"
  coCap :: nat
  coChanClosed :: bool
  coFlag :: bool
  coOnce :: once
  coCall :: "nat \<Rightarrow> call"
  coReceived :: "envelope list"
  coSent :: "(nat \<times> envelope) list"

definition set_call :: "nat \<Rightarrow> call \<Rightarrow> conn \<Rightarrow> conn" where
  "set_call k x s = s\<lparr>coCall := (coCall s)(k := x)\<rparr>"

text \<open>A send that is ready: it panics, or puts the message in the buffer.\<close>

definition send_now :: "nat \<Rightarrow> envelope \<Rightarrow> conn \<Rightarrow> conn" where
  "send_now k e s =
     (if coChanClosed s then set_call k (SendPanic e) s
      else set_call k (Queued e True) (s\<lparr>coBuf := coBuf s @ [e], coSent := coSent s @ [(k, e)]\<rparr>))"

definition send_ready :: "conn \<Rightarrow> bool" where
  "send_ready s \<longleftrightarrow> coChanClosed s \<or> length (coBuf s) < coCap s"

inductive call_step :: "conn \<Rightarrow> nat \<Rightarrow> conn \<Rightarrow> bool" where
  check: "coCall s k = QCheck e \<Longrightarrow>
     call_step s k (set_call k (if coFlag s then Queued e False else QSend e) s)"
| send: "coCall s k = QSend e \<Longrightarrow> send_ready s \<Longrightarrow> call_step s k (send_now k e s)"
| full: "coCall s k = QSend e \<Longrightarrow> \<not> send_ready s \<Longrightarrow>
     call_step s k (set_call k (if isTransientEnvelope e then Queued e False else QAgain e) s)"
| again: "coCall s k = QAgain e \<Longrightarrow>
     call_step s k (set_call k (if coFlag s then Queued e False else QWait e) s)"
| wait: "coCall s k = QWait e \<Longrightarrow> send_ready s \<Longrightarrow> call_step s k (send_now k e s)"
| timer: "coCall s k = QWait e \<Longrightarrow> call_step s k (set_call k (Queued e False) s)"
| enter: "coCall s k = SEnter \<Longrightarrow> coOnce s = OnceFree \<Longrightarrow>
     call_step s k (set_call k SFlag (s\<lparr>coOnce := OnceRunning\<rparr>))"
| skip: "coCall s k = SEnter \<Longrightarrow> coOnce s = OnceDone \<Longrightarrow> call_step s k (set_call k SDone s)"
| flag: "coCall s k = SFlag \<Longrightarrow> call_step s k (set_call k SClose (s\<lparr>coFlag := True\<rparr>))"
| close: "coCall s k = SClose \<Longrightarrow>
     call_step s k (if coChanClosed s then set_call k ClosePanic s
       else set_call k SDone (s\<lparr>coChanClosed := True, coOnce := OnceDone\<rparr>))"

text \<open>The writer takes the first message of the buffer, whether the channel is closed or not.\<close>

inductive race_step :: "conn \<Rightarrow> conn \<Rightarrow> bool" where
  call: "call_step s k s' \<Longrightarrow> race_step s s'"
| receive: "coBuf s = e # es \<Longrightarrow> race_step s (s\<lparr>coBuf := es, coReceived := coReceived s @ [e]\<rparr>)"

inductive race_run :: "conn \<Rightarrow> conn \<Rightarrow> bool" for s0 :: conn where
  start: "race_run s0 s0"
| step: "race_run s0 s \<Longrightarrow> race_step s s' \<Longrightarrow> race_run s0 s'"

text \<open>At the start the connection is open, its queue empty, and every call at its beginning.\<close>

fun begins :: "call \<Rightarrow> bool" where
  "begins (QCheck e) = True"
| "begins SEnter = True"
| "begins _ = False"

definition fresh :: "nat \<Rightarrow> (nat \<Rightarrow> call) \<Rightarrow> conn" where
  "fresh cap calls = \<lparr>coBuf = [], coCap = cap, coChanClosed = False, coFlag = False, coOnce = OnceFree,
     coCall = calls, coReceived = [], coSent = []\<rparr>"

section \<open>The invariant\<close>

definition closing :: "call \<Rightarrow> bool" where
  "closing x \<longleftrightarrow> x = SFlag \<or> x = SClose"

definition once_ok :: "conn \<Rightarrow> bool" where
  "once_ok s \<longleftrightarrow>
     (\<forall>k. closing (coCall s k) \<longrightarrow> coOnce s = OnceRunning)
   \<and> (\<forall>k l. closing (coCall s k) \<longrightarrow> closing (coCall s l) \<longrightarrow> k = l)
   \<and> (coChanClosed s \<longrightarrow> coOnce s = OnceDone)"

definition sent_ok :: "conn \<Rightarrow> bool" where
  "sent_ok s \<longleftrightarrow>
     coReceived s @ coBuf s = map snd (coSent s) \<and> distinct (map fst (coSent s))
   \<and> (\<forall>k e. (k, e) \<in> set (coSent s) \<longleftrightarrow> coCall s k = Queued e True)"

definition panics_ok :: "conn \<Rightarrow> bool" where
  "panics_ok s \<longleftrightarrow> (\<forall>k. coCall s k \<noteq> ClosePanic \<and> (\<forall>e. coCall s k = SendPanic e \<longrightarrow> coChanClosed s))"

lemma set_call_sel [simp]:
  "coBuf (set_call k x s) = coBuf s" "coCap (set_call k x s) = coCap s" "coChanClosed (set_call k x s) = coChanClosed s"
  "coFlag (set_call k x s) = coFlag s" "coOnce (set_call k x s) = coOnce s" "coReceived (set_call k x s) = coReceived s"
  "coSent (set_call k x s) = coSent s" "coCall (set_call k x s) = (coCall s)(k := x)"
  by (simp_all add: set_call_def)

lemma once_step: "call_step s k s' \<Longrightarrow> once_ok s \<Longrightarrow> once_ok s'"
  by (erule call_step.cases) (auto simp: once_ok_def closing_def send_now_def split: if_splits)

lemma call_not_sent: "sent_ok s \<Longrightarrow> (\<And>e. coCall s k \<noteq> Queued e True) \<Longrightarrow> k \<notin> fst ` set (coSent s)"
  unfolding sent_ok_def by fastforce

lemma sent_step:
  assumes "call_step s k s'" and ok: "sent_ok s"
  shows "sent_ok s'"
proof -
  have "coCall s k \<noteq> Queued e True" for e using assms(1) by cases simp_all
  then have "k \<notin> fst ` set (coSent s)" by (rule call_not_sent [OF ok])
  with assms show ?thesis
    by (cases rule: call_step.cases) (force simp: sent_ok_def send_now_def split: if_splits)+
qed

lemma panics_step: "call_step s k s' \<Longrightarrow> once_ok s \<Longrightarrow> panics_ok s \<Longrightarrow> panics_ok s'"
  by (erule call_step.cases) (auto simp: once_ok_def closing_def panics_ok_def send_now_def split: if_splits)

lemma race_ok:
  assumes "race_run s0 s" and "once_ok s0" and "sent_ok s0" and "panics_ok s0"
  shows "once_ok s \<and> sent_ok s \<and> panics_ok s"
  using assms(1)
proof (induction rule: race_run.induct)
  case (step s s')
  from step.hyps(2) step.IH show ?case
  proof cases
    case (call k)
    with step.IH once_step sent_step panics_step show ?thesis by blast
  next
    case (receive e es)
    with step.IH show ?thesis by (simp add: once_ok_def sent_ok_def panics_ok_def)
  qed
qed (use assms in simp)

lemma fresh_ok:
  assumes "\<And>k. begins (calls k)"
  shows "once_ok (fresh cap calls)" "sent_ok (fresh cap calls)" "panics_ok (fresh cap calls)"
proof -
  have "calls k \<noteq> Queued e b" "\<not> closing (calls k)" "calls k \<noteq> SendPanic e" "calls k \<noteq> ClosePanic" for k e b
    using assms [of k] by (auto simp: closing_def)
  then show "once_ok (fresh cap calls)" "sent_ok (fresh cap calls)" "panics_ok (fresh cap calls)"
    by (simp_all add: once_ok_def sent_ok_def panics_ok_def fresh_def)
qed

section \<open>One call alone\<close>

text \<open>
  A call of \<open>queue\<close> that nobody interrupts, except the writer while it waits, is the one step it is
  elsewhere.
\<close>

definition conn_of :: "client \<Rightarrow> (nat \<Rightarrow> call) \<Rightarrow> once \<Rightarrow> (nat \<times> envelope) list \<Rightarrow> conn" where
  "conn_of c calls o1 sent = \<lparr>coBuf = cSend c, coCap = cCap c, coChanClosed = cClosed c, coFlag = cClosed c,
     coOnce = o1, coCall = calls, coReceived = cWritten c, coSent = sent\<rparr>"

lemma conn_of_sel [simp]:
  "coBuf (conn_of c calls o1 sent) = cSend c" "coCap (conn_of c calls o1 sent) = cCap c"
  "coChanClosed (conn_of c calls o1 sent) = cClosed c" "coFlag (conn_of c calls o1 sent) = cClosed c"
  "coCall (conn_of c calls o1 sent) = calls" "coOnce (conn_of c calls o1 sent) = o1"
  "coReceived (conn_of c calls o1 sent) = cWritten c" "coSent (conn_of c calls o1 sent) = sent"
  by (simp_all add: conn_of_def)

lemma race_then:
  "race_run s0 s \<Longrightarrow> call_step s k s1 \<Longrightarrow> s1 = s' \<Longrightarrow> race_run s0 s'"
  using race_run.step [OF _ race_step.call] by blast

lemma set_call_conn: "set_call k x (conn_of c calls o1 sent) = conn_of c (calls(k := x)) o1 sent"
  by (simp add: set_call_def conn_of_def)

lemma send_now_conn:
  "\<not> cClosed c \<Longrightarrow> send_now k e (conn_of c calls o1 sent)
     = conn_of (c\<lparr>cSend := cSend c @ [e]\<rparr>) (calls(k := Queued e True)) o1 (sent @ [(k, e)])"
  by (simp add: send_now_def set_call_def conn_of_def)

lemma receive_conn:
  "cSend c \<noteq> [] \<Longrightarrow> race_step (conn_of c calls o1 sent) (conn_of (write_one c) calls o1 sent)"
  using race_step.receive [of "conn_of c calls o1 sent" "hd (cSend c)" "tl (cSend c)"]
  by (cases "cSend c") (simp_all add: conn_of_def write_one_def)

lemma queue_alone:
  assumes "calls k = QCheck e" and "0 < cCap c" and "cConnOpen c" and "length (cSend c) \<le> cCap c"
  shows "race_run (conn_of c calls o1 sent)
    (conn_of (snd (queue slot e c)) (calls(k := Queued e (fst (queue slot e c)))) o1
      (if fst (queue slot e c) then sent @ [(k, e)] else sent))"
proof -
  let ?s = "\<lambda>x. conn_of c (calls(k := x)) o1 sent"
  have s0: "race_run (conn_of c calls o1 sent) (?s (if cClosed c then Queued e False else QSend e))"
    by (rule race_then [OF race_run.start call_step.check [of _ k e]]) (simp_all add: assms(1) set_call_conn)
  show ?thesis
  proof (cases "cClosed c")
    case True
    with s0 show ?thesis by (simp add: queue_def)
  next
    case False
    with s0 have s1: "race_run (conn_of c calls o1 sent) (?s (QSend e))" by simp
    show ?thesis
    proof (cases "length (cSend c) < cCap c")
      case True
      have "race_run (conn_of c calls o1 sent)
          (conn_of (c\<lparr>cSend := cSend c @ [e]\<rparr>) (calls(k := Queued e True)) o1 (sent @ [(k, e)]))"
        by (rule race_then [OF s1 call_step.send [of _ k e]]) (simp_all add: send_ready_def True False send_now_conn)
      with True False show ?thesis by (simp add: queue_def)
    next
      case full: False
      have s2: "race_run (conn_of c calls o1 sent) (?s (if isTransientEnvelope e then Queued e False else QAgain e))"
        by (rule race_then [OF s1 call_step.full [of _ k e]]) (simp_all add: send_ready_def full False set_call_conn)
      show ?thesis
      proof (cases "isTransientEnvelope e")
        case True
        with s2 full False show ?thesis by (simp add: queue_def)
      next
        case rel: False
        with s2 have s2: "race_run (conn_of c calls o1 sent) (?s (QAgain e))" by simp
        have s3: "race_run (conn_of c calls o1 sent) (?s (QWait e))"
          by (rule race_then [OF s2 call_step.again [of _ k e]]) (simp_all add: False set_call_conn)
        show ?thesis
        proof (cases slot)
          case True
          have ne: "cSend c \<noteq> []" using full assms(2) by auto
          from race_run.step [OF s3 receive_conn [OF ne]]
          have s4: "race_run (conn_of c calls o1 sent) (conn_of (write_one c) (calls(k := QWait e)) o1 sent)" .
          have "length (tl (cSend c)) < cCap c" using ne assms(2,4) by (cases "cSend c") auto
          then have "race_run (conn_of c calls o1 sent)
              (conn_of ((write_one c)\<lparr>cSend := cSend (write_one c) @ [e]\<rparr>) (calls(k := Queued e True)) o1 (sent @ [(k, e)]))"
            using False
            by (intro race_then [OF s4 call_step.wait [of _ k e]]) (simp_all add: send_ready_def write_one_def send_now_conn)
          with True False full rel assms(3) show ?thesis by (simp add: queue_def Let_def)
        next
          case no_slot: False
          have "race_run (conn_of c calls o1 sent) (?s (Queued e False))"
            by (rule race_then [OF s3 call_step.timer [of _ k e]]) (simp_all add: set_call_conn)
          with no_slot False full rel show ?thesis by (simp add: queue_def)
        qed
      qed
    qed
  qed
qed

text \<open>And one call of \<open>shutdown\<close>, the first or a later one.\<close>

lemma shutdown_alone:
  assumes "calls k = SEnter" and "o1 = (if cClosed c then OnceDone else OnceFree)"
  shows "race_run (conn_of c calls o1 sent) (conn_of (shutdown c) (calls(k := SDone)) OnceDone sent)"
proof (cases "cClosed c")
  case True
  have "race_run (conn_of c calls o1 sent) (conn_of c (calls(k := SDone)) o1 sent)"
    by (rule race_then [OF race_run.start call_step.skip [of _ k]]) (simp_all add: assms True set_call_conn)
  moreover have "shutdown c = c" using True by (simp add: shutdown_def)
  ultimately show ?thesis using True assms(2) by simp
next
  case False
  let ?s = "conn_of c calls o1 sent"
  have s1: "race_run ?s (set_call k SFlag (?s\<lparr>coOnce := OnceRunning\<rparr>))" (is "race_run ?s ?s1")
    by (rule race_then [OF race_run.start call_step.enter]) (simp_all add: assms False)
  have s2: "race_run ?s (set_call k SClose (?s1\<lparr>coFlag := True\<rparr>))" (is "race_run ?s ?s2")
    by (rule race_then [OF s1 call_step.flag]) simp_all
  show ?thesis
    by (rule race_then [OF s2 call_step.close [of _ k]]) (simp_all add: False set_call_def conn_of_def shutdown_def)
qed

section \<open>Properties\<close>

text \<open>
  C15: However calls of \<open>queue\<close> and \<open>shutdown\<close> on one connection and its writer interleave: what the
  writer received and what is buffered are, in order and each once, the messages of the calls that
  returned true and of no others; the channel is never closed twice.  But a call of \<open>queue\<close> may
  panic, when a \<open>shutdown\<close> comes between its check of the flag and its send.
\<close>

theorem queue_interleaved:
  assumes "race_run (fresh cap calls) s" and "\<forall>k. begins (calls k)"
  shows "coReceived s @ coBuf s = map snd (coSent s) \<and> distinct (map fst (coSent s))
    \<and> (\<forall>k e. (k, e) \<in> set (coSent s) \<longleftrightarrow> coCall s k = Queued e True)
    \<and> (\<forall>k. coCall s k \<noteq> ClosePanic)
    \<and> (\<exists>v. race_run (fresh cap (\<lambda>k. if k = 0 then QCheck m else SEnter)) v \<and> coCall v 0 = SendPanic m)"
proof -
  have "once_ok s \<and> sent_ok s \<and> panics_ok s"
    using race_ok [OF assms(1) fresh_ok] assms(2) by blast
  moreover have "\<exists>v. race_run (fresh cap (\<lambda>k. if k = 0 then QCheck m else SEnter)) v \<and> coCall v 0 = SendPanic m"
  proof -
    let ?s = "fresh cap (\<lambda>k. if k = 0 then QCheck m else SEnter)"
    have s1: "race_run ?s (set_call 0 (QSend m) ?s)" (is "race_run ?s ?s1")
      by (rule race_then [OF race_run.start call_step.check [of _ 0 m]]) (simp_all add: fresh_def)
    have s2: "race_run ?s (set_call 1 SFlag (?s1\<lparr>coOnce := OnceRunning\<rparr>))" (is "race_run ?s ?s2")
      by (rule race_then [OF s1 call_step.enter [of _ 1]]) (simp_all add: fresh_def)
    have s3: "race_run ?s (set_call 1 SClose (?s2\<lparr>coFlag := True\<rparr>))" (is "race_run ?s ?s3")
      by (rule race_then [OF s2 call_step.flag [of _ 1]]) simp_all
    have s4: "race_run ?s (set_call 1 SDone (?s3\<lparr>coChanClosed := True, coOnce := OnceDone\<rparr>))" (is "race_run ?s ?s4")
      by (rule race_then [OF s3 call_step.close [of _ 1]]) (simp_all add: fresh_def)
    have "race_run ?s (send_now 0 m ?s4)"
      by (rule race_then [OF s4 call_step.send [of _ 0 m]]) (simp_all add: send_ready_def)
    then show ?thesis by (intro exI [of _ "send_now 0 m ?s4"]) (simp add: send_now_def)
  qed
  ultimately show ?thesis by (simp add: sent_ok_def panics_ok_def)
qed

text \<open>On a connection in use: one message is already in the queue when the statement is applied.\<close>

definition greeting :: envelope where
  "greeting = NewEnvelope (None, ''2026-01-01T00:00:00Z'') TypePing ''room'' [] (Raw None)"

definition greeting_queued :: conn where
  "greeting_queued = send_now 0 greeting
     (set_call 0 (QSend greeting) (fresh 2048 (\<lambda>k. if k = 0 then QCheck greeting else SEnter)))"

lemma greeting_run: "race_run (fresh 2048 (\<lambda>k. if k = 0 then QCheck greeting else SEnter)) greeting_queued"
proof -
  let ?s = "fresh 2048 (\<lambda>k. if k = 0 then QCheck greeting else SEnter)"
  have "race_run ?s (set_call 0 (QSend greeting) ?s)"
    by (rule race_then [OF race_run.start call_step.check [of _ 0 greeting]]) (simp_all add: fresh_def)
  then show ?thesis unfolding greeting_queued_def
    by (rule race_then [OF _ call_step.send [of _ 0 greeting]]) (simp_all add: send_ready_def fresh_def)
qed

theorem queue_interleaved_witness:
  "coBuf greeting_queued = [greeting] \<and> [greeting] = map snd (coSent greeting_queued)
   \<and> (\<exists>v. race_run (fresh 2048 (\<lambda>k. if k = 0 then QCheck greeting else SEnter)) v
        \<and> coCall v 0 = SendPanic greeting)"
  using queue_interleaved [OF greeting_run, of greeting]
  by (simp add: greeting_queued_def send_now_def fresh_def set_call_def)

end
