(* ===== verification/Writes.thy ===== *)
theory Writes
  imports Serializer Sqlite Frames
begin

text \<open>
  The goroutines that persist updates and snapshots (\<open>handleEnvelope\<close> of \<open>internal/server/hub.go\<close>)
  in small steps: waiting for the room's permit, reading the room's byte counter, writing, giving
  the permit back are steps of their own, between which every other goroutine runs, also those that
  use the store without a permit.  It is shown that with the permits nobody can tell this from the
  one step that \<open>run_job\<close> is, that the quota of a room holds, and that without them it does not.
\<close>

section \<open>The byte counter of a room\<close>

definition used_bytes :: "db \<Rightarrow> string \<Rightarrow> int" where
  "used_bytes db rid = (case select_room db rid of None \<Rightarrow> 0 | Some r \<Rightarrow> rwStorageBytes r)"

lemma storage_exceeded_used:
  "storage_exceeded cfg f rid n db \<longleftrightarrow> \<not> f 0 \<and> used_bytes db rid + n > hcRoomMaxStorageBytes cfg"
  by (simp add: storage_exceeded_def RoomStorageBytes_def used_bytes_def)

lemma used_update_rooms:
  assumes "\<And>r. rwID (f r) = rwID r" and "\<And>r. rwStorageBytes (f r) = rwStorageBytes r"
  shows "used_bytes (update_rooms p f db) rid = used_bytes db rid"
  using assms by (simp add: used_bytes_def select_update_rooms split: option.split)

lemma used_update_other:
  assumes "\<And>r. rwID (f r) = rwID r" and "\<And>r. p r \<Longrightarrow> rwID r \<noteq> x"
  shows "used_bytes (update_rooms p f db) x = used_bytes db x"
  using assms(2) select_SomeD [of db x]
  by (fastforce simp: used_bytes_def select_update_rooms [OF assms(1)] split: option.split)

lemma used_delete_updates [simp]: "used_bytes (delete_updates p db) rid = used_bytes db rid"
  by (simp add: used_bytes_def store_simps)

lemma used_insert_update: "insert_update u db = Some db' \<Longrightarrow> used_bytes db' rid = used_bytes db rid"
  by (auto simp: insert_update_def used_bytes_def select_room_def split: if_splits)

lemma used_insert_room:
  assumes "insert_room r db = Some db'" and "rwStorageBytes r = 0"
  shows "used_bytes db' rid = used_bytes db rid"
proof -
  have none: "select_room db (rwID r) = None" and db': "db' = db\<lparr>dbRooms := dbRooms db @ [r]\<rparr>"
    using assms(1) by (auto simp: insert_room_def split: if_splits)
  have "find P (rs @ [r]) = (case find P rs of None \<Rightarrow> if P r then Some r else None | Some x \<Rightarrow> Some x)"
    for P and rs :: "room_row list"
    by (induction rs) auto
  then show ?thesis
    using none assms(2) by (auto simp: db' used_bytes_def select_room_def split: option.split)
qed

lemma used_ensure: "used_bytes (snd (EnsureRoom f now rid h db)) x = used_bytes db x"
  by (auto simp: EnsureRoom_def used_update_rooms used_insert_room split: option.split)

lemma used_close: "used_bytes (snd (CloseRoom f now rid db)) x = used_bytes db x"
  by (simp add: CloseRoom_def used_update_rooms)

lemma used_append:
  "used_bytes (snd (AppendUpdate f now rid u db)) x =
     (case fst (AppendUpdate f now rid u db) of
        Inl _ \<Rightarrow> used_bytes db x
      | Inr _ \<Rightarrow> used_bytes db x + (if x = rid then int (length u) else 0))"
proof (cases "fst (AppendUpdate f now rid u db)")
  case (Inl e)
  then show ?thesis by (auto simp: AppendUpdate_def Let_def split: option.splits if_splits)
next
  case (Inr seq)
  let ?f = "\<lambda>r. r\<lparr>rwUpdateSeq := seq, rwStorageBytes := rwStorageBytes r + int (length u),
    rwUpdateCount := rwUpdateCount r + 1, rwUpdatedAt := now\<rparr>"
  obtain r d where r: "select_room db rid = Some r"
    and d: "insert_update \<lparr>urRoomID = rid, urSeq = seq, urBlob = u, urCreatedAt = now\<rparr> db = Some d"
    and out: "snd (AppendUpdate f now rid u db) = update_rooms (\<lambda>r. rwID r = rid) ?f d"
    using Inr by (auto simp: AppendUpdate_def Let_def split: option.splits if_splits)
  have sel: "select_room d y = select_room db y" for y
    using d by (auto simp: insert_update_def select_room_def split: if_splits)
  show ?thesis
  proof (cases "x = rid")
    case True
    then show ?thesis
      using r select_SomeD [OF r] by (simp add: Inr out used_bytes_def select_update_rooms sel)
  next
    case False
    then show ?thesis
      using used_insert_update [OF d] by (simp add: Inr out) (subst used_update_other; auto)
  qed
qed

lemma used_save:
  "used_bytes (snd (SaveSnapshot bind f now rid st base db)) x = used_bytes db x
   \<or> (\<exists>b. x = rid \<and> bind st = Some b \<and> used_bytes (snd (SaveSnapshot bind f now rid st base db)) x = int (length b))"
proof (cases "x = rid")
  case False
  then show ?thesis by (auto simp: SaveSnapshot_def Let_def split: option.split intro!: used_update_other)
next
  case True
  then show ?thesis
    by (auto simp: SaveSnapshot_def Let_def used_bytes_def store_simps split: option.split)
qed

lemma used_purge:
  assumes "store_inv db"
  shows "used_bytes (snd (DeleteInactiveRooms fk f cutoff db)) x \<in> {0, used_bytes db x}"
  by (auto simp: DeleteInactiveRooms_eq used_bytes_def purged_select [OF assms] split: option.split)

text \<open>The operations that are used without a permit never add to it.\<close>

fun unpermitted :: "store_op \<Rightarrow> bool" where
  "unpermitted (OpAppend now rid u) = False"
| "unpermitted (OpSave now rid st base) = False"
| "unpermitted _ = True"

lemma used_unpermitted:
  assumes "unpermitted op" and "store_inv db" and "\<And>x. 0 \<le> used_bytes db x"
  shows "used_bytes (sqlite_step bind fk db (f, op)) x \<le> used_bytes db x"
    and "0 \<le> used_bytes (sqlite_step bind fk db (f, op)) x"
  using assms(1) used_purge [OF assms(2), of fk f "op_clock op" x] assms(3) [of x]
  by (cases op; auto simp: used_ensure used_close)+

section \<open>The goroutines\<close>

text \<open>
  What a goroutine writes, with the room of its connection.  It begins with \<open>Todo\<close>; \<open>Passed\<close> keeps
  whether reading the counter failed, which lets it pass, and in \<open>Ended\<close> it still has the permit, if it had one.
  \<open>Busy\<close>, \<open>Full\<close> and \<open>Failed\<close> stand for the refusals it sends to its client.
\<close>

datatype write_job =
    WriteUpdate string bytes
  | WriteSnapshot string "bytes option" int

fun write_room :: "write_job \<Rightarrow> string" where
  "write_room (WriteUpdate rid u) = rid"
| "write_room (WriteSnapshot rid st base) = rid"

fun write_size :: "write_job \<Rightarrow> int" where
  "write_size (WriteUpdate rid u) = int (length u)"
| "write_size (WriteSnapshot rid st base) = blob_length st"

datatype outcome = Busy | Full | Failed store_error | Saved

datatype stage = Todo | Passed bool | Ended outcome

fun outcome_of :: "(store_error, 'a) result \<Rightarrow> outcome" where
  "outcome_of (Inl e) = Failed e"
| "outcome_of (Inr x) = Saved"

fun store_write ::
  "(bytes option \<Rightarrow> bytes option) \<Rightarrow> fails \<Rightarrow> string \<Rightarrow> write_job \<Rightarrow> db \<Rightarrow> outcome \<times> db" where
  "store_write bind f now (WriteUpdate rid u) db = map_prod outcome_of id (AppendUpdate f now rid u db)"
| "store_write bind f now (WriteSnapshot rid st base) db =
     map_prod outcome_of id (SaveSnapshot bind f now rid st base db)"

record writers =
  wrSerial :: serial
  wrDB :: db
  wrStage :: "nat \<Rightarrow> stage"

definition set_stage :: "nat \<Rightarrow> stage \<Rightarrow> writers \<Rightarrow> writers" where
  "set_stage g x s = s\<lparr>wrStage := (wrStage s)(g := x)\<rparr>"

definition holds :: "writers \<Rightarrow> nat \<Rightarrow> bool" where
  "holds s g \<longleftrightarrow> (\<exists>rid ch. srPermit (wrSerial s) g = Holding rid ch)"

datatype act = Permit move | Pass nat bool | Refuse nat | Store nat bool fails string | Outside fails store_op

text \<open>The moves of a goroutine around its write, and that of \<open>leaveRoom\<close>.\<close>

fun may_move :: "(nat \<Rightarrow> write_job) \<Rightarrow> writers \<Rightarrow> move \<Rightarrow> bool" where
  "may_move job s (Look g rid) \<longleftrightarrow> wrStage s g = Todo \<and> rid = write_room (job g)"
| "may_move job s (Take g) \<longleftrightarrow> True"
| "may_move job s (GiveUp g) \<longleftrightarrow> True"
| "may_move job s (Release g) \<longleftrightarrow> (\<exists>x. wrStage s g = Ended x)"
| "may_move job s (Forget rid) \<longleftrightarrow> True"

fun moved :: "move \<Rightarrow> writers \<Rightarrow> writers" where
  "moved (GiveUp g) s = set_stage g (Ended Busy) s"
| "moved _ s = s"

inductive write_step ::
  "(bytes option \<Rightarrow> bytes option) \<Rightarrow> bool \<Rightarrow> hub_cfg \<Rightarrow> (nat \<Rightarrow> write_job) \<Rightarrow> writers \<Rightarrow> act \<Rightarrow> writers \<Rightarrow> bool"
  for bind fk cfg job where
  permit: "permit_step (wrSerial s) m t \<Longrightarrow> may_move job s m \<Longrightarrow>
     write_step bind fk cfg job s (Permit m) (moved m (s\<lparr>wrSerial := t\<rparr>))"
| pass: "wrStage s g = Todo \<Longrightarrow> holds s g \<Longrightarrow>
     \<not> storage_exceeded cfg (\<lambda>_. b) (write_room (job g)) (write_size (job g)) (wrDB s) \<Longrightarrow>
     write_step bind fk cfg job s (Pass g b) (set_stage g (Passed b) s)"
| refuse: "wrStage s g = Todo \<Longrightarrow> holds s g \<Longrightarrow>
     storage_exceeded cfg no_fails (write_room (job g)) (write_size (job g)) (wrDB s) \<Longrightarrow>
     write_step bind fk cfg job s (Refuse g) (set_stage g (Ended Full) s)"
| store: "wrStage s g = Passed b \<Longrightarrow> now \<noteq> [] \<Longrightarrow> store_write bind f2 now (job g) (wrDB s) = (x, db) \<Longrightarrow>
     write_step bind fk cfg job s (Store g b f2 now) (set_stage g (Ended x) (s\<lparr>wrDB := db\<rparr>))"
| outside: "unpermitted op \<Longrightarrow> op_clock op \<noteq> [] \<Longrightarrow>
     write_step bind fk cfg job s (Outside f op) (s\<lparr>wrDB := sqlite_step bind fk (wrDB s) (f, op)\<rparr>)"

inductive write_run ::
  "(bytes option \<Rightarrow> bytes option) \<Rightarrow> bool \<Rightarrow> hub_cfg \<Rightarrow> (nat \<Rightarrow> write_job) \<Rightarrow> writers \<Rightarrow> act list \<Rightarrow> writers \<Rightarrow> bool"
  for bind fk cfg job s0 where
  start: "write_run bind fk cfg job s0 [] s0"
| step: "write_run bind fk cfg job s0 as s \<Longrightarrow> write_step bind fk cfg job s a s' \<Longrightarrow>
     write_run bind fk cfg job s0 (as @ [a]) s'"

definition no_writes :: "db \<Rightarrow> writers" where
  "no_writes db = \<lparr>wrSerial = no_permits, wrDB = db, wrStage = (\<lambda>_. Todo)\<rparr>"

section \<open>The same writes in one step each\<close>

text \<open>Reading the counter and writing at once, as \<open>run_job\<close> does.\<close>

definition write_now ::
  "(bytes option \<Rightarrow> bytes option) \<Rightarrow> hub_cfg \<Rightarrow> fails \<Rightarrow> fails \<Rightarrow> string \<Rightarrow> write_job \<Rightarrow> db \<Rightarrow> outcome \<times> db" where
  "write_now bind cfg f1 f2 now j db =
     (if storage_exceeded cfg f1 (write_room j) (write_size j) db then (Full, db)
      else store_write bind f2 now j db)"

lemma run_update_write:
  "wDB (run_update cfg slot st acquired f1 f2 now c r updateID u w) =
     (if acquired then snd (write_now bind cfg f1 f2 now (WriteUpdate (cRoomID (wClient w c)) u) (wDB w)) else wDB w)"
  by (auto simp: run_update_def write_now_def Let_def broadcastSyncRequest_def spawn_def queue_to_def split: sum.split prod.split)

lemma run_snapshot_write:
  "wDB (run_snapshot bind cfg slot st acquired f1 f2 now c state base w) =
     (if acquired then snd (write_now bind cfg f1 f2 now (WriteSnapshot (cRoomID (wClient w c)) state base) (wDB w))
      else wDB w)"
  by (simp add: run_snapshot_def write_now_def Let_def send_error_def)

text \<open>
  The outcomes so far and the database, when each write happens whole: a refused one when it reads
  the counter, another when it writes.
\<close>

fun whole ::
  "(bytes option \<Rightarrow> bytes option) \<Rightarrow> bool \<Rightarrow> hub_cfg \<Rightarrow> (nat \<Rightarrow> write_job) \<Rightarrow> (nat \<rightharpoonup> outcome) \<times> db \<Rightarrow> act
     \<Rightarrow> (nat \<rightharpoonup> outcome) \<times> db" where
  "whole bind fk cfg job (out, db) (Permit (GiveUp g)) = (out(g \<mapsto> Busy), db)"
| "whole bind fk cfg job (out, db) (Permit m) = (out, db)"
| "whole bind fk cfg job (out, db) (Pass g b) = (out, db)"
| "whole bind fk cfg job (out, db) (Refuse g) =
     (let (x, db) = write_now bind cfg no_fails no_fails [] (job g) db in (out(g \<mapsto> x), db))"
| "whole bind fk cfg job (out, db) (Store g b f2 now) =
     (let (x, db) = write_now bind cfg (\<lambda>_. b) f2 now (job g) db in (out(g \<mapsto> x), db))"
| "whole bind fk cfg job (out, db) (Outside f op) = (out, sqlite_step bind fk db (f, op))"

fun stage_outcome :: "stage \<Rightarrow> outcome option" where
  "stage_outcome (Ended x) = Some x"
| "stage_outcome _ = None"

definition seen :: "writers \<Rightarrow> (nat \<rightharpoonup> outcome) \<times> db" where
  "seen s = (\<lambda>g. stage_outcome (wrStage s g), wrDB s)"

section \<open>The invariant\<close>

text \<open>Who has passed the check holds the permit, and the check would still be passed.\<close>

definition writers_inv :: "hub_cfg \<Rightarrow> (nat \<Rightarrow> write_job) \<Rightarrow> writers \<Rightarrow> bool" where
  "writers_inv cfg job s \<longleftrightarrow>
     permits_ok (wrSerial s) \<and> (\<forall>rid. one_channel rid (wrSerial s))
   \<and> store_inv (wrDB s) \<and> (\<forall>x. 0 \<le> used_bytes (wrDB s) x)
   \<and> (\<forall>g rid ch. srPermit (wrSerial s) g \<in> {Acquiring rid ch, Holding rid ch} \<longrightarrow> rid = write_room (job g))
   \<and> (\<forall>g b. wrStage s g = Passed b \<longrightarrow> holds s g
        \<and> \<not> storage_exceeded cfg (\<lambda>_. b) (write_room (job g)) (write_size (job g)) (wrDB s))"

lemma writers_invD:
  assumes "writers_inv cfg job s"
  shows "permits_ok (wrSerial s)" "one_channel rid (wrSerial s)" "store_inv (wrDB s)" "0 \<le> used_bytes (wrDB s) x"
    and "srPermit (wrSerial s) g \<in> {Acquiring rid ch, Holding rid ch} \<Longrightarrow> rid = write_room (job g)"
    and "wrStage s g = Passed b \<Longrightarrow> holds s g"
    and "wrStage s g = Passed b \<Longrightarrow> \<not> storage_exceeded cfg (\<lambda>_. b) (write_room (job g)) (write_size (job g)) (wrDB s)"
  using assms unfolding writers_inv_def by blast+

lemma writers_invI:
  assumes "permits_ok (wrSerial s)" and "\<And>rid. one_channel rid (wrSerial s)" and "store_inv (wrDB s)"
    and "\<And>x. 0 \<le> used_bytes (wrDB s) x"
    and "\<And>g rid ch. srPermit (wrSerial s) g \<in> {Acquiring rid ch, Holding rid ch} \<Longrightarrow> rid = write_room (job g)"
    and "\<And>g b. wrStage s g = Passed b \<Longrightarrow> holds s g"
    and "\<And>g b. wrStage s g = Passed b \<Longrightarrow>
      \<not> storage_exceeded cfg (\<lambda>_. b) (write_room (job g)) (write_size (job g)) (wrDB s)"
  shows "writers_inv cfg job s"
  using assms unfolding writers_inv_def by blast

lemma passed_holds:
  assumes inv: "writers_inv cfg job s" and g: "wrStage s g = Passed b"
  shows "\<exists>ch. srPermit (wrSerial s) g = Holding (write_room (job g)) ch"
proof -
  obtain rid ch where "srPermit (wrSerial s) g = Holding rid ch"
    using writers_invD(6) [OF inv g] unfolding holds_def by blast
  with writers_invD(5) [OF inv, of g rid ch] show ?thesis by auto
qed

lemma set_stage_sel [simp]:
  "wrSerial (set_stage g x s) = wrSerial s" "wrDB (set_stage g x s) = wrDB s"
  "wrStage (set_stage g x s) = (wrStage s)(g := x)" "holds (set_stage g x s) h = holds s h"
  by (simp_all add: set_stage_def holds_def)

lemma moved_sel [simp]: "wrSerial (moved m s) = wrSerial s" "wrDB (moved m s) = wrDB s"
  by (cases m; simp)+

lemma store_write_ok:
  assumes "store_inv db" and "\<And>x. 0 \<le> used_bytes db x" and "now \<noteq> []"
  shows "store_inv (snd (store_write bind f now j db))"
    and "x \<noteq> write_room j \<Longrightarrow> used_bytes (snd (store_write bind f now j db)) x = used_bytes db x"
    and "0 \<le> used_bytes (snd (store_write bind f now j db)) x"
proof -
  show "store_inv (snd (store_write bind f now j db))"
    using sqlite.invar_append [OF assms(1,3)] sqlite.invar_save [OF assms(1,3)] by (cases j) simp_all
  show "x \<noteq> write_room j \<Longrightarrow> used_bytes (snd (store_write bind f now j db)) x = used_bytes db x"
    using used_save [of bind f now "write_room j" _ _ db x]
    by (cases j) (auto simp: used_append split: sum.split)
  show "0 \<le> used_bytes (snd (store_write bind f now j db)) x"
  proof (cases j)
    case (WriteUpdate rid u)
    then show ?thesis using assms(2) [of x] by (auto simp: used_append split: sum.split)
  next
    case (WriteSnapshot rid st base)
    then show ?thesis using assms(2) [of x] used_save [of bind f now rid st base db x] by auto
  qed
qed

lemma exceeded_mono:
  "\<not> storage_exceeded cfg f rid n db \<Longrightarrow> used_bytes db' rid \<le> used_bytes db rid \<Longrightarrow> \<not> storage_exceeded cfg f rid n db'"
  by (auto simp: storage_exceeded_used)

text \<open>A move of another goroutine takes nobody's permit away.\<close>

lemma permit_step_holding:
  assumes "permit_step s m t" and "permits_ok s" and "srPermit s g = Holding rid ch" and "m \<noteq> Release g"
  shows "srPermit t g = Holding rid ch"
  using assms(1)
proof cases
  case (look h x k u)
  with roomSerializer_sel(2) [OF look(4) assms(2)] assms(3) show ?thesis by (auto simp: set_permit_def)
qed (use assms(3,4) in \<open>auto simp: set_permit_def forget_serializer_def\<close>)

lemma permit_step_room:
  assumes "permit_step s m t" and "permits_ok s" and "srPermit t g \<in> {Acquiring rid ch, Holding rid ch}"
  shows "m = Look g rid \<or> (\<exists>k. srPermit s g \<in> {Acquiring rid k, Holding rid k})"
  using assms(1)
proof cases
  case (look h x k u)
  with roomSerializer_sel(2) [OF look(4) assms(2)] assms(3) show ?thesis
    by (auto simp: set_permit_def split: if_splits)
qed (use assms(3) in \<open>auto simp: set_permit_def forget_serializer_def split: if_splits\<close>)

lemma inv_permit:
  assumes inv: "writers_inv cfg job s" and m: "permit_step (wrSerial s) m t" "may_move job s m" "\<And>rid. m \<noteq> Forget rid"
  shows "writers_inv cfg job (moved m (s\<lparr>wrSerial := t\<rparr>))"
proof -
  note D = writers_invD [OF inv]
  have "one_channel rid t" for rid using one_channel_step [OF m(1) D(1,2) m(3)] .
  moreover have "rid = write_room (job g)" if "srPermit t g \<in> {Acquiring rid ch, Holding rid ch}" for g rid ch
    using permit_step_room [OF m(1) D(1) that] m(2) D(5) by auto
  moreover have "holds (moved m (s\<lparr>wrSerial := t\<rparr>)) g
      \<and> \<not> storage_exceeded cfg (\<lambda>_. b) (write_room (job g)) (write_size (job g)) (wrDB s)"
    if "wrStage (moved m (s\<lparr>wrSerial := t\<rparr>)) g = Passed b" for g b
  proof -
    have stage: "wrStage s g = Passed b" using that by (cases m) (auto split: if_splits)
    then obtain rid ch where "srPermit (wrSerial s) g = Holding rid ch" using D(6) unfolding holds_def by blast
    moreover have "m \<noteq> Release g" using m(2) stage by auto
    ultimately show ?thesis using permit_step_holding [OF m(1) D(1)] D(7) [OF stage] by (auto simp: holds_def)
  qed
  ultimately show ?thesis
    using permits_ok_step [OF m(1) D(1)] D(3,4) by (simp add: writers_inv_def)
qed

lemma inv_store:
  assumes inv: "writers_inv cfg job s" and g: "wrStage s g = Passed b" and now: "now \<noteq> []"
    and out: "store_write bind f2 now (job g) (wrDB s) = (x, db)"
  shows "writers_inv cfg job (set_stage g (Ended x) (s\<lparr>wrDB := db\<rparr>))"
proof -
  note D = writers_invD [OF inv]
  note ok = store_write_ok [OF D(3,4) now, where bind = bind and f = f2 and j = "job g"]
  have "\<not> storage_exceeded cfg (\<lambda>_. b) (write_room (job h)) (write_size (job h)) db"
    if h: "wrStage s h = Passed b" "h \<noteq> g" for h b
  proof -
    have "write_room (job h) \<noteq> write_room (job g)"
    proof
      assume "write_room (job h) = write_room (job g)"
      with passed_holds [OF inv h(1)] obtain ch' where "srPermit (wrSerial s) h = Holding (write_room (job g)) ch'"
        by auto
      moreover obtain ch where "srPermit (wrSerial s) g = Holding (write_room (job g)) ch"
        using passed_holds [OF inv g] by blast
      ultimately have "h = g" by (rule one_holder [OF D(1,2)])
      with h(2) show False by simp
    qed
    then have "used_bytes db (write_room (job h)) = used_bytes (wrDB s) (write_room (job h))"
      using ok(2) out by simp
    with exceeded_mono [OF D(7) [OF h(1)]] show ?thesis by simp
  qed
  moreover have "holds s h" if "wrStage s h = Passed b" for h b using D(6) [OF that] .
  moreover have "store_inv db" "0 \<le> used_bytes db x" for x using ok(1,3) out by simp_all
  ultimately show ?thesis
    using D(1,2,5) by (intro writers_invI) (simp_all add: holds_def split: if_splits)
qed

lemma inv_write_step:
  assumes "write_step bind fk cfg job s a s'" and inv: "writers_inv cfg job s" and "\<And>rid. a \<noteq> Permit (Forget rid)"
  shows "writers_inv cfg job s'"
  using assms(1)
proof cases
  case (permit m t)
  with inv_permit [OF inv] assms(3) show ?thesis by auto
next
  case (pass g b)
  with inv show ?thesis by (simp add: writers_inv_def)
next
  case (refuse g)
  with inv show ?thesis by (simp add: writers_inv_def)
next
  case (store g b now f2 x db)
  with inv_store [OF inv] show ?thesis by simp
next
  case (outside op f)
  note D = writers_invD [OF inv]
  let ?db = "sqlite_step bind fk (wrDB s) (f, op)"
  have "store_inv ?db" using sqlite.step_simulates [OF D(3) outside(4), of bind fk f] by (simp add: sqlite_step_eq)
  moreover have "used_bytes ?db x \<le> used_bytes (wrDB s) x" "0 \<le> used_bytes ?db x" for x
    using used_unpermitted [OF outside(3) D(3,4)] by simp_all
  ultimately show ?thesis
    using D(1,2,5,6) exceeded_mono [OF D(7)] by (auto simp: outside(2) writers_inv_def holds_def)
qed

lemma inv_no_writes:
  "store_inv db \<Longrightarrow> (\<And>x. 0 \<le> used_bytes db x) \<Longrightarrow> writers_inv cfg job (no_writes db)"
  by (simp add: writers_inv_def no_writes_def permits_ok_start one_channel_start) (simp add: no_permits_def)

lemma inv_write_run:
  "write_run bind fk cfg job s0 as s \<Longrightarrow> writers_inv cfg job s0 \<Longrightarrow> \<forall>rid. Permit (Forget rid) \<notin> set as \<Longrightarrow>
   writers_inv cfg job s"
  by (induction rule: write_run.induct) (auto intro: inv_write_step)

section \<open>Executing a run\<close>

fun exec_move :: "move \<Rightarrow> serial \<Rightarrow> serial option" where
  "exec_move (Look g rid) s =
     (if srPermit s g = Idle then (let (ch, t) = roomSerializer rid s in Some (set_permit g (Acquiring rid ch) t)) else None)"
| "exec_move (Take g) s =
     (case srPermit s g of
        Acquiring rid ch \<Rightarrow>
          (if ch \<in> srFull s then None else Some (set_permit g (Holding rid ch) (s\<lparr>srFull := insert ch (srFull s)\<rparr>)))
      | _ \<Rightarrow> None)"
| "exec_move (GiveUp g) s = (case srPermit s g of Acquiring rid ch \<Rightarrow> Some (set_permit g Idle s) | _ \<Rightarrow> None)"
| "exec_move (Release g) s =
     (case srPermit s g of Holding rid ch \<Rightarrow> Some (set_permit g Idle (s\<lparr>srFull := srFull s - {ch}\<rparr>)) | _ \<Rightarrow> None)"
| "exec_move (Forget rid) s = Some (forget_serializer rid s)"

lemma exec_move_step: "exec_move m s = Some t \<Longrightarrow> permit_step s m t"
  by (cases m) (auto intro: permit_step.intros split: permit.splits if_splits prod.splits)

fun can_move :: "(nat \<Rightarrow> write_job) \<Rightarrow> writers \<Rightarrow> move \<Rightarrow> bool" where
  "can_move job s (Look g rid) = ((case wrStage s g of Todo \<Rightarrow> True | _ \<Rightarrow> False) \<and> rid = write_room (job g))"
| "can_move job s (Release g) = (case wrStage s g of Ended x \<Rightarrow> True | _ \<Rightarrow> False)"
| "can_move job s _ = True"

lemma can_move: "can_move job s m \<Longrightarrow> may_move job s m"
  by (cases m) (auto split: stage.splits)

fun ready :: "writers \<Rightarrow> nat \<Rightarrow> bool" where
  "ready s g = (case (srPermit (wrSerial s) g, wrStage s g) of (Holding rid ch, Todo) \<Rightarrow> True | _ \<Rightarrow> False)"

fun exec_act ::
  "(bytes option \<Rightarrow> bytes option) \<Rightarrow> bool \<Rightarrow> hub_cfg \<Rightarrow> (nat \<Rightarrow> write_job) \<Rightarrow> act \<Rightarrow> writers \<Rightarrow> writers option" where
  "exec_act bind fk cfg job (Permit m) s =
     (if can_move job s m then map_option (\<lambda>t. moved m (s\<lparr>wrSerial := t\<rparr>)) (exec_move m (wrSerial s)) else None)"
| "exec_act bind fk cfg job (Pass g b) s =
     (if ready s g \<and> \<not> storage_exceeded cfg (\<lambda>_. b) (write_room (job g)) (write_size (job g)) (wrDB s)
      then Some (set_stage g (Passed b) s) else None)"
| "exec_act bind fk cfg job (Refuse g) s =
     (if ready s g \<and> storage_exceeded cfg no_fails (write_room (job g)) (write_size (job g)) (wrDB s)
      then Some (set_stage g (Ended Full) s) else None)"
| "exec_act bind fk cfg job (Store g b f2 now) s =
     (case wrStage s g of
        Passed b' \<Rightarrow>
          (if b' \<noteq> b \<or> now = [] then None
           else let (x, db) = store_write bind f2 now (job g) (wrDB s)
                in Some (set_stage g (Ended x) (s\<lparr>wrDB := db\<rparr>)))
      | _ \<Rightarrow> None)"
| "exec_act bind fk cfg job (Outside f op) s =
     (if unpermitted op \<and> op_clock op \<noteq> [] then Some (s\<lparr>wrDB := sqlite_step bind fk (wrDB s) (f, op)\<rparr>) else None)"

lemma exec_act_step: "exec_act bind fk cfg job a s = Some s' \<Longrightarrow> write_step bind fk cfg job s a s'"
proof (cases a)
  case (Permit m)
  then show "exec_act bind fk cfg job a s = Some s' \<Longrightarrow> ?thesis"
    by (auto split: if_splits intro!: write_step.permit exec_move_step can_move)
qed (auto simp: holds_def split: permit.splits stage.splits if_splits prod.splits intro: write_step.intros)

lemma exec_acts_run:
  "execute (exec_act bind fk cfg job) as s0 = Some s \<Longrightarrow> write_run bind fk cfg job s0 as s"
  using execute_run [of "write_run bind fk cfg job s0" "exec_act bind fk cfg job" as s0 s "[]"]
  by (simp add: write_run.start write_run.step exec_act_step)

section \<open>Each write is one step\<close>

lemma seen_step:
  assumes "write_step bind fk cfg job s a s'" and inv: "writers_inv cfg job s"
  shows "seen s' = whole bind fk cfg job (seen s) a"
  using assms(1)
proof cases
  case (permit m t)
  then show ?thesis by (cases m) (auto simp: seen_def)
next
  case (store g b now f2 x db)
  with writers_invD(7) [OF inv store(3)] show ?thesis by (auto simp: seen_def write_now_def)
qed (auto simp: seen_def write_now_def)

lemma seen_run:
  "write_run bind fk cfg job s0 as s \<Longrightarrow> writers_inv cfg job s0 \<Longrightarrow> \<forall>rid. Permit (Forget rid) \<notin> set as \<Longrightarrow>
   seen s = foldl (whole bind fk cfg job) (seen s0) as"
proof (induction rule: write_run.induct)
  case (step as s a s')
  with seen_step [OF step.hyps(2) inv_write_run [OF step.hyps(1) step.prems(1)]] show ?case by simp
qed simp

lemma seen_no_writes: "seen (no_writes db) = (Map.empty, db)"
  by (simp add: seen_def no_writes_def)

section \<open>The quota\<close>

text \<open>The driver binds a snapshot of the length it has, if it binds it at all.\<close>

definition binds_whole :: "(bytes option \<Rightarrow> bytes option) \<Rightarrow> bool" where
  "binds_whole bind \<longleftrightarrow> (\<forall>st b. bind st = Some b \<longrightarrow> int (length b) = blob_length st)"

definition quota_inv :: "hub_cfg \<Rightarrow> writers \<Rightarrow> bool" where
  "quota_inv cfg s \<longleftrightarrow> (\<forall>g. wrStage s g \<noteq> Passed True) \<and> (\<forall>x. used_bytes (wrDB s) x \<le> hcRoomMaxStorageBytes cfg)"

lemma store_write_used:
  assumes "binds_whole bind" and "\<And>x. 0 \<le> used_bytes db x"
  shows "used_bytes (snd (store_write bind f now j db)) x \<le> max (used_bytes db x) (used_bytes db (write_room j) + write_size j)"
proof (cases j)
  case (WriteUpdate rid u)
  then show ?thesis by (auto simp: used_append split: sum.split)
next
  case (WriteSnapshot rid st base)
  then show ?thesis
    using used_save [of bind f now rid st base db x] assms(1) assms(2) [of x] by (auto simp: binds_whole_def)
qed

lemma quota_step:
  assumes "write_step bind fk cfg job s a s'" and inv: "writers_inv cfg job s" and q: "quota_inv cfg s"
    and "binds_whole bind" and "\<And>g. a \<noteq> Pass g True"
  shows "quota_inv cfg s'"
  using assms(1)
proof cases
  case (permit m t)
  with q show ?thesis by (cases m) (auto simp: quota_inv_def)
next
  case (pass g b)
  with q assms(5) show ?thesis by (auto simp: quota_inv_def)
next
  case (refuse g)
  with q show ?thesis by (simp add: quota_inv_def)
next
  case (store g b now f2 x db)
  have "\<not> b" using q store(3) by (auto simp: quota_inv_def)
  then have "used_bytes (wrDB s) (write_room (job g)) + write_size (job g) \<le> hcRoomMaxStorageBytes cfg"
    using writers_invD(7) [OF inv store(3)] by (simp add: storage_exceeded_used)
  moreover have "used_bytes db y \<le> max (used_bytes (wrDB s) y) (used_bytes (wrDB s) (write_room (job g)) + write_size (job g))" for y
    using store_write_used [OF assms(4) writers_invD(4) [OF inv], of f2 now "job g" y] store(5) by simp
  ultimately have "used_bytes db y \<le> hcRoomMaxStorageBytes cfg" for y
    using q by (smt (verit) quota_inv_def)
  with q show ?thesis by (simp add: store(2) quota_inv_def)
next
  case (outside op f)
  have "used_bytes (sqlite_step bind fk (wrDB s) (f, op)) x \<le> hcRoomMaxStorageBytes cfg" for x
    using used_unpermitted(1) [OF outside(3) writers_invD(3,4) [OF inv], of bind fk f x] q
    by (auto simp: quota_inv_def intro: order_trans)
  with q show ?thesis by (simp add: outside(2) quota_inv_def)
qed

lemma quota_run:
  "write_run bind fk cfg job s0 as s \<Longrightarrow> writers_inv cfg job s0 \<Longrightarrow> quota_inv cfg s0 \<Longrightarrow> binds_whole bind \<Longrightarrow>
   \<forall>rid. Permit (Forget rid) \<notin> set as \<Longrightarrow> \<forall>g. Pass g True \<notin> set as \<Longrightarrow> quota_inv cfg s"
proof (induction rule: write_run.induct)
  case (step as s a s')
  with quota_step [OF step.hyps(2) inv_write_run [OF step.hyps(1) step.prems(1)]] show ?case by auto
qed

section \<open>Each write happens once\<close>

fun finishes :: "act \<Rightarrow> nat option" where
  "finishes (Permit (GiveUp g)) = Some g"
| "finishes (Refuse g) = Some g"
| "finishes (Store g b f now) = Some g"
| "finishes _ = None"

definition waiting_todo :: "writers \<Rightarrow> bool" where
  "waiting_todo s \<longleftrightarrow> (\<forall>g rid ch. srPermit (wrSerial s) g = Acquiring rid ch \<longrightarrow> wrStage s g = Todo)"

lemma waiting_step:
  assumes "write_step bind fk cfg job s a s'" and inv: "writers_inv cfg job s" and w: "waiting_todo s"
  shows "waiting_todo s'"
  using assms(1)
proof cases
  case (permit m t)
  from permit(3) show ?thesis
  proof cases
    case (look g rid ch u)
    with roomSerializer_sel(2) [OF look(4) writers_invD(1) [OF inv]] w permit(4) show ?thesis
      by (auto simp: permit(2) waiting_todo_def set_permit_def)
  qed (use w permit(4) in \<open>auto simp: permit(2) waiting_todo_def set_permit_def forget_serializer_def\<close>)
next
  case (pass g b)
  with w show ?thesis by (auto simp: waiting_todo_def holds_def)
next
  case (refuse g)
  with w show ?thesis by (auto simp: waiting_todo_def holds_def)
next
  case (store g b now f2 x db)
  with w writers_invD(6) [OF inv store(3)] show ?thesis by (auto simp: waiting_todo_def holds_def)
next
  case (outside op f)
  with w show ?thesis by (simp add: waiting_todo_def)
qed

definition ended :: "writers \<Rightarrow> nat \<Rightarrow> bool" where
  "ended s g \<longleftrightarrow> stage_outcome (wrStage s g) \<noteq> None"

lemma ended_step:
  assumes "write_step bind fk cfg job s a s'"
  shows "ended s' g \<longleftrightarrow> ended s g \<or> finishes a = Some g"
  using assms
proof cases
  case (permit m t)
  then show ?thesis by (cases m) (auto simp: ended_def)
qed (auto simp: ended_def)

lemma finish_fresh:
  assumes "write_step bind fk cfg job s a s'" and "waiting_todo s" and "finishes a = Some g"
  shows "\<not> ended s g"
  using assms(1)
proof cases
  case (permit m t)
  with assms(3) have "m = GiveUp g" by (cases m) simp_all
  with permit(3) obtain rid ch where "srPermit (wrSerial s) g = Acquiring rid ch" by (auto elim: permit_stepE)
  with assms(2) have "wrStage s g = Todo" unfolding waiting_todo_def by blast
  then show ?thesis by (simp add: ended_def)
qed (use assms(3) in \<open>auto simp: ended_def\<close>)

lemma finishes_once:
  assumes "write_run bind fk cfg job s0 as s" and "writers_inv cfg job s0" and "waiting_todo s0"
    and "\<forall>g. \<not> ended s0 g" and "\<forall>rid. Permit (Forget rid) \<notin> set as"
  shows "waiting_todo s \<and> distinct (List.map_filter finishes as) \<and> (\<forall>g. g \<in> set (List.map_filter finishes as) \<longleftrightarrow> ended s g)"
  using assms
proof (induction rule: write_run.induct)
  case start
  then show ?case by (simp add: List.map_filter_def)
next
  case (step as s a s')
  then have IH: "waiting_todo s" "distinct (List.map_filter finishes as)"
    "\<And>g. g \<in> set (List.map_filter finishes as) \<longleftrightarrow> ended s g" by simp_all
  have "writers_inv cfg job s" using inv_write_run [OF step.hyps(1)] step.prems by simp
  from waiting_step [OF step.hyps(2) this IH(1)] IH(2,3) ended_step [OF step.hyps(2)] finish_fresh [OF step.hyps(2) IH(1)]
  show ?case by (cases "finishes a") (auto simp: List.map_filter_def)
qed

section \<open>Properties\<close>

text \<open>
  C16: The goroutines that write to the store may be taken for one step each.  However their steps
  interleave with each other and with those that use the store without a permit, as long as no
  room's channel is forgotten, their outcomes and the database are those of a run in which each of
  them waited, then read the counter and wrote at once, and did so at most once.
\<close>

theorem writes_atomic:
  assumes "write_run bind fk cfg job (no_writes db) as s" and "store_inv db" and "\<forall>x. 0 \<le> used_bytes db x"
    and "\<forall>rid. Permit (Forget rid) \<notin> set as"
  shows "(\<lambda>g. stage_outcome (wrStage s g), wrDB s) = foldl (whole bind fk cfg job) (Map.empty, db) as
    \<and> distinct (List.map_filter finishes as)"
proof -
  have inv: "writers_inv cfg job (no_writes db)" using assms(2,3) by (simp add: inv_no_writes)
  have "waiting_todo (no_writes db)" "\<not> ended (no_writes db) g" for g
    by (simp_all add: waiting_todo_def ended_def no_writes_def)
  then have "distinct (List.map_filter finishes as)" using finishes_once [OF assms(1) inv] assms(4) by simp
  moreover have "seen s = foldl (whole bind fk cfg job) (Map.empty, db) as"
    using seen_run [OF assms(1) inv assms(4)] by (simp add: seen_no_writes)
  ultimately show ?thesis by (simp add: seen_def)
qed


section \<open>Examples\<close>

definition one_byte_cfg :: hub_cfg where
  "one_byte_cfg = (default_cfg ''s'')\<lparr>hcRoomMaxStorageBytes := 1\<rparr>"

definition fresh_db :: db where
  "fresh_db = snd (EnsureRoom no_fails ''t'' ''r'' ''h'' empty_db)"

definition one_byte :: "nat \<Rightarrow> write_job" where
  "one_byte g = WriteUpdate ''r'' [7]"

text \<open>Two goroutines write to one room; the second waits, and then finds the room full.\<close>

definition in_turn :: "act list" where
  "in_turn = [Permit (Look 0 ''r''), Permit (Take 0), Permit (Look 1 ''r''), Pass 0 False,
     Outside no_fails (OpEnsure ''u'' ''r'' ''h''), Store 0 False no_fails ''t'', Permit (Release 0),
     Permit (Take 1), Refuse 1, Permit (Release 1)]"

lemma fresh_db_ok: "store_inv fresh_db" "used_bytes fresh_db x = 0"
proof -
  show "store_inv fresh_db"
    using sqlite.invar_ensure [OF store_inv_empty, of "''t''"] by (simp add: fresh_db_def)
  show "used_bytes fresh_db x = 0"
    by (simp add: fresh_db_def used_ensure) (simp add: used_bytes_def select_room_def empty_db_def)
qed

lemma in_turn_exec:
  obtains s where "execute (exec_act id False one_byte_cfg one_byte) in_turn (no_writes fresh_db) = Some s"
    and "stage_outcome (wrStage s 0) = Some Saved" "stage_outcome (wrStage s 1) = Some Full"
    and "used_bytes (wrDB s) ''r'' = 1"
proof -
  have "case execute (exec_act id False one_byte_cfg one_byte) in_turn (no_writes fresh_db) of None \<Rightarrow> False
    | Some s \<Rightarrow> stage_outcome (wrStage s 0) = Some Saved \<and> stage_outcome (wrStage s 1) = Some Full
        \<and> used_bytes (wrDB s) ''r'' = 1"
    by code_simp
  with that show thesis by (auto split: option.splits)
qed

lemma in_turn_run:
  obtains s where "write_run id False one_byte_cfg one_byte (no_writes fresh_db) in_turn s"
    and "stage_outcome (wrStage s 0) = Some Saved" "stage_outcome (wrStage s 1) = Some Full"
    and "used_bytes (wrDB s) ''r'' = 1"
  using in_turn_exec exec_acts_run by metis

lemma in_turn_hyps: "\<forall>rid. Permit (Forget rid) \<notin> set in_turn" "\<forall>g. Pass g True \<notin> set in_turn"
  by (simp_all add: in_turn_def)

theorem writes_atomic_witness:
  "fst (foldl (whole id False one_byte_cfg one_byte) (Map.empty, fresh_db) in_turn) 0 = Some Saved
   \<and> fst (foldl (whole id False one_byte_cfg one_byte) (Map.empty, fresh_db) in_turn) 1 = Some Full"
proof -
  obtain s where s: "write_run id False one_byte_cfg one_byte (no_writes fresh_db) in_turn s"
    "stage_outcome (wrStage s 0) = Some Saved" "stage_outcome (wrStage s 1) = Some Full"
    by (rule in_turn_run)
  from writes_atomic [OF s(1) fresh_db_ok(1) _ in_turn_hyps(1)] fresh_db_ok(2)
  have "(\<lambda>g. stage_outcome (wrStage s g), wrDB s) = foldl (whole id False one_byte_cfg one_byte) (Map.empty, fresh_db) in_turn"
    by simp
  from arg_cong [OF this, of fst] s(2,3) show ?thesis by (simp add: fun_eq_iff)
qed


text \<open>
  When the room's channel is forgotten in between, which \<open>leaveRoom\<close> does when a room becomes empty,
  both goroutines read the counter before either writes, and the room is over its limit.
\<close>

definition at_once :: "act list" where
  "at_once = [Permit (Look 0 ''r''), Permit (Take 0), Pass 0 False, Permit (Forget ''r''),
     Permit (Look 1 ''r''), Permit (Take 1), Pass 1 False, Store 0 False no_fails ''t'', Store 1 False no_fails ''t'']"

lemma forgotten_channel_exceeds_quota:
  "\<exists>s. write_run id False one_byte_cfg one_byte (no_writes fresh_db) at_once s
     \<and> used_bytes (wrDB s) ''r'' > hcRoomMaxStorageBytes one_byte_cfg"
proof -
  have "case execute (exec_act id False one_byte_cfg one_byte) at_once (no_writes fresh_db) of None \<Rightarrow> False
    | Some s \<Rightarrow> used_bytes (wrDB s) ''r'' > hcRoomMaxStorageBytes one_byte_cfg"
    by code_simp
  with exec_acts_run show ?thesis by (fastforce split: option.splits)
qed

end
