(* ===== verification/Fanout.thy ===== *)
theory Fanout
  imports Handlers "HOL-Library.Sublist"
begin

text \<open>
  \<open>Room.broadcast\<close> of \<open>internal/server/hub.go\<close> step by step: it copies the members under the lock,
  and then, without it, queues the message for one after the other, waiting where a queue is full,
  while other members broadcast, come, leave, and are written to.  \<open>broadcast\<close> is one step
  elsewhere; here it is shown what a receiver can rely on, and what several cannot.
\<close>

section \<open>Steps\<close>

text \<open>
  The goroutine \<open>g\<close> still has \<open>faTodo g\<close> to broadcast; \<open>faNow g\<close> is the message it is sending, with
  the members it has not come to, and \<open>faBegun g\<close> keeps those it began to send, for the statements.
\<close>

record fanout =
  faRoom :: room
  faClient :: "nat \<Rightarrow> client"
  faTodo :: "nat \<Rightarrow> envelope list"
  faNow :: "nat \<Rightarrow> (envelope \<times> nat list) option"
  faBegun :: "nat \<Rightarrow> envelope list"

datatype fan_event =
    Snap nat
  | SendOne nat nat bool \<comment> \<open>sender, receiver, what \<open>queue\<close> returned\<close>
  | Sent nat
  | Members "(string \<times> nat) list"
  | Wrote nat bool
  | Shut nat

text \<open>\<open>readLoop\<close> has put the sender's id into \<open>From\<close>, and the handlers exclude it.\<close>

inductive fan_step :: "fanout \<Rightarrow> fan_event \<Rightarrow> fanout \<Rightarrow> bool" where
  snap: "faNow s g = None \<Longrightarrow> faTodo s g = e # es \<Longrightarrow>
     fan_step s (Snap g) (s\<lparr>faTodo := (faTodo s)(g := es),
       faNow := (faNow s)(g := Some (e, targets (faRoom s) (eFrom e))),
       faBegun := (faBegun s)(g := faBegun s g @ [e])\<rparr>)"
| send: "faNow s g = Some (e, c # cs) \<Longrightarrow> queue slot e (faClient s c) = (ok, x) \<Longrightarrow>
     fan_step s (SendOne g c ok) (s\<lparr>faClient := (faClient s)(c := x), faNow := (faNow s)(g := Some (e, cs))\<rparr>)"
| sent: "faNow s g = Some (e, []) \<Longrightarrow> fan_step s (Sent g) (s\<lparr>faNow := (faNow s)(g := None)\<rparr>)"
| members: "distinct (map snd cs) \<Longrightarrow>
     fan_step s (Members cs) (s\<lparr>faRoom := (faRoom s)\<lparr>rClients := cs\<rparr>\<rparr>)"
| wrote: "fan_step s (Wrote c ok) (s\<lparr>faClient := (faClient s)(c := writeLoop_step ok (faClient s c))\<rparr>)"
| shut: "fan_step s (Shut c) (s\<lparr>faClient := (faClient s)(c := shutdown (faClient s c))\<rparr>)"

inductive_cases fan_stepE: "fan_step s a s'"

inductive fan_run :: "fanout \<Rightarrow> fan_event list \<Rightarrow> fanout \<Rightarrow> bool" for s0 where
  start: "fan_run s0 [] s0"
| step: "fan_run s0 as s \<Longrightarrow> fan_step s a s' \<Longrightarrow> fan_run s0 (as @ [a]) s'"

section \<open>What one receiver has of one sender\<close>

definition heard :: "string \<Rightarrow> client \<Rightarrow> envelope list" where
  "heard i x = filter (\<lambda>e. eFrom e = i) (stream x)"

lemma heard_queue:
  "queue slot e x = (ok, y) \<Longrightarrow> heard i y = heard i x @ (if ok \<and> eFrom e = i then [e] else [])"
  using send.content_offer [of slot e x] by (auto simp: heard_def)

lemma subseq_first: "subseq xs (xs @ ys)"
  by (rule prefix_imp_subseq) simp

lemma heard_shutdown [simp]: "heard i (shutdown x) = heard i x"
  by (simp add: heard_def)

lemma stream_wrote: "stream (writeLoop_step True x) = stream x"
  by (simp add: writeLoop_step_def) (simp add: stream_def)

lemma subseq_wrote: "subseq (stream (writeLoop_step ok x)) (stream x)"
  by (cases "cSend x") (auto simp: writeLoop_step_def stream_def write_one_def intro: list_emb_append_mono)

lemma heard_wrote: "heard i (writeLoop_step True x) = heard i x"
  by (simp add: heard_def stream_wrote)

lemma subseq_heard_wrote: "subseq (heard i (writeLoop_step ok x)) (heard i x)"
  unfolding heard_def by (rule subseq_filter [OF subseq_wrote])

text \<open>What has come to \<open>k\<close> of what \<open>g\<close> began to send: the last message may still be under way.\<close>

definition come :: "fanout \<Rightarrow> nat \<Rightarrow> nat \<Rightarrow> envelope list" where
  "come s g k =
     (case faNow s g of
        None \<Rightarrow> faBegun s g
      | Some (e, cs) \<Rightarrow> if k \<in> set cs then butlast (faBegun s g) else faBegun s g)"

lemma come_same: "faNow s' g = faNow s g \<Longrightarrow> faBegun s' g = faBegun s g \<Longrightarrow> come s' g k = come s g k"
  by (simp add: come_def split: option.split)

definition fan_ok :: "(nat \<Rightarrow> string) \<Rightarrow> fanout \<Rightarrow> bool" where
  "fan_ok name s \<longleftrightarrow> distinct (map snd (rClients (faRoom s))) \<and>
     (\<forall>g. (\<forall>e \<in> set (faBegun s g) \<union> set (faTodo s g). eFrom e = name g)
       \<and> (\<forall>e cs. faNow s g = Some (e, cs) \<longrightarrow> faBegun s g \<noteq> [] \<and> last (faBegun s g) = e \<and> distinct cs))"

lemma fan_okD:
  assumes "fan_ok name s"
  shows "distinct (map snd (rClients (faRoom s)))"
    and "e \<in> set (faBegun s g) \<union> set (faTodo s g) \<Longrightarrow> eFrom e = name g"
    and "faNow s g = Some (e, cs) \<Longrightarrow> faBegun s g = butlast (faBegun s g) @ [e]"
    and "faNow s g = Some (e, cs) \<Longrightarrow> distinct cs \<and> eFrom e = name g"
  using assms unfolding fan_ok_def by (force dest: append_butlast_last_id)+

lemma distinct_targets: "distinct (map snd (rClients room)) \<Longrightarrow> distinct (targets room i)"
  unfolding targets_def by (rule distinct_map_filter)

lemma fan_ok_step:
  assumes "fan_step s a s'" and ok: "fan_ok name s"
  shows "fan_ok name s'"
  using assms(1)
proof cases
  case (snap g e es)
  with ok distinct_targets [OF fan_okD(1) [OF ok]] show ?thesis by (auto simp: fan_ok_def)
next
  case (send g e c cs slot b x)
  with ok fan_okD(4) [OF ok send(3)] show ?thesis by (simp add: fan_ok_def)
qed (use ok in \<open>simp_all add: fan_ok_def\<close>)

text \<open>
  One step at a receiver \<open>k\<close>, for the sender \<open>g\<close>: only the sending of \<open>g\<close> to \<open>k\<close>, the next broadcast
  of \<open>g\<close> to a room without \<open>k\<close>, and a failed write to \<open>k\<close> make a difference between what was heard
  and what has come.
\<close>

lemma heard_step:
  assumes "fan_step s a s'" and ok: "fan_ok name s" and inj: "inj name"
  shows "(\<exists>es. come s' g k = come s g k @ es \<and> subseq (heard (name g) (faClient s' k)) (heard (name g) (faClient s k) @ es)
    \<and> (a \<noteq> SendOne g k False \<and> a \<noteq> Wrote k False \<and> (a = Snap g \<longrightarrow> k \<in> set (targets (faRoom s) (name g)))
        \<longrightarrow> heard (name g) (faClient s' k) = heard (name g) (faClient s k) @ es))"
  using assms(1)
proof cases
  case (snap h e es)
  show ?thesis
  proof (cases "h = g")
    case True
    then have "eFrom e = name g" using fan_okD(2) [OF ok, of e g] snap(4) by simp
    with snap True show ?thesis by (cases "k \<in> set (targets (faRoom s) (name g))") (simp_all add: come_def subseq_first)
  next
    case False
    with snap have "come s' g k = come s g k" by (intro come_same) simp_all
    with snap show ?thesis by (intro exI [of _ "[]"]) simp
  qed
next
  case (send h e c cs slot b x)
  note heard = heard_queue [OF send(4), of "name g"]
  show ?thesis
  proof (cases "h = g \<and> c = k")
    case True
    with send(3) fan_okD(3,4) [OF ok, of g e] have "come s' g k = come s g k @ [e]" "eFrom e = name g"
      by (auto simp: send(2) come_def)
    with heard True show ?thesis
      by (cases b) (auto simp: send(1,2) subseq_first)
  next
    case False
    with send(3) have "come s' g k = come s g k" by (auto simp: send(2) come_def split: option.split)
    moreover have "eFrom e \<noteq> name g" if "c = k"
      using fan_okD(4) [OF ok send(3)] False that inj by (auto dest: injD)
    then have "heard (name g) (faClient s' k) = heard (name g) (faClient s k)" using heard by (auto simp: send(2))
    ultimately show ?thesis by (intro exI [of _ "[]"]) simp
  qed
next
  case (sent h e)
  then have "come s' g k = come s g k" by (cases "g = h") (auto simp: come_def split: option.split)
  with sent show ?thesis by (intro exI [of _ "[]"]) simp
next
  case (members cs)
  then have "come s' g k = come s g k" by (intro come_same) simp_all
  with members show ?thesis by (intro exI [of _ "[]"]) simp
next
  case (wrote c b)
  then have "come s' g k = come s g k" by (intro come_same) simp_all
  with wrote show ?thesis by (intro exI [of _ "[]"]) (cases b; simp add: heard_wrote subseq_heard_wrote)
next
  case (shut c)
  then have "come s' g k = come s g k" by (intro come_same) simp_all
  with shut show ?thesis by (intro exI [of _ "[]"]) simp
qed

text \<open>
  \<open>k\<close> misses nothing of the sender \<open>i\<close> in a run: it is a member under another id whenever the members
  change, no send to it is refused, and no write to it fails.
\<close>

definition stays :: "nat \<Rightarrow> string \<Rightarrow> (string \<times> nat) list \<Rightarrow> bool" where
  "stays k i cs \<longleftrightarrow> k \<in> snd ` set (filter (\<lambda>(j, _). j \<noteq> i) cs)"

fun undisturbed :: "nat \<Rightarrow> string \<Rightarrow> fan_event \<Rightarrow> bool" where
  "undisturbed k i (SendOne g c ok) = (c = k \<longrightarrow> ok)"
| "undisturbed k i (Members cs) = stays k i cs"
| "undisturbed k i (Wrote c ok) = (c = k \<longrightarrow> ok)"
| "undisturbed k i _ = True"

lemma stays_targets: "stays k i (rClients room) \<longleftrightarrow> k \<in> set (targets room i)"
  by (auto simp: stays_def targets_def)

lemma stays_step:
  "fan_step s a s' \<Longrightarrow> stays k i (rClients (faRoom s)) \<Longrightarrow> undisturbed k i a \<Longrightarrow> stays k i (rClients (faRoom s'))"
  by (cases rule: fan_step.cases) auto

lemma begun_step: "fan_step s a s' \<Longrightarrow> faBegun s' g @ faTodo s' g = faBegun s g @ faTodo s g"
  by (cases rule: fan_step.cases) auto

definition begin_with :: "room \<Rightarrow> (nat \<Rightarrow> client) \<Rightarrow> (nat \<Rightarrow> envelope list) \<Rightarrow> fanout" where
  "begin_with room clients todo =
     \<lparr>faRoom = room, faClient = clients, faTodo = todo, faNow = (\<lambda>_. None), faBegun = (\<lambda>_. [])\<rparr>"

lemma fan_run_heard:
  assumes "fan_run s0 as s" and "fan_ok name s0" and "inj name"
    and "subseq (heard (name g) (faClient s0 k)) (come s0 g k)"
  shows "fan_ok name s \<and> subseq (heard (name g) (faClient s k)) (come s g k)"
  using assms(1)
proof (induction rule: fan_run.induct)
  case (step as s a s')
  then have ok: "fan_ok name s" and sub: "subseq (heard (name g) (faClient s k)) (come s g k)" by simp_all
  from heard_step [OF step.hyps(2) ok assms(3), of g k] obtain es where
    es: "come s' g k = come s g k @ es" "subseq (heard (name g) (faClient s' k)) (heard (name g) (faClient s k) @ es)"
    by blast
  have "subseq (heard (name g) (faClient s k) @ es) (come s g k @ es)" using sub by simp
  with es fan_ok_step [OF step.hyps(2) ok] show ?case by (metis subseq_order.trans)
qed (use assms in simp)

lemma fan_run_all:
  assumes "fan_run s0 as s" and "fan_ok name s0" and "inj name"
    and "heard (name g) (faClient s0 k) = come s0 g k" and "stays k (name g) (rClients (faRoom s0))"
    and "list_all (undisturbed k (name g)) as"
  shows "fan_ok name s \<and> stays k (name g) (rClients (faRoom s)) \<and> heard (name g) (faClient s k) = come s g k"
  using assms(1,6)
proof (induction rule: fan_run.induct)
  case (step as s a s')
  then have ok: "fan_ok name s" and st: "stays k (name g) (rClients (faRoom s))"
    and h: "heard (name g) (faClient s k) = come s g k" and a: "undisturbed k (name g) a" by simp_all
  from heard_step [OF step.hyps(2) ok assms(3), of g k] obtain es where
    es: "come s' g k = come s g k @ es"
    "a \<noteq> SendOne g k False \<and> a \<noteq> Wrote k False \<and> (a = Snap g \<longrightarrow> k \<in> set (targets (faRoom s) (name g)))
        \<longrightarrow> heard (name g) (faClient s' k) = heard (name g) (faClient s k) @ es"
    by blast
  with a h st have "heard (name g) (faClient s' k) = come s' g k" by (auto simp: stays_targets)
  with fan_ok_step [OF step.hyps(2) ok] stays_step [OF step.hyps(2) st a] show ?case by simp
qed (use assms in simp)

lemma fan_run_begun: "fan_run s0 as s \<Longrightarrow> faBegun s g @ faTodo s g = faBegun s0 g @ faTodo s0 g"
  by (induction rule: fan_run.induct) (simp_all add: begun_step)

lemma come_begun: "subseq (come s g k) (faBegun s g)"
  by (auto simp: come_def intro: prefix_imp_subseq prefixI [of _ "butlast _" "[last _]"] split: option.split)

lemma fan_ok_begin:
  "distinct (map snd (rClients room)) \<Longrightarrow> \<forall>g. \<forall>e \<in> set (todo g). eFrom e = name g \<Longrightarrow>
   fan_ok name (begin_with room clients todo)"
  by (simp add: fan_ok_def begin_with_def)

section \<open>Executing a run\<close>

fun exec_fan :: "fan_event \<Rightarrow> fanout \<Rightarrow> fanout option" where
  "exec_fan (Snap g) s =
     (case (faNow s g, faTodo s g) of
        (None, e # es) \<Rightarrow> Some (s\<lparr>faTodo := (faTodo s)(g := es),
          faNow := (faNow s)(g := Some (e, targets (faRoom s) (eFrom e))),
          faBegun := (faBegun s)(g := faBegun s g @ [e])\<rparr>)
      | _ \<Rightarrow> None)"
| "exec_fan (SendOne g c ok) s =
     (case faNow s g of
        Some (e, k # cs) \<Rightarrow>
          (let (b, x) = queue True e (faClient s c)
           in if k = c \<and> b = ok
              then Some (s\<lparr>faClient := (faClient s)(c := x), faNow := (faNow s)(g := Some (e, cs))\<rparr>) else None)
      | _ \<Rightarrow> None)"
| "exec_fan (Sent g) s =
     (case faNow s g of Some (e, []) \<Rightarrow> Some (s\<lparr>faNow := (faNow s)(g := None)\<rparr>) | _ \<Rightarrow> None)"
| "exec_fan (Members cs) s =
     (if distinct (map snd cs) then Some (s\<lparr>faRoom := (faRoom s)\<lparr>rClients := cs\<rparr>\<rparr>) else None)"
| "exec_fan (Wrote c ok) s = Some (s\<lparr>faClient := (faClient s)(c := writeLoop_step ok (faClient s c))\<rparr>)"
| "exec_fan (Shut c) s = Some (s\<lparr>faClient := (faClient s)(c := shutdown (faClient s c))\<rparr>)"

lemma exec_fan_step: "exec_fan a s = Some s' \<Longrightarrow> fan_step s a s'"
  by (cases a) (auto split: option.splits list.splits prod.splits if_splits intro: fan_step.intros)

lemma exec_fan_run: "execute exec_fan as s0 = Some s \<Longrightarrow> fan_run s0 as s"
  using execute_run [of "fan_run s0" exec_fan as s0 s "[]"] by (simp add: fan_run.start fan_run.step exec_fan_step)

text \<open>Four members, of whom the first two say something at the same time.\<close>

definition nick :: "nat \<Rightarrow> string" where
  "nick g = replicate g CHR ''x''"

definition saying :: "nat \<Rightarrow> envelope" where
  "saying g = NewEnvelope (None, ''t'') TypeChat (nick g) [] (Raw None)"

definition chat_start :: fanout where
  "chat_start = begin_with ((empty_room ''r'')\<lparr>rClients := map (\<lambda>g. (nick g, g)) [0, 1, 2, 3]\<rparr>)
     (\<lambda>_. new_client ''r'' zero_user 0) (\<lambda>g. if g < 2 then [saying g] else [])"

definition at_the_same_time :: "fan_event list" where
  "at_the_same_time = [Snap 0, Snap 1, SendOne 0 1 True, SendOne 0 2 True, SendOne 1 0 True, SendOne 1 2 True,
     SendOne 1 3 True, SendOne 0 3 True, Sent 0, Sent 1]"

lemma nick_inj: "inj nick"
  by (rule injI) (metis length_replicate nick_def)

lemma chat_run:
  obtains s where "fan_run chat_start at_the_same_time s"
    and "stream (faClient s 2) = [saying 0, saying 1]" "stream (faClient s 3) = [saying 1, saying 0]"
    and "faTodo s 0 = []" "faNow s 0 = None"
proof -
  have "case execute exec_fan at_the_same_time chat_start of None \<Rightarrow> False
    | Some s \<Rightarrow> stream (faClient s 2) = [saying 0, saying 1] \<and> stream (faClient s 3) = [saying 1, saying 0]
        \<and> faTodo s 0 = [] \<and> faNow s 0 = None"
    by code_simp
  with that show thesis by (auto split: option.splits dest: exec_fan_run)
qed

text \<open>So two members may see the messages of two others in different orders.\<close>

lemma receivers_disagree:
  "\<exists>s. fan_run chat_start at_the_same_time s
     \<and> stream (faClient s 2) = [saying 0, saying 1] \<and> stream (faClient s 3) = [saying 1, saying 0]"
  using chat_run by metis

section \<open>Properties\<close>

text \<open>
  C17: Broadcasts keep the order of each sender.  However the members of a room broadcast at the same
  time, come, leave and are written to: what a member has received of another is a subsequence of what that one
  sent, in that order and each message at most once; and when the other is done it is all of it,
  if the receiver stayed in the room, none of the sends to it was refused and none of the writes failed.
\<close>

theorem broadcasts_keep_order:
  assumes "fan_run (begin_with room clients todo) as s" and "inj name"
    and "distinct (map snd (rClients room))" and "\<forall>g. \<forall>e \<in> set (todo g). eFrom e = name g"
    and "heard (name g) (clients k) = []"
  shows "subseq (heard (name g) (faClient s k)) (todo g)
    \<and> (faTodo s g = [] \<and> faNow s g = None \<and> stays k (name g) (rClients room) \<and> list_all (undisturbed k (name g)) as
        \<longrightarrow> heard (name g) (faClient s k) = todo g)"
proof -
  let ?s0 = "begin_with room clients todo"
  have ok: "fan_ok name ?s0" by (rule fan_ok_begin [OF assms(3,4)])
  have h0: "heard (name g) (faClient ?s0 k) = come ?s0 g k" using assms(5) by (simp add: begin_with_def come_def)
  have begun: "faBegun s g @ faTodo s g = todo g"
    using fan_run_begun [OF assms(1)] by (simp add: begin_with_def)
  then have "subseq (come s g k) (todo g)"
    using come_begun [of s g k] subseq_first by (metis subseq_order.trans)
  then have "subseq (heard (name g) (faClient s k)) (todo g)"
    using fan_run_heard [OF assms(1) ok assms(2)] h0 subseq_order.trans by (metis subseq_order.order_refl)
  moreover have "heard (name g) (faClient s k) = todo g"
    if "faTodo s g = []" "faNow s g = None" "stays k (name g) (rClients room)" "list_all (undisturbed k (name g)) as"
    using fan_run_all [OF assms(1) ok assms(2) h0 _ that(4)] that(1-3) begun by (simp add: begin_with_def come_def)
  ultimately show ?thesis by blast
qed

theorem broadcasts_keep_order_witness:
  "\<exists>s. fan_run chat_start at_the_same_time s \<and> heard (nick 0) (faClient s 3) = [saying 0]"
proof -
  obtain s where s: "fan_run chat_start at_the_same_time s" "faTodo s 0 = []" "faNow s 0 = None"
    by (rule chat_run)
  have "stays 3 (nick 0) (map (\<lambda>g. (nick g, g)) [0, 1, 2, 3])"
    and "list_all (undisturbed 3 (nick 0)) at_the_same_time"
    by code_simp+
  moreover have "\<forall>g. \<forall>e \<in> set (if g < 2 then [saying g] else []). eFrom e = nick g"
    by (simp add: saying_def)
  moreover have "heard (nick 0) (new_client ''r'' zero_user 0) = []"
    by (simp add: heard_def stream_def new_client_def)
  ultimately have "heard (nick 0) (faClient s 3) = [saying 0]"
    using broadcasts_keep_order [OF s(1) [unfolded chat_start_def] nick_inj, where g = 0 and k = 3] s(2,3) by simp
  with s(1) show ?thesis by blast
qed

end
