(* ===== verification/Divergences.thy ===== *)
theory Divergences
  imports Writes Fanout Http Runs
begin

text \<open>
  Where the code does something else than it says or means, as far as no theorem of another theory
  shows it already: one lemma for each.
\<close>

text \<open>The limit of members is checked when a join is requested, not when it is approved.\<close>

lemma approval_ignores_limit:
  assumes "approved d" and "\<not> rClosed (wRoom w r)" and "\<not> host_gone (wRoom w r)"
    and "\<not> has_key (rClients (wRoom w r)) (cID (wClient w c))"
  shows "length (rClients (wRoom (joinRoom_finish slot st c r p d w) r)) = Suc (length (rClients (wRoom w r)))"
  using assms by (simp add: joinRoom_finish_def Let_def update_fresh host_gone_def)

text \<open>
  The bytes a snapshot replaces count against it: compacting a room is refused when it is needed.
\<close>

lemma compaction_refused:
  assumes "used_bytes db rid + blob_length st > hcRoomMaxStorageBytes cfg" and "\<not> f1 0"
  shows "write_now bind cfg f1 f2 now (WriteSnapshot rid st base) db = (Full, db)"
  using assms by (simp add: write_now_def storage_exceeded_used)

text \<open>A client may be called \<open>server\<close>.\<close>

lemma server_id_accepted:
  "CleanID ''server'' ''client'' rnd = ''server''" "uniqueClientIDLocked rnds (empty_room i) ''server'' = ''server''"
proof -
  have "trim_space ''server'' = ''server''" by code_simp
  then show "CleanID ''server'' ''client'' rnd = ''server''" by (simp add: CleanID_def)
qed (simp add: uniqueClientIDLocked_def id_taken_def empty_room_def)

text \<open>A name of 22 Chinese characters is cut inside the last one.\<close>

definition long_name :: string where
  "long_name = concat (replicate 22 [CHR 0xE4, CHR 0xBD, CHR 0xA0])"

lemma cleaned_name_broken: "valid_utf8 long_name" "\<not> valid_utf8 (CleanText long_name txt_anonymous 64)"
  by code_simp+

text \<open>A presence message sets the name again, and this time uncut.\<close>

lemma presence_name_uncut:
  assumes "DecodePayload dec_presence zero_presence (payload_json env) = Inr p"
  shows "userName (cUser (wClient (handle_presence slot st now c r env w) c)) = userName (prUser p)"
  using assms by (simp add: handle_presence_def Let_def)

text \<open>
  A kick reads the member under the lock, tells and closes it without, and takes the lock again to
  delete the entry.  In between the closed connection is still a member, and if it leaves and a
  new one is admitted under its id, the new one is deleted, and not told.
\<close>

definition kick_notify :: "slots \<Rightarrow> stamp \<Rightarrow> nat \<Rightarrow> nat \<Rightarrow> string \<Rightarrow> string \<Rightarrow> world \<Rightarrow> world" where
  "kick_notify slot st c target i why w =
     shutdown_client target (queue_to slot (NewEnvelope st TypePeerKicked ''server'' i (PPeerKicked why (cID (wClient w c)))) target w)"

definition kick_remove :: "slots \<Rightarrow> stamp \<Rightarrow> nat \<Rightarrow> string \<Rightarrow> world \<Rightarrow> world" where
  "kick_remove slot st r i w =
     broadcast slot (NewEnvelope st TypePeerLeft ''server'' [] (PClientID i)) r []
       (set_room r ((wRoom w r)\<lparr>rClients := AList.delete i (rClients (wRoom w r))\<rparr>) w)"

lemma kick_halves:
  assumes "is_host c r w" and "DecodePayload dec_peer_kick zero_peer_kick (payload_json env) = Inr p"
    and "pkClientID p \<noteq> []" and "map_of (rClients (wRoom w r)) (pkClientID p) = Some target"
  shows "handle_peer_kick slot st c r env w =
    kick_remove slot (st 1) r (pkClientID p) (kick_notify slot (st 0) c target (pkClientID p) (pkReason p) w)"
  using assms by (simp add: handle_peer_kick_def kick_remove_def kick_notify_def Let_def)

lemma kicked_still_member:
  assumes "map_of (rClients (wRoom w r)) i = Some target"
  shows "map_of (rClients (wRoom (kick_notify slot st c target i why w) r)) i = Some target"
    and "cClosed (wClient (kick_notify slot st c target i why w) target)"
  using assms by (simp_all add: kick_notify_def)

lemma kick_removes_namesake:
  assumes "map_of (rClients (wRoom v r)) i = Some k"
  shows "\<not> has_key (rClients (wRoom (kick_remove slot st r i v) r)) i"
    and "cClosed (wClient (kick_remove slot st r i v) k) = cClosed (wClient v k)"
    and "wPhase (kick_remove slot st r i v) k = wPhase v k"
  by (simp_all add: kick_remove_def)

text \<open>A member cannot ask for the state again.\<close>

lemma sync_request_unknown:
  "eType env = TypeSyncRequest \<Longrightarrow> handleEnvelope cfg slot st now c r env w = send_error slot st ''unknown_type'' txt_unknown_type c w"
  by (simp add: handleEnvelope_def type_defs)

text \<open>A limit of 0 members is not unlimited.\<close>

lemma zero_is_twenty: "hoMaxClientsPerRoom opt = 0 \<Longrightarrow> hcMaxClientsPerRoom (NewHub secret (Some opt)) = 20"
  by (simp add: NewHub_def default_cfg_def positive_or_def Let_def)

text \<open>
  A message that finds the queue full for five seconds is dropped, also an update of the document,
  and its receiver stays in the room.
\<close>

lemma blocked_member_misses_update:
  "queue_full x \<Longrightarrow> \<not> cClosed x \<Longrightarrow> queue False e x = (False, x)"
  by (simp add: queue_def queue_full_def)

text \<open>The STUN address is made of the URL as it came, not of the trimmed one that was checked.\<close>

lemma stun_of_untrimmed:
  "parseURL (crServerURL req) = None \<Longrightarrow> rsICEServers (room_links parseURL req rid key) = [[crServerURL req]] \<or> crServerURL req = []"
  by (simp add: room_links_def buildSTUNURL_def Let_def)

end
